(* ===== verification/Prelude.thy ===== *)
theory Prelude
  imports Main "HOL-Library.Word" "HOL-Library.Char_ord" "HOL-Library.List_Lexorder"
begin

text \<open>
  Shared ground of the development: the collections of rewrite rules the component
  theories add to, bytes and numerals as the Go runtime prints and reads them, and the
  generic lemmas on lists and association lists that several components use.

  A Go \<^verbatim>\<open>string\<close> is a sequence of bytes, so it is an Isabelle \<open>string\<close>
  (a list of 8-bit \<open>char\<close>s); nothing here assumes that a string is valid UTF-8.
\<close>

section \<open>Collections\<close>

text \<open>
  \<open>go_std\<close>: evaluation rules for the pieces of the Go standard library;
  \<open>wire\<close>: unfolding rules for records, phases and constants of the model;
  \<open>prog_def\<close>: the definitions of the effectful programs of a component, unfolded together.
\<close>

named_theorems go_std \<open>evaluation rules for modelled Go standard library functions\<close>
named_theorems wire \<open>constants and record-building definitions\<close>
named_theorems prog_def \<open>definitions of effectful programs\<close>

section \<open>Bytes and numerals\<close>

abbreviation byte :: "char \<Rightarrow> nat" where
  "byte c \<equiv> of_char c"

definition is_digit :: "char \<Rightarrow> bool" where
  "is_digit c \<longleftrightarrow> CHR ''0'' \<le> c \<and> c \<le> CHR ''9''"

definition is_upper :: "char \<Rightarrow> bool" where
  "is_upper c \<longleftrightarrow> CHR ''A'' \<le> c \<and> c \<le> CHR ''Z''"

definition is_lower :: "char \<Rightarrow> bool" where
  "is_lower c \<longleftrightarrow> CHR ''a'' \<le> c \<and> c \<le> CHR ''z''"

lemma is_digit_code: "is_digit c \<longleftrightarrow> 48 \<le> byte c \<and> byte c \<le> 57"
  by (simp add: is_digit_def less_eq_char_def)

text \<open>One decimal digit, and \<^verbatim>\<open>%d\<close> of a non-negative and of a signed integer.\<close>

definition digit_char :: "nat \<Rightarrow> char" where
  "digit_char d = char_of (48 + d)"

definition digit_val :: "char \<Rightarrow> nat" where
  "digit_val c = byte c - 48"

fun show_nat :: "nat \<Rightarrow> string" where
  "show_nat n = (if n < 10 then [digit_char n]
                 else show_nat (n div 10) @ [digit_char (n mod 10)])"

declare show_nat.simps [simp del]

definition show_int :: "int \<Rightarrow> string" where
  "show_int i = (if i < 0 then ''-'' @ show_nat (nat (- i)) else show_nat (nat i))"

definition read_nat :: "string \<Rightarrow> nat" where
  "read_nat s = foldl (\<lambda>n c. 10 * n + digit_val c) 0 s"

lemma code_digit_char: "d < 10 \<Longrightarrow> byte (digit_char d) = 48 + d"
  by (simp add: digit_char_def)

lemma digit_val_digit_char [simp]: "d < 10 \<Longrightarrow> digit_val (digit_char d) = d"
  by (simp add: digit_val_def code_digit_char)

lemma is_digit_digit_char [simp]: "d < 10 \<Longrightarrow> is_digit (digit_char d)"
  by (simp add: is_digit_code code_digit_char)

lemma show_nat_nonempty [simp]: "show_nat n \<noteq> []"
  by (subst show_nat.simps) simp

lemma show_nat_digits: "c \<in> set (show_nat n) \<Longrightarrow> is_digit c"
proof (induction n arbitrary: c rule: show_nat.induct)
  case (1 n)
  show ?case
  proof (cases "n < 10")
    case True
    with 1(2) show ?thesis by (simp add: show_nat.simps [of n])
  next
    case False
    then have "show_nat n = show_nat (n div 10) @ [digit_char (n mod 10)]"
      by (simp add: show_nat.simps [of n])
    with 1(2) have "c = digit_char (n mod 10) \<or> c \<in> set (show_nat (n div 10))" by auto
    then show ?thesis using 1(1) [OF False] by auto
  qed
qed

lemma read_nat_show_nat [simp]: "read_nat (show_nat n) = n"
proof (induction n rule: show_nat.induct)
  case (1 n)
  show ?case
  proof (cases "n < 10")
    case True
    then show ?thesis by (simp add: show_nat.simps [of n] read_nat_def)
  next
    case False
    then have "show_nat n = show_nat (n div 10) @ [digit_char (n mod 10)]"
      by (simp add: show_nat.simps [of n])
    with 1 [OF False] show ?thesis by (simp add: read_nat_def)
  qed
qed

lemma show_nat_inject: "show_nat m = show_nat n \<longleftrightarrow> m = n"
  by (metis read_nat_show_nat)

lemma minus_not_digit [simp]: "\<not> is_digit (CHR ''-'')"
  by (simp add: is_digit_def)

lemma minus_not_in_show_nat: "CHR ''-'' \<notin> set (show_nat n)"
  using show_nat_digits [of "CHR ''-''" n] by auto

text \<open>Printing with \<^verbatim>\<open>%d\<close> is injective: two integers with the same text are equal.\<close>

lemma show_int_inject: "show_int i = show_int j \<longleftrightarrow> i = j"
proof -
  have "hd (show_nat n) \<noteq> CHR ''-''" for n
    using minus_not_in_show_nat [of n] hd_in_set [OF show_nat_nonempty, of n] by metis
  then have neq: "show_nat n \<noteq> CHR ''-'' # xs" for n xs
    by (metis list.sel(1))
  show ?thesis
    by (auto simp: show_int_def show_nat_inject neq neq [symmetric] split: if_splits)
qed

lemma show_int_no_quote: "c \<in> set (show_int i) \<Longrightarrow> c = CHR ''-'' \<or> is_digit c"
  by (auto simp: show_int_def split: if_splits dest: show_nat_digits)

lemma in_set_tlD: "x \<in> set (tl xs) \<Longrightarrow> x \<in> set xs"
  by (cases xs) auto

section \<open>Association lists\<close>

text \<open>
  A Go map that is only read, written and ranged over is a list of bindings with distinct
  keys, kept sorted by key: the order in which \<^verbatim>\<open>encoding/json\<close> prints it.
\<close>

fun put :: "'k::linorder \<Rightarrow> 'v \<Rightarrow> ('k \<times> 'v) list \<Rightarrow> ('k \<times> 'v) list" where
  "put k v [] = [(k, v)]"
| "put k v ((k', v') # m) =
     (if k < k' then (k, v) # (k', v') # m
      else if k = k' then (k, v) # m
      else (k', v') # put k v m)"

definition keys_sorted :: "('k::linorder \<times> 'v) list \<Rightarrow> bool" where
  "keys_sorted m \<longleftrightarrow> sorted_wrt (<) (map fst m)"

lemma keys_sorted_Nil [simp]: "keys_sorted []"
  by (simp add: keys_sorted_def)

lemma keys_sorted_Cons [simp]:
  "keys_sorted ((k, v) # m) \<longleftrightarrow> (\<forall>k' \<in> fst ` set m. k < k') \<and> keys_sorted m"
  by (auto simp: keys_sorted_def)

lemma keys_sorted_distinct: "keys_sorted m \<Longrightarrow> distinct (map fst m)"
  unfolding keys_sorted_def using strict_sorted_iff by blast

lemma map_of_put [simp]: "map_of (put k v m) = (map_of m)(k \<mapsto> v)"
  by (induction m rule: put.induct) (auto simp: fun_eq_iff)

lemma fst_set_put [simp]: "fst ` set (put k v m) = insert k (fst ` set m)"
  by (induction m rule: put.induct) auto

lemma set_put_subset: "set (put k v m) \<subseteq> insert (k, v) (set m)"
  by (induction m rule: put.induct) auto

lemma keys_sorted_put [simp]: "keys_sorted m \<Longrightarrow> keys_sorted (put k v m)"
  by (induction m rule: put.induct) auto

lemma keys_sorted_map_of_eq:
  assumes "keys_sorted m" "keys_sorted m'" "map_of m = map_of m'"
  shows "m = m'"
proof (rule map_sorted_distinct_set_unique [where f = fst])
  show "inj_on fst (set m \<union> set m')"
  proof (rule inj_onI)
    fix x y assume x: "x \<in> set m \<union> set m'" and y: "y \<in> set m \<union> set m'" and eq: "fst x = fst y"
    have "map_of m (fst z) = Some (snd z)" if "z \<in> set m \<union> set m'" for z
      using that assms keys_sorted_distinct by (metis Un_iff map_of_is_SomeI prod.collapse)
    from this [OF x] this [OF y] eq show "x = y" by (simp add: prod_eq_iff)
  qed
  show "sorted (map fst m)" "sorted (map fst m')"
    using assms unfolding keys_sorted_def by (auto simp: strict_sorted_iff)
  show "distinct (map fst m)" "distinct (map fst m')"
    using assms keys_sorted_distinct by auto
  show "set m = set m'"
    using assms keys_sorted_distinct by (metis map_of_inject_set)
qed

end
