(* ===== verification/GoError.thy ===== *)
theory GoError
  imports Prelude
begin

text \<open>
  Errors as values. \<open>go_error\<close> is what the sources can build with \<^verbatim>\<open>errors.New\<close> and
  \<^verbatim>\<open>fmt.Errorf\<close>; an error that comes from a library keeps what the code looks at: the text
  \<^verbatim>\<open>encoding/json\<close> was given, the reason of a Kubernetes API error, whether a query found no
  row. A function that may also panic returns an \<open>outcome\<close>.
\<close>

datatype api_reason = NotFound | AlreadyExists | OtherReason

datatype go_error =
  ErrText string
| ErrWrap string go_error
| ErrJson string
| ErrApi api_reason string
| ErrNoRows
| ErrExternal string

datatype 'a outcome =
  Returned 'a
| Failed go_error
| Panicked string

text \<open>
  \<^verbatim>\<open>errors.Is(err, pgx.ErrNoRows)\<close>, \<^verbatim>\<open>errors.IsNotFound\<close> and \<^verbatim>\<open>errors.IsAlreadyExists\<close> look
  through \<^verbatim>\<open>%w\<close>.
\<close>

fun is_no_rows :: "go_error \<Rightarrow> bool" where
  "is_no_rows (ErrWrap m e) = is_no_rows e"
| "is_no_rows e = (e = ErrNoRows)"

fun api_reason_of :: "go_error \<Rightarrow> api_reason" where
  "api_reason_of (ErrWrap m e) = api_reason_of e"
| "api_reason_of (ErrApi r m) = r"
| "api_reason_of e = OtherReason"

definition isNotFound :: "go_error \<Rightarrow> bool" where
  "isNotFound e \<longleftrightarrow> api_reason_of e = NotFound"

definition isAlreadyExists :: "go_error \<Rightarrow> bool" where
  "isAlreadyExists e \<longleftrightarrow> api_reason_of e = AlreadyExists"

text \<open>\<^verbatim>\<open>err.Error()\<close>; \<open>jtext\<close> is the text of the error \<^verbatim>\<open>encoding/json\<close> reports on an input.\<close>

fun error_text :: "(string \<Rightarrow> string) \<Rightarrow> go_error \<Rightarrow> string" where
  "error_text jtext (ErrText m) = m"
| "error_text jtext (ErrWrap m e) = m @ '': '' @ error_text jtext e"
| "error_text jtext (ErrJson s) = jtext s"
| "error_text jtext (ErrApi r m) = m"
| "error_text jtext ErrNoRows = ''no rows in result set''"
| "error_text jtext (ErrExternal m) = m"

primrec returned :: "'a outcome \<Rightarrow> bool" where
  "returned (Returned a) = True"
| "returned (Failed e) = False"
| "returned (Panicked p) = False"

end
