(* ===== verification/Database.thy ===== *)
theory Database
  imports GoError "HOL-Library.Multiset"
begin

text \<open>
  \<^verbatim>\<open>internal/database\<close>: the tables \<^verbatim>\<open>users\<close> and \<^verbatim>\<open>instance_defaults\<close> with the queries of
  \<^verbatim>\<open>users.sql.go\<close> and \<^verbatim>\<open>instance_defaults.sql.go\<close>. A query is one SQL statement and so one
  atomic step on the tables. Go returns a row and an error, the row being the zero value when
  there is an error; the pair is kept because one caller uses the row of a failed query. What
  PostgreSQL chooses (a new id, \<^verbatim>\<open>now()\<close>) is an argument. These are the steps of a database
  that is reachable and takes the text it is given; programs that query it are also analysed
  for arbitrary answers.
\<close>

section \<open>Rows\<close>

text \<open>\<^verbatim>\<open>pgtype.UUID\<close>: 16 bytes, and whether the column is not NULL. \<^verbatim>\<open>pgtype.Text\<close> is a \<open>string option\<close>.\<close>

record uuid =
  uu_bytes :: string
  uu_valid :: bool

definition zero_uuid :: uuid where
  "zero_uuid = \<lparr>uu_bytes = replicate 16 (CHR 0x00), uu_valid = False\<rparr>"

record user =
  us_id :: uuid
  us_email :: string
  us_name :: string
  us_picture :: "string option"
  us_role :: string
  us_oidcSubject :: string
  us_createdAt :: int
  us_updatedAt :: int
  us_slackUserID :: "string option"

definition zero_user :: user where
  "zero_user = \<lparr>us_id = zero_uuid, us_email = [], us_name = [], us_picture = None, us_role = [],
     us_oidcSubject = [], us_createdAt = 0, us_updatedAt = 0, us_slackUserID = None\<rparr>"

record instance_default =
  df_id :: uuid
  df_image :: string
  df_cpuRequest :: string
  df_memoryRequest :: string
  df_cpuLimit :: string
  df_memoryLimit :: string
  df_storageSize :: string
  df_updatedAt :: int
  df_gatewayConfig :: string

definition zero_default :: instance_default where
  "zero_default = \<lparr>df_id = zero_uuid, df_image = [], df_cpuRequest = [], df_memoryRequest = [],
     df_cpuLimit = [], df_memoryLimit = [], df_storageSize = [], df_updatedAt = 0, df_gatewayConfig = []\<rparr>"

record create_user_params =
  cu_email :: string
  cu_name :: string
  cu_picture :: "string option"
  cu_role :: string
  cu_oidcSubject :: string
  cu_slackUserID :: "string option"

record update_user_params =
  up_id :: uuid
  up_email :: "string option"
  up_name :: "string option"
  up_picture :: "string option"
  up_role :: "string option"
  up_oidcSubject :: "string option"
  up_slackUserID :: "string option"

record update_defaults_params =
  ud_image :: string
  ud_cpuRequest :: string
  ud_memoryRequest :: string
  ud_cpuLimit :: string
  ud_memoryLimit :: string
  ud_storageSize :: string
  ud_gatewayConfig :: string

record db =
  db_users :: "user list"
  db_defaults :: "instance_default list"

type_synonym 'a row_result = "'a \<times> go_error option"

section \<open>Queries\<close>

text \<open>\<^verbatim>\<open>QueryRow(...).Scan(...)\<close>: the first row, or \<^verbatim>\<open>pgx.ErrNoRows\<close> with the zero value.\<close>

fun scan_row :: "'a \<Rightarrow> 'a list \<Rightarrow> 'a row_result" where
  "scan_row z [] = (z, Some ErrNoRows)"
| "scan_row z (r # rs) = (r, None)"

text \<open>\<^verbatim>\<open>WHERE id = $1\<close>: NULL equals nothing.\<close>

definition has_id :: "uuid \<Rightarrow> user \<Rightarrow> bool" where
  "has_id i u \<longleftrightarrow> uu_valid i \<and> us_id u = i"

definition GetUserByEmail :: "string \<Rightarrow> db \<Rightarrow> user row_result" where
  "GetUserByEmail email d = scan_row zero_user (filter (\<lambda>u. us_email u = email) (db_users d))"

definition GetUserByID :: "uuid \<Rightarrow> db \<Rightarrow> user row_result" where
  "GetUserByID i d = scan_row zero_user (filter (has_id i) (db_users d))"

definition GetUserByOIDCSubject :: "string \<Rightarrow> db \<Rightarrow> user row_result" where
  "GetUserByOIDCSubject sub d = scan_row zero_user (filter (\<lambda>u. us_oidcSubject u = sub) (db_users d))"

text \<open>Newest first; rows with the same time stay in table order, which SQL leaves open.\<close>

definition ListUsers :: "db \<Rightarrow> user list" where
  "ListUsers d = sort_key (\<lambda>u. - us_createdAt u) (db_users d)"

definition duplicate_key :: "string \<Rightarrow> go_error" where
  "duplicate_key column = ErrExternal (''duplicate key value violates unique constraint on '' @ column)"

text \<open>The first unique constraint that adding \<open>u\<close> to the rows \<open>us\<close> would violate.\<close>

definition unique_violation :: "user list \<Rightarrow> user \<Rightarrow> go_error option" where
  "unique_violation us u =
     (if us_id u \<in> us_id ` set us then Some (duplicate_key ''id'')
      else if us_email u \<in> us_email ` set us then Some (duplicate_key ''email'')
      else if us_oidcSubject u \<in> us_oidcSubject ` set us then Some (duplicate_key ''oidc_subject'')
      else None)"

definition CreateUser :: "string \<Rightarrow> int \<Rightarrow> create_user_params \<Rightarrow> db \<Rightarrow> user row_result \<times> db" where
  "CreateUser fresh now arg d =
     (let u = \<lparr>us_id = \<lparr>uu_bytes = fresh, uu_valid = True\<rparr>, us_email = cu_email arg, us_name = cu_name arg,
               us_picture = cu_picture arg, us_role = cu_role arg, us_oidcSubject = cu_oidcSubject arg,
               us_createdAt = now, us_updatedAt = now, us_slackUserID = cu_slackUserID arg\<rparr>
      in case unique_violation (db_users d) u of
           Some e \<Rightarrow> ((zero_user, Some e), d)
         | None \<Rightarrow> ((u, None), d\<lparr>db_users := db_users d @ [u]\<rparr>))"

definition DeleteUser :: "uuid \<Rightarrow> db \<Rightarrow> db" where
  "DeleteUser i d = d\<lparr>db_users := filter (\<lambda>u. \<not> has_id i u) (db_users d)\<rparr>"

definition coalesce :: "'a option \<Rightarrow> 'a \<Rightarrow> 'a" where
  "coalesce x y = (case x of Some v \<Rightarrow> v | None \<Rightarrow> y)"

lemma coalesce_simps [simp]: "coalesce (Some v) y = v" "coalesce None y = y"
  by (simp_all add: coalesce_def)

definition updated_user :: "int \<Rightarrow> update_user_params \<Rightarrow> user \<Rightarrow> user" where
  "updated_user now arg u =
     u\<lparr>us_email := coalesce (up_email arg) (us_email u),
       us_name := coalesce (up_name arg) (us_name u),
       us_picture := (case up_picture arg of Some p \<Rightarrow> Some p | None \<Rightarrow> us_picture u),
       us_role := coalesce (up_role arg) (us_role u),
       us_oidcSubject := coalesce (up_oidcSubject arg) (us_oidcSubject u),
       us_slackUserID := (case up_slackUserID arg of Some s \<Rightarrow> Some s | None \<Rightarrow> us_slackUserID u),
       us_updatedAt := now\<rparr>"

text \<open>\<^verbatim>\<open>id\<close> is the primary key, so at most one row is updated; the other rows decide about uniqueness.\<close>

definition UpdateUser :: "int \<Rightarrow> update_user_params \<Rightarrow> db \<Rightarrow> user row_result \<times> db" where
  "UpdateUser now arg d =
     (case filter (has_id (up_id arg)) (db_users d) of
        [] \<Rightarrow> ((zero_user, Some ErrNoRows), d)
      | u # _ \<Rightarrow>
          (let u' = updated_user now arg u in
           case unique_violation (filter (\<lambda>v. \<not> has_id (up_id arg) v) (db_users d)) u' of
             Some e \<Rightarrow> ((zero_user, Some e), d)
           | None \<Rightarrow> ((u', None),
               d\<lparr>db_users := map (\<lambda>v. if has_id (up_id arg) v then updated_user now arg v else v) (db_users d)\<rparr>)))"

definition GetDefaults :: "db \<Rightarrow> instance_default row_result" where
  "GetDefaults d = scan_row zero_default (db_defaults d)"

definition updated_default :: "int \<Rightarrow> update_defaults_params \<Rightarrow> instance_default \<Rightarrow> instance_default" where
  "updated_default now arg r =
     r\<lparr>df_image := ud_image arg, df_cpuRequest := ud_cpuRequest arg, df_memoryRequest := ud_memoryRequest arg,
       df_cpuLimit := ud_cpuLimit arg, df_memoryLimit := ud_memoryLimit arg, df_storageSize := ud_storageSize arg,
       df_updatedAt := now, df_gatewayConfig := ud_gatewayConfig arg\<rparr>"

definition UpdateDefaults :: "int \<Rightarrow> update_defaults_params \<Rightarrow> db \<Rightarrow> instance_default row_result \<times> db" where
  "UpdateDefaults now arg d =
     (let rows = map (updated_default now arg) (db_defaults d)
      in (scan_row zero_default rows, d\<lparr>db_defaults := rows\<rparr>))"

section \<open>Tables stay consistent\<close>

text \<open>
  What the constraints and the migrations guarantee: ids, emails and OIDC subjects are unique,
  no id is NULL, and there is exactly one row of defaults.
\<close>

definition users_ok :: "user list \<Rightarrow> bool" where
  "users_ok us \<longleftrightarrow> distinct (map us_id us) \<and> distinct (map us_email us)
     \<and> distinct (map us_oidcSubject us) \<and> (\<forall>u \<in> set us. uu_valid (us_id u))"

definition db_ok :: "db \<Rightarrow> bool" where
  "db_ok d \<longleftrightarrow> users_ok (db_users d) \<and> length (db_defaults d) = 1"

lemma unique_violation_None:
  "unique_violation us u = None \<longleftrightarrow>
     us_id u \<notin> us_id ` set us \<and> us_email u \<notin> us_email ` set us \<and> us_oidcSubject u \<notin> us_oidcSubject ` set us"
  by (simp add: unique_violation_def)

lemma unique_violation_kind: "unique_violation us u = Some e \<Longrightarrow> \<not> is_no_rows e"
  by (auto simp: unique_violation_def duplicate_key_def split: if_splits)

lemma has_id_other: "us_id v \<noteq> i \<Longrightarrow> \<not> has_id i v"
  by (simp add: has_id_def)

lemma users_ok_key:
  assumes "users_ok us" "u \<in> set us" "v \<in> set us"
    and "us_id u = us_id v \<or> us_email u = us_email v \<or> us_oidcSubject u = us_oidcSubject v"
  shows "u = v"
  using assms unfolding users_ok_def distinct_map by (auto dest: inj_onD)

lemma distinct_singleton: "distinct xs \<Longrightarrow> set xs = {u} \<Longrightarrow> xs = [u]"
proof (cases xs)
  case (Cons a ys)
  assume "distinct xs" and eq: "set xs = {u}"
  with Cons have "a = u" "u \<notin> set ys" "set ys \<subseteq> {u}" by auto
  then have "ys = []" by (cases ys) auto
  with Cons \<open>a = u\<close> show ?thesis by simp
qed simp

lemma filter_unique:
  assumes "distinct us" "u \<in> set us" "P u" "\<And>v. v \<in> set us \<Longrightarrow> P v \<Longrightarrow> v = u"
  shows "filter P us = [u]"
proof (rule distinct_singleton)
  show "set (filter P us) = {u}" using assms(2,3) by (auto dest: assms(4))
qed (simp add: assms(1))

lemma users_ok_distinct: "users_ok us \<Longrightarrow> distinct us"
  by (auto simp: users_ok_def distinct_map)

lemma scan_row_filter: "scan_row z (filter P us) = (u, None) \<Longrightarrow> u \<in> set us \<and> P u"
  by (cases "filter P us") (auto simp: filter_eq_Cons_iff)

lemma scan_row_None:
  "scan_row z (filter P us) = (u, err) \<Longrightarrow> err = None \<or> err = Some ErrNoRows \<and> u = z \<and> (\<forall>v \<in> set us. \<not> P v)"
  by (cases "filter P us") (auto simp: filter_empty_conv)

lemma GetUserByEmail_iff:
  assumes "users_ok (db_users d)"
  shows "GetUserByEmail email d = (u, None) \<longleftrightarrow> u \<in> set (db_users d) \<and> us_email u = email"
proof
  assume "u \<in> set (db_users d) \<and> us_email u = email"
  then have "filter (\<lambda>v. us_email v = email) (db_users d) = [u]"
    using assms by (intro filter_unique users_ok_distinct) (auto intro: users_ok_key)
  then show "GetUserByEmail email d = (u, None)" by (simp add: GetUserByEmail_def)
qed (auto simp: GetUserByEmail_def dest: scan_row_filter)

lemma GetUserByOIDCSubject_iff:
  assumes "users_ok (db_users d)"
  shows "GetUserByOIDCSubject sub d = (u, None) \<longleftrightarrow> u \<in> set (db_users d) \<and> us_oidcSubject u = sub"
proof
  assume "u \<in> set (db_users d) \<and> us_oidcSubject u = sub"
  then have "filter (\<lambda>v. us_oidcSubject v = sub) (db_users d) = [u]"
    using assms by (intro filter_unique users_ok_distinct) (auto intro: users_ok_key)
  then show "GetUserByOIDCSubject sub d = (u, None)" by (simp add: GetUserByOIDCSubject_def)
qed (auto simp: GetUserByOIDCSubject_def dest: scan_row_filter)

lemma filter_has_id:
  assumes "users_ok us" "u \<in> set us"
  shows "filter (has_id (us_id u)) us = [u]"
  using assms by (intro filter_unique users_ok_distinct) (auto simp: has_id_def users_ok_def intro: users_ok_key)

lemma GetUserByID_iff:
  assumes "users_ok (db_users d)"
  shows "GetUserByID i d = (u, None) \<longleftrightarrow> u \<in> set (db_users d) \<and> us_id u = i"
proof
  assume "u \<in> set (db_users d) \<and> us_id u = i"
  then show "GetUserByID i d = (u, None)"
    using filter_has_id [OF assms] by (auto simp: GetUserByID_def)
qed (auto simp: GetUserByID_def has_id_def dest: scan_row_filter)

lemma CreateUser_ok:
  assumes "db_ok d"
  shows "db_ok (snd (CreateUser fresh now arg d))"
  using assms by (auto simp: CreateUser_def Let_def db_ok_def users_ok_def unique_violation_None split: option.splits)

lemma DeleteUser_ok: "db_ok d \<Longrightarrow> db_ok (DeleteUser i d)"
  by (auto simp: DeleteUser_def db_ok_def users_ok_def distinct_map intro: inj_on_subset)

lemma updated_user_id [simp]: "us_id (updated_user now arg u) = us_id u"
  by (simp add: updated_user_def)

lemma distinct_map_update:
  assumes "distinct (map f us)" "filter P us = [u]" "f (g u) \<notin> f ` {v \<in> set us. \<not> P v}"
  shows "distinct (map f (map (\<lambda>v. if P v then g v else v) us))"
proof -
  have P: "P v \<longleftrightarrow> v = u" if "v \<in> set us" for v
    using arg_cong [OF assms(2), of set] that by auto
  have "distinct us" using assms(1) by (simp add: distinct_map)
  moreover have "inj_on (\<lambda>v. f (if P v then g v else v)) (set us)"
  proof (rule inj_onI)
    fix v w assume v: "v \<in> set us" and w: "w \<in> set us"
      and eq: "f (if P v then g v else v) = f (if P w then g w else w)"
    show "v = w"
    proof (cases "P v = P w")
      case True
      with eq P [OF v] P [OF w] assms(1) v w show ?thesis
        by (cases "P v") (auto simp: distinct_map dest: inj_onD)
    next
      case False
      then have "f (g u) \<in> f ` {v \<in> set us. \<not> P v}"
        using eq P [OF v] P [OF w] v w by (cases "P v") (auto intro: rev_image_eqI)
      with assms(3) show ?thesis ..
    qed
  qed
  ultimately show ?thesis by (simp add: distinct_map comp_def)
qed

lemma UpdateUser_ok:
  assumes "db_ok d"
  shows "db_ok (snd (UpdateUser now arg d))"
proof (cases "filter (has_id (up_id arg)) (db_users d)")
  case (Cons u rest)
  have us: "users_ok (db_users d)" using assms by (simp add: db_ok_def)
  from Cons have u: "u \<in> set (db_users d)" "up_id arg = us_id u"
    by (auto simp: filter_eq_Cons_iff has_id_def)
  then have one: "filter (has_id (up_id arg)) (db_users d) = [u]"
    using filter_has_id [OF us] by simp
  let ?others = "filter (\<lambda>v. \<not> has_id (up_id arg) v) (db_users d)"
  show ?thesis
  proof (cases "unique_violation ?others (updated_user now arg u)")
    case None
    note n = None [unfolded unique_violation_None set_filter]
    have "users_ok (map (\<lambda>v. if has_id (up_id arg) v then updated_user now arg v else v) (db_users d))"
      unfolding users_ok_def
    proof (intro conjI)
      let ?g = "\<lambda>v. if has_id (up_id arg) v then updated_user now arg v else v"
      show "distinct (map us_id (map ?g (db_users d)))" "distinct (map us_email (map ?g (db_users d)))"
        "distinct (map us_oidcSubject (map ?g (db_users d)))"
        using us n one unfolding users_ok_def by (blast intro: distinct_map_update)+
      show "\<forall>v \<in> set (map ?g (db_users d)). uu_valid (us_id v)" using us by (auto simp: users_ok_def)
    qed
    with None one assms show ?thesis by (simp add: UpdateUser_def db_ok_def)
  qed (simp add: UpdateUser_def one assms)
qed (simp add: UpdateUser_def assms)

lemma UpdateDefaults_ok: "db_ok d \<Longrightarrow> db_ok (snd (UpdateDefaults now arg d))"
  by (simp add: UpdateDefaults_def Let_def db_ok_def)

lemma filter_other_id:
  "i \<noteq> j \<Longrightarrow> filter (has_id i) (map (\<lambda>v. if has_id j v then updated_user now arg v else v) us) = filter (has_id i) us"
  by (induction us) (auto simp: has_id_def)

section \<open>Looking up what was created\<close>

text \<open>
  The interface the sign-in code uses: look a user up by some key, create it if it is not
  there. \<open>lookup\<close> reads a store, \<open>create\<close> adds the row \<open>lookup\<close> looks for.
\<close>

locale user_store =
  fixes lookup :: "'s \<Rightarrow> 'u row_result"
    and create :: "'s \<Rightarrow> 'u row_result \<times> 's"
    and ok :: "'s \<Rightarrow> bool"
  assumes create_ok: "ok s \<Longrightarrow> ok (snd (create s))"
    and create_found: "ok s \<Longrightarrow> create s = ((u, None), s') \<Longrightarrow> lookup s' = (u, None)"
    and create_failed: "create s = ((u, Some e), s') \<Longrightarrow> s' = s"
    and create_clash: "ok s \<Longrightarrow> lookup s = (u, None) \<Longrightarrow> \<exists>z e. create s = ((z, Some e), s)"
begin

definition find_or_create :: "'s \<Rightarrow> 'u row_result \<times> 's" where
  "find_or_create s = (case lookup s of (u, None) \<Rightarrow> ((u, None), s) | (u, Some e) \<Rightarrow> create s)"

lemma find_or_create_ok: "ok s \<Longrightarrow> ok (snd (find_or_create s))"
  by (auto simp: find_or_create_def create_ok split: prod.splits option.splits)

lemma find_or_create_found: "ok s \<Longrightarrow> find_or_create s = ((u, None), s') \<Longrightarrow> lookup s' = (u, None)"
  by (auto simp: find_or_create_def split: prod.splits option.splits dest: create_found)

lemma find_or_create_again:
  "ok s \<Longrightarrow> find_or_create s = ((u, None), s') \<Longrightarrow> find_or_create s' = ((u, None), s')"
  by (drule (1) find_or_create_found) (simp add: find_or_create_def)

lemma create_once: "ok s \<Longrightarrow> create s = ((u, None), s') \<Longrightarrow> \<exists>z e. create s' = ((z, Some e), s')"
  by (metis create_clash create_found create_ok snd_conv)

end

lemma CreateUser_Inr:
  "CreateUser fresh now arg d = ((u, None), d') \<longleftrightarrow>
     u = \<lparr>us_id = \<lparr>uu_bytes = fresh, uu_valid = True\<rparr>, us_email = cu_email arg, us_name = cu_name arg,
          us_picture = cu_picture arg, us_role = cu_role arg, us_oidcSubject = cu_oidcSubject arg,
          us_createdAt = now, us_updatedAt = now, us_slackUserID = cu_slackUserID arg\<rparr>
     \<and> unique_violation (db_users d) u = None \<and> d' = d\<lparr>db_users := db_users d @ [u]\<rparr>"
  by (auto simp: CreateUser_def Let_def split: option.splits)

lemma CreateUser_Inl: "CreateUser fresh now arg d = ((u, Some e), d') \<Longrightarrow> d' = d \<and> u = zero_user \<and> \<not> is_no_rows e"
  by (auto simp: CreateUser_def Let_def split: option.splits dest: unique_violation_kind)

lemma CreateUser_clash:
  assumes "cu_email arg \<in> us_email ` set (db_users d) \<or> cu_oidcSubject arg \<in> us_oidcSubject ` set (db_users d)"
  shows "\<exists>z e. CreateUser fresh now arg d = ((z, Some e), d)"
  using assms by (fastforce simp: CreateUser_def Let_def unique_violation_def)

lemma CreateUser_member: "CreateUser fresh now arg d = ((u, None), d') \<Longrightarrow> u \<in> set (db_users d')"
  by (auto simp: CreateUser_Inr)

interpretation by_email: user_store "GetUserByEmail (cu_email arg)" "CreateUser fresh now arg" db_ok
  for fresh now arg
proof
  fix s s' :: db and u :: user and e
  show "db_ok s \<Longrightarrow> db_ok (snd (CreateUser fresh now arg s))" by (rule CreateUser_ok)
  show "CreateUser fresh now arg s = ((u, Some e), s') \<Longrightarrow> s' = s" by (auto dest: CreateUser_Inl)
  show "GetUserByEmail (cu_email arg) s' = (u, None)" if "db_ok s" "CreateUser fresh now arg s = ((u, None), s')"
    using CreateUser_ok [OF that(1), of fresh now arg] that(2)
    by (auto simp: db_ok_def GetUserByEmail_iff CreateUser_Inr)
  show "\<exists>z e. CreateUser fresh now arg s = ((z, Some e), s)" if "db_ok s" "GetUserByEmail (cu_email arg) s = (u, None)"
    using that by (intro CreateUser_clash) (force simp: db_ok_def GetUserByEmail_iff)
qed

interpretation by_subject: user_store "GetUserByOIDCSubject (cu_oidcSubject arg)" "CreateUser fresh now arg" db_ok
  for fresh now arg
proof
  fix s s' :: db and u :: user and e
  show "db_ok s \<Longrightarrow> db_ok (snd (CreateUser fresh now arg s))" by (rule CreateUser_ok)
  show "CreateUser fresh now arg s = ((u, Some e), s') \<Longrightarrow> s' = s" by (auto dest: CreateUser_Inl)
  show "GetUserByOIDCSubject (cu_oidcSubject arg) s' = (u, None)"
    if "db_ok s" "CreateUser fresh now arg s = ((u, None), s')"
    using CreateUser_ok [OF that(1), of fresh now arg] that(2)
    by (auto simp: db_ok_def GetUserByOIDCSubject_iff CreateUser_Inr)
  show "\<exists>z e. CreateUser fresh now arg s = ((z, Some e), s)"
    if "db_ok s" "GetUserByOIDCSubject (cu_oidcSubject arg) s = (u, None)"
    using that by (intro CreateUser_clash) (force simp: db_ok_def GetUserByOIDCSubject_iff)
qed

section \<open>Properties\<close>

definition sample_db :: db where
  "sample_db = \<lparr>db_users = [zero_user\<lparr>us_id := \<lparr>uu_bytes = ''0123456789abcdef'', uu_valid = True\<rparr>,
        us_email := ''a@x'', us_role := ''user'', us_oidcSubject := ''sub-a''\<rparr>],
     db_defaults = [zero_default]\<rparr>"

definition sample_params :: create_user_params where
  "sample_params = \<lparr>cu_email = ''b@x'', cu_name = ''B'', cu_picture = None, cu_role = ''user'',
     cu_oidcSubject = ''sub-b'', cu_slackUserID = None\<rparr>"

lemma sample_db_ok: "db_ok sample_db"
  by (simp add: sample_db_def db_ok_def users_ok_def)

text \<open>
  Property C35. Every statement keeps the tables consistent: ids, emails and OIDC subjects stay
  unique, ids non-null, and there stays exactly one row of defaults. A statement that reports
  an error has changed nothing.
\<close>

theorem queries_keep_tables:
  assumes "db_ok d"
  shows "db_ok (snd (CreateUser fresh now cu d)) \<and> db_ok (snd (UpdateUser now uu d)) \<and> db_ok (DeleteUser i d)
    \<and> db_ok (snd (UpdateDefaults now ud d))
    \<and> (snd (fst (CreateUser fresh now cu d)) = None \<or> snd (CreateUser fresh now cu d) = d)
    \<and> (snd (fst (UpdateUser now uu d)) = None \<or> snd (UpdateUser now uu d) = d)
    \<and> snd (GetDefaults d) = None \<and> snd (fst (UpdateDefaults now ud d)) = None"
proof (intro conjI)
  from assms obtain r where "db_defaults d = [r]" by (auto simp: db_ok_def length_Suc_conv)
  then show "snd (GetDefaults d) = None" "snd (fst (UpdateDefaults now ud d)) = None"
    by (simp_all add: GetDefaults_def UpdateDefaults_def)
  show "snd (fst (CreateUser fresh now cu d)) = None \<or> snd (CreateUser fresh now cu d) = d"
    by (auto simp: CreateUser_def Let_def split: option.splits)
  show "snd (fst (UpdateUser now uu d)) = None \<or> snd (UpdateUser now uu d) = d"
    by (auto simp: UpdateUser_def Let_def split: option.splits list.splits)
qed (simp_all add: assms CreateUser_ok UpdateUser_ok DeleteUser_ok UpdateDefaults_ok)

lemma queries_keep_tables_witness:
  "db_ok (snd (CreateUser ''fedcba9876543210'' 5 sample_params sample_db))"
  using queries_keep_tables [OF sample_db_ok, of "''fedcba9876543210''" 5 sample_params] by blast

text \<open>
  A created user is found again by email, by OIDC subject and by id, exactly as it
  was given; every other lookup answers as before; creating it again fails.
\<close>

theorem CreateUser_roundtrip:
  assumes "db_ok d" "CreateUser fresh now arg d = ((u, None), d')"
  shows "GetUserByEmail (cu_email arg) d' = (u, None) \<and> GetUserByOIDCSubject (cu_oidcSubject arg) d' = (u, None)
    \<and> GetUserByID (us_id u) d' = (u, None)
    \<and> us_role u = cu_role arg \<and> us_name u = cu_name arg \<and> us_slackUserID u = cu_slackUserID arg
    \<and> (email \<noteq> cu_email arg \<longrightarrow> GetUserByEmail email d' = GetUserByEmail email d)
    \<and> (i \<noteq> us_id u \<longrightarrow> GetUserByID i d' = GetUserByID i d)
    \<and> (\<exists>z e. CreateUser fresh' now' arg d' = ((z, Some e), d'))"
proof (intro conjI impI)
  have d': "db_ok d'" using CreateUser_ok [OF assms(1), of fresh now arg] assms(2) by simp
  show "GetUserByEmail (cu_email arg) d' = (u, None)" using assms by (rule by_email.create_found)
  show "GetUserByOIDCSubject (cu_oidcSubject arg) d' = (u, None)" using assms by (rule by_subject.create_found)
  show "GetUserByID (us_id u) d' = (u, None)"
    using d' CreateUser_member [OF assms(2)] by (simp add: GetUserByID_iff db_ok_def)
  show "\<exists>z e. CreateUser fresh' now' arg d' = ((z, Some e), d')"
    using CreateUser_member [OF assms(2)] assms(2) by (intro CreateUser_clash) (force simp: CreateUser_Inr)
  show "us_role u = cu_role arg" "us_name u = cu_name arg" "us_slackUserID u = cu_slackUserID arg"
    using assms(2) by (auto simp: CreateUser_Inr)
  show "GetUserByEmail email d' = GetUserByEmail email d" if "email \<noteq> cu_email arg"
    using assms(2) that by (auto simp: CreateUser_Inr GetUserByEmail_def)
  show "GetUserByID i d' = GetUserByID i d" if "i \<noteq> us_id u"
    using assms(2) that by (auto simp: CreateUser_Inr GetUserByID_def has_id_def)
qed

lemma CreateUser_roundtrip_witness:
  "\<exists>u d'. CreateUser ''fedcba9876543210'' 5 sample_params sample_db = ((u, None), d')
     \<and> GetUserByOIDCSubject ''sub-b'' d' = (u, None)"
proof -
  obtain u d' where c: "CreateUser ''fedcba9876543210'' 5 sample_params sample_db = ((u, None), d')"
    by (auto simp: CreateUser_Inr sample_db_def sample_params_def unique_violation_def)
  have "GetUserByOIDCSubject (cu_oidcSubject sample_params) d' = (u, None)"
    using CreateUser_roundtrip [OF sample_db_ok c] by blast
  then show ?thesis using c by (auto simp: sample_params_def)
qed

text \<open>
  Updating a user changes that row only: its id and creation time stay, a column
  given as NULL keeps its value, the other columns take the new one, and every other row is as
  before. Listing shows each row once, the newest first.
\<close>

theorem UpdateUser_spec:
  assumes "db_ok d" "UpdateUser now arg d = ((u, None), d')"
  shows "GetUserByID (up_id arg) d' = (u, None)
    \<and> us_id u = up_id arg
    \<and> (\<exists>old. GetUserByID (up_id arg) d = (old, None) \<and> us_createdAt u = us_createdAt old
         \<and> us_email u = coalesce (up_email arg) (us_email old) \<and> us_role u = coalesce (up_role arg) (us_role old)
         \<and> us_oidcSubject u = coalesce (up_oidcSubject arg) (us_oidcSubject old)
         \<and> (up_slackUserID arg = None \<longrightarrow> us_slackUserID u = us_slackUserID old))
    \<and> (i \<noteq> up_id arg \<longrightarrow> GetUserByID i d' = GetUserByID i d)
    \<and> mset (ListUsers d') = mset (db_users d') \<and> sorted (map (\<lambda>v. - us_createdAt v) (ListUsers d'))"
proof -
  have us: "users_ok (db_users d)" and d': "users_ok (db_users d')"
    using assms UpdateUser_ok [OF assms(1), of now arg] by (auto simp: db_ok_def)
  from assms(2) obtain old rest where f: "filter (has_id (up_id arg)) (db_users d) = old # rest"
    and u: "u = updated_user now arg old"
    and eq: "db_users d' = map (\<lambda>v. if has_id (up_id arg) v then updated_user now arg v else v) (db_users d)"
    by (auto simp: UpdateUser_def Let_def split: list.splits option.splits)
  from f have old: "old \<in> set (db_users d)" "has_id (up_id arg) old" by (auto simp: filter_eq_Cons_iff)
  then have id_old: "us_id old = up_id arg" by (simp add: has_id_def)
  have "u \<in> set (db_users d')" using old unfolding eq u by force
  then have 1: "GetUserByID (up_id arg) d' = (u, None)" using d' id_old u by (simp add: GetUserByID_iff)
  have 2: "GetUserByID (up_id arg) d = (old, None)" using us old id_old by (simp add: GetUserByID_iff)
  have 3: "GetUserByID i d' = GetUserByID i d" if "i \<noteq> up_id arg"
  proof -
    have "filter (has_id i) (db_users d') = filter (has_id i) (db_users d)"
      unfolding eq using that by (rule filter_other_id)
    then show ?thesis by (simp add: GetUserByID_def)
  qed
  have 4: "mset (ListUsers d') = mset (db_users d')" "sorted (map (\<lambda>v. - us_createdAt v) (ListUsers d'))"
    by (simp_all add: ListUsers_def)
  show ?thesis using 1 2 3 4 id_old u by (auto simp: updated_user_def)
qed

lemma UpdateUser_spec_witness:
  "\<exists>u d'. UpdateUser 9 \<lparr>up_id = \<lparr>uu_bytes = ''0123456789abcdef'', uu_valid = True\<rparr>, up_email = None, up_name = None,
      up_picture = None, up_role = None, up_oidcSubject = None, up_slackUserID = Some ''U1''\<rparr> sample_db = ((u, None), d')
     \<and> us_email u = ''a@x''" (is "\<exists>u d'. UpdateUser 9 ?arg sample_db = ((u, None), d') \<and> _")
proof -
  obtain u d' where c: "UpdateUser 9 ?arg sample_db = ((u, None), d')"
    by (simp add: UpdateUser_def sample_db_def has_id_def unique_violation_def)
  have "us_email u = ''a@x''"
    using UpdateUser_spec [OF sample_db_ok c]
    by (auto simp: sample_db_def GetUserByID_def has_id_def)
  then show ?thesis using c by auto
qed

end
