(* ===== verification/GoStrings.thy ===== *)
theory GoStrings
  imports Prelude
begin

text \<open>
  The string routines of the Go standard library that the sources call:
  \<^verbatim>\<open>strings\<close> (\<open>HasPrefix\<close>, \<open>TrimPrefix\<close>, \<open>Contains\<close>, \<open>Index\<close>,
  \<open>Join\<close>, \<open>Fields\<close>, \<open>TrimSpace\<close>, \<open>EqualFold\<close>), \<^verbatim>\<open>strconv.ParseInt\<close>,
  \<^verbatim>\<open>encoding/hex\<close> and \<^verbatim>\<open>net/url.QueryEscape\<close>, on byte strings.
\<close>

section \<open>Prefixes, search and joining\<close>

definition hasPrefix :: "string \<Rightarrow> string \<Rightarrow> bool" where
  "hasPrefix s p \<longleftrightarrow> length p \<le> length s \<and> take (length p) s = p"

definition trimPrefix :: "string \<Rightarrow> string \<Rightarrow> string" where
  "trimPrefix s p = (if hasPrefix s p then drop (length p) s else s)"

fun contains :: "string \<Rightarrow> string \<Rightarrow> bool" where
  "contains [] p = (p = [])"
| "contains (c # s) p = (hasPrefix (c # s) p \<or> contains s p)"

fun indexByte :: "string \<Rightarrow> char \<Rightarrow> nat option" where
  "indexByte [] b = None"
| "indexByte (c # s) b = (if c = b then Some 0 else map_option Suc (indexByte s b))"

fun join :: "string \<Rightarrow> string list \<Rightarrow> string" where
  "join sep [] = []"
| "join sep [s] = s"
| "join sep (s # ss) = s @ sep @ join sep ss"

lemma hasPrefix_append: "hasPrefix s p \<longleftrightarrow> (\<exists>t. s = p @ t)"
  by (auto simp: hasPrefix_def) (metis append_take_drop_id)

lemma hasPrefix_self [simp]: "hasPrefix (p @ t) p"
  by (auto simp: hasPrefix_append)

lemma trimPrefix_append [simp]: "trimPrefix (p @ t) p = t"
  by (simp add: trimPrefix_def)

lemma contains_append: "contains s p \<longleftrightarrow> (\<exists>u v. s = u @ p @ v)"
proof (induction s)
  case (Cons c s)
  have "(\<exists>u v. c # s = u @ p @ v) \<longleftrightarrow> (\<exists>v. c # s = p @ v) \<or> (\<exists>u v. s = u @ p @ v)"
    by (metis append_Cons append_Nil neq_Nil_conv list.inject)
  then show ?case by (simp add: Cons.IH hasPrefix_append)
qed simp

lemma indexByte_Some:
  "indexByte s b = Some i \<Longrightarrow> i < length s \<and> s ! i = b \<and> b \<notin> set (take i s)"
  by (induction s arbitrary: i) (auto split: if_splits)

section \<open>White space\<close>

text \<open>
  The encodings of the code points for which \<^verbatim>\<open>unicode.IsSpace\<close> holds. No byte of a
  valid UTF-8 sequence other than its first is the first byte of one of these, so looking
  for them byte by byte finds the same runes as decoding does.
\<close>

definition unicode_spaces :: "string list" where
  "unicode_spaces =
     [[CHR 0x09], [CHR 0x0A], [CHR 0x0B], [CHR 0x0C], [CHR 0x0D], [CHR 0x20],
      [CHR 0xC2, CHR 0x85], [CHR 0xC2, CHR 0xA0], [CHR 0xE1, CHR 0x9A, CHR 0x80]]
     @ map (\<lambda>n. [CHR 0xE2, CHR 0x80, char_of n]) [0x80..<0x8B]
     @ [[CHR 0xE2, CHR 0x80, CHR 0xA8], [CHR 0xE2, CHR 0x80, CHR 0xA9],
        [CHR 0xE2, CHR 0x80, CHR 0xAF], [CHR 0xE2, CHR 0x81, CHR 0x9F],
        [CHR 0xE3, CHR 0x80, CHR 0x80]]"

definition space_len :: "string \<Rightarrow> nat" where
  "space_len s = (case find (hasPrefix s) unicode_spaces of None \<Rightarrow> 0 | Some p \<Rightarrow> length p)"

text \<open>\<^verbatim>\<open>strings.Fields\<close>: \<open>skip\<close> counts the bytes left of the space rune being passed,
  \<open>cur\<close> is the field read so far, reversed.\<close>

fun fields_from :: "nat \<Rightarrow> string \<Rightarrow> string \<Rightarrow> string list" where
  "fields_from skip cur [] = (if cur = [] then [] else [rev cur])"
| "fields_from (Suc skip) cur (c # s) = fields_from skip cur s"
| "fields_from 0 cur (c # s) =
     (let n = space_len (c # s) in
      if n = 0 then fields_from 0 (c # cur) s
      else if cur = [] then fields_from (n - 1) [] s
      else rev cur # fields_from (n - 1) [] s)"

definition fields :: "string \<Rightarrow> string list" where
  "fields s = fields_from 0 [] s"

fun trim_left_from :: "nat \<Rightarrow> string \<Rightarrow> string" where
  "trim_left_from skip [] = []"
| "trim_left_from (Suc skip) (c # s) = trim_left_from skip s"
| "trim_left_from 0 (c # s) =
     (let n = space_len (c # s) in if n = 0 then c # s else trim_left_from (n - 1) s)"

definition space_len_back :: "string \<Rightarrow> nat" where
  "space_len_back r =
     (case find (\<lambda>p. hasPrefix r (rev p)) unicode_spaces of None \<Rightarrow> 0 | Some p \<Rightarrow> length p)"

fun trim_back_from :: "nat \<Rightarrow> string \<Rightarrow> string" where
  "trim_back_from skip [] = []"
| "trim_back_from (Suc skip) (c # s) = trim_back_from skip s"
| "trim_back_from 0 (c # s) =
     (let n = space_len_back (c # s) in if n = 0 then c # s else trim_back_from (n - 1) s)"

definition trimSpace :: "string \<Rightarrow> string" where
  "trimSpace s = rev (trim_back_from 0 (rev (trim_left_from 0 s)))"

lemma fields_from_nonempty: "f \<in> set (fields_from n cur s) \<Longrightarrow> f \<noteq> []"
  by (induction n cur s rule: fields_from.induct) (auto simp: Let_def split: if_splits)

lemma fields_nonempty: "f \<in> set (fields s) \<Longrightarrow> f \<noteq> []"
  by (simp add: fields_def fields_from_nonempty)

section \<open>Case folding\<close>

text \<open>
  \<^verbatim>\<open>strings.EqualFold\<close> against an ASCII word: letters match in either case, and the two
  non-ASCII runes whose simple folding is an ASCII letter, U+017F (long s) and
  U+212A (Kelvin sign), match \<open>s\<close> and \<open>k\<close>.
\<close>

definition lower_char :: "char \<Rightarrow> char" where
  "lower_char c = (if is_upper c then char_of (byte c + 32) else c)"

definition upper_char :: "char \<Rightarrow> char" where
  "upper_char c = (if is_lower c then char_of (byte c - 32) else c)"

fun fold_case :: "string \<Rightarrow> string" where
  "fold_case [] = []"
| "fold_case (a # b # c # s) =
     (if [a, b, c] = [CHR 0xE2, CHR 0x84, CHR 0xAA] then CHR ''k'' # fold_case s
      else if [a, b] = [CHR 0xC5, CHR 0xBF] then CHR ''s'' # fold_case (c # s)
      else lower_char a # fold_case (b # c # s))"
| "fold_case (a # b # []) =
     (if [a, b] = [CHR 0xC5, CHR 0xBF] then ''s'' else [lower_char a, lower_char b])"
| "fold_case [a] = [lower_char a]"

definition equalFold :: "string \<Rightarrow> string \<Rightarrow> bool" where
  "equalFold s t \<longleftrightarrow> fold_case s = fold_case t"

section \<open>Integers and hexadecimal\<close>

text \<open>
  \<^verbatim>\<open>strconv.ParseInt(s, 10, 64)\<close> (and \<^verbatim>\<open>strconv.Atoi\<close>, whose \<^verbatim>\<open>int\<close> has 64 bits):
  an optional sign, at least one digit, nothing else, and a value that fits.
\<close>

definition parse_int64 :: "string \<Rightarrow> int option" where
  "parse_int64 s =
     (let neg = (s \<noteq> [] \<and> hd s = CHR ''-'');
          body = (if s \<noteq> [] \<and> hd s \<in> {CHR ''-'', CHR ''+''} then tl s else s)
      in if body = [] \<or> \<not> list_all is_digit body then None
         else let v = (if neg then - int (read_nat body) else int (read_nat body))
              in if - (2 ^ 63) \<le> v \<and> v < 2 ^ 63 then Some v else None)"

lemma parse_int64_range: "parse_int64 s = Some v \<Longrightarrow> - (2 ^ 63) \<le> v \<and> v < 2 ^ 63"
  by (auto simp: parse_int64_def Let_def split: if_splits)

definition hexdig :: "nat \<Rightarrow> char" where
  "hexdig n = (if n < 10 then char_of (48 + n) else char_of (87 + n))"

definition hexdig_upper :: "nat \<Rightarrow> char" where
  "hexdig_upper n = (if n < 10 then char_of (48 + n) else char_of (55 + n))"

definition hexval :: "char \<Rightarrow> nat option" where
  "hexval c = (if is_digit c then Some (byte c - 48)
               else if CHR ''a'' \<le> c \<and> c \<le> CHR ''f'' then Some (byte c - 87)
               else if CHR ''A'' \<le> c \<and> c \<le> CHR ''F'' then Some (byte c - 55)
               else None)"

lemma hexval_hexdig [simp]: "n < 16 \<Longrightarrow> hexval (hexdig n) = Some n"
  by (auto simp: hexval_def hexdig_def is_digit_def less_eq_char_def)

lemma hexval_hexdig_upper [simp]: "n < 16 \<Longrightarrow> hexval (hexdig_upper n) = Some n"
  by (auto simp: hexval_def hexdig_upper_def is_digit_def less_eq_char_def)

definition hex_encode :: "string \<Rightarrow> string" where
  "hex_encode s = concat (map (\<lambda>c. [hexdig (byte c div 16), hexdig (byte c mod 16)]) s)"

lemma length_hex_encode [simp]: "length (hex_encode s) = 2 * length s"
  by (induction s) (auto simp: hex_encode_def)

section \<open>Query escaping\<close>

definition unreserved :: "char \<Rightarrow> bool" where
  "unreserved c \<longleftrightarrow> is_upper c \<or> is_lower c \<or> is_digit c \<or> c \<in> set ''-_.~''"

definition escape_byte :: "char \<Rightarrow> string" where
  "escape_byte c = (if unreserved c then [c]
                    else if c = CHR '' '' then ''+''
                    else [CHR ''%'', hexdig_upper (byte c div 16), hexdig_upper (byte c mod 16)])"

definition queryEscape :: "string \<Rightarrow> string" where
  "queryEscape s = concat (map escape_byte s)"

text \<open>The decoder a server applies to a query value; \<open>None\<close> for a malformed escape.\<close>

fun queryUnescape :: "string \<Rightarrow> string option" where
  "queryUnescape [] = Some []"
| "queryUnescape (c # s) =
     (if c = CHR ''%''
      then (case s of a # b # r \<Rightarrow>
              (case (hexval a, hexval b) of
                 (Some x, Some y) \<Rightarrow> map_option ((#) (char_of (16 * x + y))) (queryUnescape r)
               | _ \<Rightarrow> None)
            | _ \<Rightarrow> None)
      else map_option ((#) (if c = CHR ''+'' then CHR '' '' else c)) (queryUnescape s))"

lemma code_lt_256 [simp]: "byte c < 256"
  by (simp add: of_char_def)

lemma char_of_code_split [simp]: "char_of (16 * (byte c div 16) + byte c mod 16) = c"
  by (metis char_of_char mult_div_mod_eq)

lemma unreserved_plain: "unreserved c \<Longrightarrow> c \<noteq> CHR ''%'' \<and> c \<noteq> CHR ''+'' \<and> c \<noteq> CHR ''&''
    \<and> c \<noteq> CHR ''='' \<and> c \<noteq> CHR ''#''"
  by (auto simp: unreserved_def is_upper_def is_lower_def is_digit_def)

lemma queryUnescape_byte: "queryUnescape (escape_byte c @ s) = map_option ((#) c) (queryUnescape s)"
proof (cases "unreserved c")
  case True
  then show ?thesis using unreserved_plain [OF True] by (simp add: escape_byte_def)
next
  case False
  have "byte c div 16 < 16" using code_lt_256 [of c] by (simp add: less_mult_imp_div_less)
  with False show ?thesis by (simp add: escape_byte_def)
qed

lemma queryUnescape_queryEscape [simp]: "queryUnescape (queryEscape s) = Some s"
  by (induction s) (auto simp: queryEscape_def queryUnescape_byte)

end
