(* ===== verification/Types.thy ===== *)
theory Types
  imports GoStrings
begin

text \<open>
  \<^verbatim>\<open>api/v1alpha1/types.go\<close>: the \<^verbatim>\<open>ClawInstance\<close> resource, with the part of
  \<^verbatim>\<open>metav1.ObjectMeta\<close> and \<^verbatim>\<open>metav1.Condition\<close> the code reads or writes. A map of labels is
  a list of bindings sorted by key. Phases are strings, as in Go.
\<close>

type_synonym labels = "(string \<times> string) list"

record object_meta =
  om_name :: string
  om_namespace :: string
  om_labels :: labels
  om_generation :: "64 word"
  om_created :: "int option"
  om_deleted :: "int option"
  om_finalizers :: "string list"
  om_version :: string

definition PhasePending :: string where "PhasePending = ''Pending''"
definition PhaseCreating :: string where "PhaseCreating = ''Creating''"
definition PhaseStarting :: string where "PhaseStarting = ''Starting''"
definition PhaseRunning :: string where "PhaseRunning = ''Running''"
definition PhaseFailed :: string where "PhaseFailed = ''Failed''"
definition PhaseTerminating :: string where "PhaseTerminating = ''Terminating''"

lemmas phase_defs = PhasePending_def PhaseCreating_def PhaseStarting_def PhaseRunning_def
  PhaseFailed_def PhaseTerminating_def

record resource_list =
  rl_cpu :: string
  rl_memory :: string

record claw_resources =
  cr_requests :: resource_list
  cr_limits :: resource_list

record claw_storage =
  cs_size :: string
  cs_storageClass :: string

record claw_spec =
  sp_userId :: string
  sp_image :: string
  sp_gatewayToken :: string
  sp_gatewayConfig :: string
  sp_configGeneration :: "64 word"
  sp_resources :: claw_resources
  sp_storage :: claw_storage

record condition =
  cn_type :: string
  cn_status :: string
  cn_reason :: string
  cn_message :: string
  cn_observedGeneration :: "64 word"
  cn_lastTransition :: int

record claw_status =
  st_phase :: string
  st_namespace :: string
  st_conditions :: "condition list"

record claw_instance =
  ci_meta :: object_meta
  ci_spec :: claw_spec
  ci_status :: claw_status

text \<open>The zero values of Go.\<close>

definition empty_meta :: object_meta where
  "empty_meta = \<lparr>om_name = [], om_namespace = [], om_labels = [], om_generation = 0, om_created = None,
     om_deleted = None, om_finalizers = [], om_version = []\<rparr>"

definition named_meta :: "string \<Rightarrow> string \<Rightarrow> object_meta" where
  "named_meta namespace name = empty_meta\<lparr>om_name := name, om_namespace := namespace\<rparr>"

definition empty_status :: claw_status where
  "empty_status = \<lparr>st_phase = [], st_namespace = [], st_conditions = []\<rparr>"

abbreviation instance_name :: "claw_instance \<Rightarrow> string" where
  "instance_name i \<equiv> om_name (ci_meta i)"

definition set_phase :: "string \<Rightarrow> claw_instance \<Rightarrow> claw_instance" where
  "set_phase p i = i\<lparr>ci_status := (ci_status i)\<lparr>st_phase := p\<rparr>\<rparr>"

abbreviation phase :: "claw_instance \<Rightarrow> string" where
  "phase i \<equiv> st_phase (ci_status i)"

lemma set_phase_simps [simp]:
  "phase (set_phase p i) = p" "ci_meta (set_phase p i) = ci_meta i" "ci_spec (set_phase p i) = ci_spec i"
  "st_conditions (ci_status (set_phase p i)) = st_conditions (ci_status i)"
  by (simp_all add: set_phase_def)

text \<open>\<^verbatim>\<open>metav1.LabelSelector\<close> with \<^verbatim>\<open>MatchLabels\<close> only: every listed label must be there.\<close>

definition selects :: "labels \<Rightarrow> labels \<Rightarrow> bool" where
  "selects selector labels \<longleftrightarrow> (\<forall>(k, v) \<in> set selector. map_of labels k = Some v)"

end
