(* ===== verification/OperatorObjects.thy ===== *)
theory OperatorObjects
  imports Types GoError
begin

text \<open>
  \<^verbatim>\<open>internal/operator/controller.go\<close>, the objects: what the reconciler writes into the
  namespace, the volume claim, the deployment, the service and the network policy of an
  instance. Each \<open>..._mutate\<close> is the function the code passes to
  \<^verbatim>\<open>controllerutil.CreateOrUpdate\<close>. A Kubernetes quantity is represented by the text it was
  parsed from; which texts are quantities is the parameter \<open>quantity_ok\<close> (package
  \<^verbatim>\<open>resource\<close>), and \<^verbatim>\<open>resource.MustParse\<close> panics on the others.
\<close>

section \<open>Kubernetes objects\<close>

record kube_namespace =
  ns_meta :: object_meta

record pvc_spec =
  ps_accessModes :: "string list"
  ps_requests :: labels
  ps_storageClass :: "string option"

record kube_pvc =
  pvc_meta :: object_meta
  pvc_spec :: pvc_spec

record volume_mount =
  vm_name :: string
  vm_path :: string
  vm_subPath :: string

datatype volume_source = ClaimSource string | EmptyDir

record volume =
  vo_name :: string
  vo_source :: volume_source

record container_port =
  cp_name :: string
  cp_port :: "32 word"
  cp_protocol :: string

record probe =
  pr_path :: string
  pr_port :: "32 word"
  pr_initialDelay :: int
  pr_period :: int

record resource_requirements =
  rr_requests :: "labels option"
  rr_limits :: "labels option"

record container =
  co_name :: string
  co_image :: string
  co_command :: "string list"
  co_ports :: "container_port list"
  co_env :: "(string \<times> string) list"
  co_probe :: "probe option"
  co_resources :: resource_requirements
  co_mounts :: "volume_mount list"

record pod_spec =
  po_fsGroup :: "int option"
  po_enableServiceLinks :: "bool option"
  po_initContainers :: "container list"
  po_containers :: "container list"
  po_volumes :: "volume list"

record deployment_spec =
  ds_replicas :: "int option"
  ds_selector :: labels
  ds_templateLabels :: labels
  ds_pod :: pod_spec

record kube_deployment =
  de_meta :: object_meta
  de_spec :: deployment_spec
  de_readyReplicas :: int

record service_port =
  se_name :: string
  se_port :: "32 word"
  se_targetPort :: string
  se_protocol :: string

record service_spec =
  ss_selector :: labels
  ss_ports :: "service_port list"

record kube_service =
  sv_meta :: object_meta
  sv_spec :: service_spec

text \<open>A peer of an ingress rule: a namespace selector and a pod selector, either of which may be
  missing.\<close>

record netpol_peer =
  pe_namespaces :: "labels option"
  pe_pods :: "labels option"

record netpol_spec =
  np_podSelector :: labels
  np_policyTypes :: "string list"
  np_ingress :: "netpol_peer list list"

record kube_netpol =
  np_meta :: object_meta
  np_spec :: netpol_spec

section \<open>The reconciler's configuration\<close>

record reconciler =
  r_serverNamespace :: string
  r_defaultGatewayConfig :: string
  r_ttydImage :: string
  r_tuiEnabled :: bool
  r_tuiPort :: "32 word"
  r_tuiCommand :: string
  r_shellEnabled :: bool
  r_shellPort :: "32 word"
  r_shellCommand :: string

definition finalizerName :: string where
  "finalizerName = ''clawbake.io/finalizer''"

definition MustParse :: "(string \<Rightarrow> bool) \<Rightarrow> string \<Rightarrow> string outcome" where
  "MustParse quantity_ok s =
     (if quantity_ok s then Returned s else Panicked (''cannot parse '' @ s))"

section \<open>Namespace and volume claim\<close>

definition namespace_mutate :: "claw_instance \<Rightarrow> kube_namespace \<Rightarrow> kube_namespace outcome" where
  "namespace_mutate i ns =
     (let m = ns_meta ns;
          l = put ''clawbake.io/instance'' (instance_name i) (om_labels m);
          l = put ''clawbake.io/user-id'' (sp_userId (ci_spec i)) l
      in Returned (ns\<lparr>ns_meta := m\<lparr>om_labels := l\<rparr>\<rparr>))"

definition pvc_mutate :: "(string \<Rightarrow> bool) \<Rightarrow> claw_instance \<Rightarrow> kube_pvc \<Rightarrow> kube_pvc outcome" where
  "pvc_mutate quantity_ok i pvc =
     (if om_created (pvc_meta pvc) = None
      then let storage = sp_storage (ci_spec i);
               size = (if cs_size storage = [] then ''5Gi'' else cs_size storage)
           in (case MustParse quantity_ok size of
                 Returned q \<Rightarrow>
                   Returned (pvc\<lparr>
                     pvc_meta := (pvc_meta pvc)\<lparr>om_labels := [(''clawbake.io/instance'', instance_name i)]\<rparr>,
                     pvc_spec := \<lparr>ps_accessModes = [''ReadWriteOnce''],
                                  ps_requests = [(''storage'', q)],
                                  ps_storageClass = (if cs_storageClass storage \<noteq> []
                                                     then Some (cs_storageClass storage) else None)\<rparr>\<rparr>)
               | Failed e \<Rightarrow> Failed e
               | Panicked p \<Rightarrow> Panicked p)
      else Returned pvc)"

section \<open>Deployment\<close>

definition ttydNeeded :: "reconciler \<Rightarrow> bool" where
  "ttydNeeded r \<longleftrightarrow> r_tuiEnabled r \<or> r_shellEnabled r"

definition newline :: string where
  "newline = [CHR 0x0A]"

definition restart_loop :: string where
  "restart_loop =
     ''while true; do'' @ newline
     @ ''  node /app/openclaw.mjs gateway run --bind lan --allow-unconfigured'' @ newline
     @ ''  echo '' @ [CHR 0x22] @ ''openclaw exited ($?), restarting in 5s...'' @ [CHR 0x22] @ newline
     @ ''  sleep 5'' @ newline
     @ ''done''"

definition buildCommand :: "reconciler \<Rightarrow> string list" where
  "buildCommand r =
     (if \<not> ttydNeeded r
      then [''node'', ''/app/openclaw.mjs'', ''gateway'', ''run'', ''--bind'', ''lan'', ''--allow-unconfigured'']
      else let parts = [];
               parts = (if r_tuiEnabled r then parts @ [r_tuiCommand r @ '' &''] else parts);
               parts = (if r_shellEnabled r
                        then parts @ [r_shellCommand r @ '' &''] @ [restart_loop]
                        else parts @ [''exec node /app/openclaw.mjs gateway run --bind lan --allow-unconfigured''])
           in [''sh'', ''-c'', join newline parts])"

definition config_path :: string where
  "config_path = ''/home/node/.openclaw/openclaw.json''"

definition gen_path :: string where
  "gen_path = ''/home/node/.openclaw/.config-gen''"

text \<open>\<^verbatim>\<open>echo '%s' > f\<close> and \<^verbatim>\<open>echo "%s" > f\<close>, the two commands the script is made of.\<close>

definition echo_single :: "string \<Rightarrow> string \<Rightarrow> string" where
  "echo_single s f = ''echo '' @ [CHR 0x27] @ s @ [CHR 0x27] @ '' > '' @ f"

definition echo_double :: "string \<Rightarrow> string \<Rightarrow> string" where
  "echo_double s f = ''echo '' @ [CHR 0x22] @ s @ [CHR 0x22] @ '' > '' @ f"

definition write_config_script :: "string \<Rightarrow> string \<Rightarrow> string" where
  "write_config_script gatewayConfig configGen =
     ''if [ ! -f '' @ config_path @ '' ]; then'' @ newline
     @ ''  '' @ echo_single gatewayConfig config_path @ newline
     @ ''  '' @ echo_double configGen gen_path @ newline
     @ ''else'' @ newline
     @ ''  current=$(cat '' @ gen_path @ '' 2>/dev/null || echo -1)'' @ newline
     @ ''  if [ '' @ [CHR 0x22] @ ''$current'' @ [CHR 0x22] @ '' != '' @ [CHR 0x22] @ configGen @ [CHR 0x22] @ '' ]; then'' @ newline
     @ ''    '' @ echo_single gatewayConfig config_path @ newline
     @ ''    '' @ echo_double configGen gen_path @ newline
     @ ''  fi'' @ newline
     @ ''fi''"

definition no_resources :: resource_requirements where
  "no_resources = \<lparr>rr_requests = None, rr_limits = None\<rparr>"

definition simple_container :: "string \<Rightarrow> string \<Rightarrow> string list \<Rightarrow> volume_mount list \<Rightarrow> container" where
  "simple_container name img command mounts =
     \<lparr>co_name = name, co_image = img, co_command = command, co_ports = [], co_env = [],
      co_probe = None, co_resources = no_resources, co_mounts = mounts\<rparr>"

definition mount :: "string \<Rightarrow> string \<Rightarrow> string \<Rightarrow> volume_mount" where
  "mount name path subPath = \<lparr>vm_name = name, vm_path = path, vm_subPath = subPath\<rparr>"

definition data_volume :: volume where
  "data_volume = \<lparr>vo_name = ''data'', vo_source = ClaimSource ''openclaw-data''\<rparr>"

definition ttyd_volume :: volume where
  "ttyd_volume = \<lparr>vo_name = ''ttyd-bin'', vo_source = EmptyDir\<rparr>"

definition gatewayConfig_of :: "reconciler \<Rightarrow> claw_instance \<Rightarrow> string" where
  "gatewayConfig_of r i =
     (if sp_gatewayConfig (ci_spec i) = [] then r_defaultGatewayConfig r else sp_gatewayConfig (ci_spec i))"

definition volumes_of :: "reconciler \<Rightarrow> volume list" where
  "volumes_of r = (let volumes = [data_volume] in if ttydNeeded r then volumes @ [ttyd_volume] else volumes)"

definition mounts_of :: "reconciler \<Rightarrow> volume_mount list" where
  "mounts_of r =
     (let volumeMounts = [mount ''data'' ''/data'' [], mount ''data'' ''/home/node/.openclaw'' ''openclaw-config'']
      in if ttydNeeded r then volumeMounts @ [mount ''ttyd-bin'' ''/ttyd-bin'' []] else volumeMounts)"

definition initContainers_of :: "reconciler \<Rightarrow> claw_instance \<Rightarrow> container list" where
  "initContainers_of r i =
     (let configGen = show_int (sint (sp_configGeneration (ci_spec i)));
          initContainers =
            [simple_container ''write-config'' (sp_image (ci_spec i))
               [''sh'', ''-c'', write_config_script (gatewayConfig_of r i) configGen]
               [mount ''data'' ''/home/node/.openclaw'' ''openclaw-config'']]
      in if ttydNeeded r
         then initContainers @
           [simple_container ''install-ttyd'' (r_ttydImage r) [''cp'', ''/usr/bin/ttyd'', ''/ttyd-bin/ttyd'']
              [mount ''ttyd-bin'' ''/ttyd-bin'' []]]
         else initContainers)"

definition tcp_port :: "string \<Rightarrow> 32 word \<Rightarrow> container_port" where
  "tcp_port name p = \<lparr>cp_name = name, cp_port = p, cp_protocol = ''TCP''\<rparr>"

definition containerPorts_of :: "reconciler \<Rightarrow> container_port list" where
  "containerPorts_of r =
     (let ports = [tcp_port ''http'' 18789];
          ports = (if r_tuiEnabled r then ports @ [tcp_port ''tui'' (r_tuiPort r)] else ports);
          ports = (if r_shellEnabled r then ports @ [tcp_port ''shell'' (r_shellPort r)] else ports)
      in ports)"

text \<open>\<^verbatim>\<open>buildResourceRequirements\<close>: the quantities in the order they are parsed.\<close>

definition parse_list :: "(string \<Rightarrow> bool) \<Rightarrow> resource_list \<Rightarrow> labels option outcome" where
  "parse_list quantity_ok l =
     (if rl_cpu l = [] \<and> rl_memory l = [] then Returned None
      else (case (if rl_cpu l \<noteq> [] then MustParse quantity_ok (rl_cpu l) else Returned []) of
              Failed e \<Rightarrow> Failed e | Panicked p \<Rightarrow> Panicked p
            | Returned cpu \<Rightarrow>
           (case (if rl_memory l \<noteq> [] then MustParse quantity_ok (rl_memory l) else Returned []) of
              Failed e \<Rightarrow> Failed e | Panicked p \<Rightarrow> Panicked p
            | Returned memory \<Rightarrow>
                Returned (Some ((if rl_cpu l \<noteq> [] then [(''cpu'', cpu)] else [])
                  @ (if rl_memory l \<noteq> [] then [(''memory'', memory)] else []))))))"

definition buildResourceRequirements :: "(string \<Rightarrow> bool) \<Rightarrow> claw_resources \<Rightarrow> resource_requirements outcome" where
  "buildResourceRequirements quantity_ok res =
     (case parse_list quantity_ok (cr_requests res) of
        Failed e \<Rightarrow> Failed e | Panicked p \<Rightarrow> Panicked p
      | Returned requests \<Rightarrow>
     (case parse_list quantity_ok (cr_limits res) of
        Failed e \<Rightarrow> Failed e | Panicked p \<Rightarrow> Panicked p
      | Returned limits \<Rightarrow> Returned \<lparr>rr_requests = requests, rr_limits = limits\<rparr>))"

definition openclaw_container :: "reconciler \<Rightarrow> claw_instance \<Rightarrow> resource_requirements \<Rightarrow> container" where
  "openclaw_container r i resources =
     \<lparr>co_name = ''openclaw'', co_image = sp_image (ci_spec i), co_command = buildCommand r,
      co_ports = containerPorts_of r,
      co_env = [(''NODE_OPTIONS'', ''--max-old-space-size=1536 --disable-warning=ExperimentalWarning''),
                (''OPENCLAW_NODE_OPTIONS_READY'', ''1''),
                (''OPENCLAW_GATEWAY_TOKEN'', sp_gatewayToken (ci_spec i))],
      co_probe = Some \<lparr>pr_path = ''/__openclaw/control-ui-config.json'', pr_port = 18789,
                       pr_initialDelay = 5, pr_period = 5\<rparr>,
      co_resources = resources,
      co_mounts = mounts_of r\<rparr>"

definition deployment_mutate ::
  "(string \<Rightarrow> bool) \<Rightarrow> reconciler \<Rightarrow> claw_instance \<Rightarrow> kube_deployment \<Rightarrow> kube_deployment outcome" where
  "deployment_mutate quantity_ok r i deploy =
     (let labels = [(''app'', ''openclaw''), (''clawbake.io/instance'', instance_name i)]
      in case buildResourceRequirements quantity_ok (sp_resources (ci_spec i)) of
           Failed e \<Rightarrow> Failed e | Panicked p \<Rightarrow> Panicked p
         | Returned resources \<Rightarrow>
             Returned (deploy\<lparr>
               de_meta := (de_meta deploy)\<lparr>om_labels := labels\<rparr>,
               de_spec := \<lparr>ds_replicas = Some 1,
                           ds_selector = [(''app'', ''openclaw'')],
                           ds_templateLabels = labels,
                           ds_pod = \<lparr>po_fsGroup = Some 1000,
                                     po_enableServiceLinks = Some False,
                                     po_initContainers = initContainers_of r i,
                                     po_containers = [openclaw_container r i resources],
                                     po_volumes = volumes_of r\<rparr>\<rparr>\<rparr>))"

section \<open>Service and network policy\<close>

definition tcp_service_port :: "string \<Rightarrow> 32 word \<Rightarrow> service_port" where
  "tcp_service_port name p = \<lparr>se_name = name, se_port = p, se_targetPort = name, se_protocol = ''TCP''\<rparr>"

definition service_mutate :: "reconciler \<Rightarrow> claw_instance \<Rightarrow> kube_service \<Rightarrow> kube_service outcome" where
  "service_mutate r i svc =
     (let ports = [tcp_service_port ''http'' 18789];
          ports = (if r_tuiEnabled r then ports @ [tcp_service_port ''tui'' (r_tuiPort r)] else ports);
          ports = (if r_shellEnabled r then ports @ [tcp_service_port ''shell'' (r_shellPort r)] else ports)
      in Returned (svc\<lparr>
           sv_meta := (sv_meta svc)\<lparr>om_labels := [(''clawbake.io/instance'', instance_name i)]\<rparr>,
           sv_spec := \<lparr>ss_selector = [(''app'', ''openclaw'')], ss_ports = ports\<rparr>\<rparr>))"

definition netpol_mutate :: "reconciler \<Rightarrow> claw_instance \<Rightarrow> kube_netpol \<Rightarrow> kube_netpol outcome" where
  "netpol_mutate r i np =
     Returned (np\<lparr>
       np_meta := (np_meta np)\<lparr>om_labels := [(''clawbake.io/instance'', instance_name i)]\<rparr>,
       np_spec := \<lparr>np_podSelector = [],
                   np_policyTypes = [''Ingress''],
                   np_ingress =
                     [[\<lparr>pe_namespaces = Some [(''kubernetes.io/metadata.name'', r_serverNamespace r)],
                        pe_pods = Some [(''app.kubernetes.io/component'', ''server''),
                                        (''app.kubernetes.io/name'', ''clawbake'')]\<rparr>]]\<rparr>\<rparr>)"

section \<open>What the objects promise\<close>

lemmas object_defs = namespace_mutate_def pvc_mutate_def deployment_mutate_def service_mutate_def netpol_mutate_def

lemma service_mutate_ports:
  "service_mutate r i svc = Returned svc' \<longleftrightarrow> svc' =
     svc\<lparr>sv_meta := (sv_meta svc)\<lparr>om_labels := [(''clawbake.io/instance'', instance_name i)]\<rparr>,
         sv_spec := \<lparr>ss_selector = [(''app'', ''openclaw'')],
           ss_ports = map (\<lambda>p. tcp_service_port (cp_name p) (cp_port p)) (containerPorts_of r)\<rparr>\<rparr>"
  by (auto simp: service_mutate_def containerPorts_of_def Let_def tcp_port_def)

lemma deployment_mutate_Returned:
  assumes "deployment_mutate quantity_ok r i d = Returned d'"
  obtains resources where "buildResourceRequirements quantity_ok (sp_resources (ci_spec i)) = Returned resources"
    "ds_pod (de_spec d') = \<lparr>po_fsGroup = Some 1000, po_enableServiceLinks = Some False,
       po_initContainers = initContainers_of r i, po_containers = [openclaw_container r i resources],
       po_volumes = volumes_of r\<rparr>"
    "ds_templateLabels (de_spec d') = [(''app'', ''openclaw''), (''clawbake.io/instance'', instance_name i)]"
    "ds_selector (de_spec d') = [(''app'', ''openclaw'')]" "ds_replicas (de_spec d') = Some 1"
    "om_labels (de_meta d') = [(''app'', ''openclaw''), (''clawbake.io/instance'', instance_name i)]"
proof (cases "buildResourceRequirements quantity_ok (sp_resources (ci_spec i))")
  case (Returned resources)
  with assms show thesis by (intro that [of resources]) (auto simp: deployment_mutate_def Let_def)
qed (use assms in \<open>simp_all add: deployment_mutate_def Let_def\<close>)

text \<open>Property C37. The service and the deployment of an instance fit together: the service selects the
  pods the deployment makes, the deployment selects its own pods, and every service port is a
  port of the same number that the openclaw container declares under the name the service
  targets.\<close>

theorem service_matches_deployment:
  assumes "deployment_mutate quantity_ok r i d = Returned d'" "service_mutate r i svc = Returned svc'"
  shows "selects (ss_selector (sv_spec svc')) (ds_templateLabels (de_spec d'))
    \<and> selects (ds_selector (de_spec d')) (ds_templateLabels (de_spec d'))
    \<and> (\<forall>p \<in> set (ss_ports (sv_spec svc')). \<exists>c \<in> set (po_containers (ds_pod (de_spec d'))).
         co_name c = ''openclaw'' \<and> (\<exists>q \<in> set (co_ports c). cp_name q = se_targetPort p \<and> cp_port q = se_port p
           \<and> cp_protocol q = se_protocol p))"
proof -
  obtain resources where d: "ds_pod (de_spec d') = \<lparr>po_fsGroup = Some 1000, po_enableServiceLinks = Some False,
       po_initContainers = initContainers_of r i, po_containers = [openclaw_container r i resources],
       po_volumes = volumes_of r\<rparr>"
    "ds_templateLabels (de_spec d') = [(''app'', ''openclaw''), (''clawbake.io/instance'', instance_name i)]"
    "ds_selector (de_spec d') = [(''app'', ''openclaw'')]"
    by (rule deployment_mutate_Returned [OF assms(1)]) blast
  have "\<exists>q \<in> set (containerPorts_of r). cp_name q = se_targetPort p \<and> cp_port q = se_port p
      \<and> cp_protocol q = se_protocol p" if "p \<in> set (ss_ports (sv_spec svc'))" for p
    using that assms(2)
    by (auto simp: service_mutate_ports tcp_service_port_def containerPorts_of_def tcp_port_def Let_def)
  moreover have "ss_selector (sv_spec svc') = [(''app'', ''openclaw'')]"
    using assms(2) by (simp add: service_mutate_ports)
  ultimately show ?thesis
    by (simp add: d selects_def openclaw_container_def)
qed

text \<open>Property C38. The pod is well formed: container names, volume names and port names are distinct,
  every mount of every container names a volume of the pod, and the config the init container
  writes is on the volume the openclaw container reads it from.\<close>

theorem pod_well_formed:
  assumes "deployment_mutate quantity_ok r i d = Returned d'"
  shows "distinct (map co_name (po_initContainers (ds_pod (de_spec d')) @ po_containers (ds_pod (de_spec d'))))
    \<and> distinct (map vo_name (po_volumes (ds_pod (de_spec d'))))
    \<and> (\<forall>c \<in> set (po_initContainers (ds_pod (de_spec d')) @ po_containers (ds_pod (de_spec d'))).
         distinct (map cp_name (co_ports c))
         \<and> (\<forall>m \<in> set (co_mounts c). vm_name m \<in> set (map vo_name (po_volumes (ds_pod (de_spec d'))))))
    \<and> (\<exists>m. m \<in> set (co_mounts (hd (po_initContainers (ds_pod (de_spec d')))))
         \<and> m \<in> set (co_mounts (hd (po_containers (ds_pod (de_spec d')))))
         \<and> vm_path m = ''/home/node/.openclaw'')"
proof -
  obtain resources where d: "ds_pod (de_spec d') = \<lparr>po_fsGroup = Some 1000, po_enableServiceLinks = Some False,
       po_initContainers = initContainers_of r i, po_containers = [openclaw_container r i resources],
       po_volumes = volumes_of r\<rparr>"
    by (rule deployment_mutate_Returned [OF assms]) blast
  show ?thesis
    by (auto simp: d initContainers_of_def volumes_of_def openclaw_container_def simple_container_def
        mounts_of_def mount_def data_volume_def ttyd_volume_def containerPorts_of_def tcp_port_def Let_def)
qed

text \<open>An instance and a reconciler, and the objects as they are before they exist in the cluster.\<close>

definition sample_resources :: claw_resources where
  "sample_resources = \<lparr>cr_requests = \<lparr>rl_cpu = ''500m'', rl_memory = ''1Gi''\<rparr>,
     cr_limits = \<lparr>rl_cpu = ''2'', rl_memory = ''2Gi''\<rparr>\<rparr>"

definition sample_instance :: claw_instance where
  "sample_instance = \<lparr>ci_meta = (named_meta ''clawbake'' ''u1'')\<lparr>om_version := ''1''\<rparr>,
     ci_spec = \<lparr>sp_userId = ''u1'', sp_image = ''openclaw:1'', sp_gatewayToken = ''t'', sp_gatewayConfig = ''{}'',
       sp_configGeneration = 1, sp_resources = sample_resources,
       sp_storage = \<lparr>cs_size = ''10Gi'', cs_storageClass = []\<rparr>\<rparr>,
     ci_status = empty_status\<rparr>"

definition sample_reconciler :: reconciler where
  "sample_reconciler = \<lparr>r_serverNamespace = ''clawbake'', r_defaultGatewayConfig = ''{}'', r_ttydImage = ''ttyd'',
     r_tuiEnabled = True, r_tuiPort = 7681, r_tuiCommand = ''tui'', r_shellEnabled = True, r_shellPort = 7682,
     r_shellCommand = ''shell''\<rparr>"

definition sample_quantity :: "string \<Rightarrow> bool" where
  "sample_quantity q \<longleftrightarrow> q \<in> {''500m'', ''2'', ''1Gi'', ''2Gi'', ''5Gi'', ''10Gi''}"

definition new_namespace :: "string \<Rightarrow> kube_namespace" where
  "new_namespace name = \<lparr>ns_meta = named_meta [] name\<rparr>"

definition new_pvc :: "string \<Rightarrow> string \<Rightarrow> kube_pvc" where
  "new_pvc namespace name = \<lparr>pvc_meta = named_meta namespace name,
     pvc_spec = \<lparr>ps_accessModes = [], ps_requests = [], ps_storageClass = None\<rparr>\<rparr>"

definition new_deployment :: "string \<Rightarrow> string \<Rightarrow> kube_deployment" where
  "new_deployment namespace name = \<lparr>de_meta = named_meta namespace name,
     de_spec = \<lparr>ds_replicas = None, ds_selector = [], ds_templateLabels = [],
       ds_pod = \<lparr>po_fsGroup = None, po_enableServiceLinks = None, po_initContainers = [], po_containers = [],
                 po_volumes = []\<rparr>\<rparr>,
     de_readyReplicas = 0\<rparr>"

definition new_service :: "string \<Rightarrow> string \<Rightarrow> kube_service" where
  "new_service namespace name = \<lparr>sv_meta = named_meta namespace name, sv_spec = \<lparr>ss_selector = [], ss_ports = []\<rparr>\<rparr>"

definition new_netpol :: "string \<Rightarrow> string \<Rightarrow> kube_netpol" where
  "new_netpol namespace name = \<lparr>np_meta = named_meta namespace name,
     np_spec = \<lparr>np_podSelector = [], np_policyTypes = [], np_ingress = []\<rparr>\<rparr>"

lemma sample_deployment:
  "\<exists>d'. deployment_mutate sample_quantity sample_reconciler sample_instance (new_deployment n d) = Returned d'"
  by (simp add: deployment_mutate_def buildResourceRequirements_def parse_list_def MustParse_def
      sample_quantity_def sample_instance_def sample_resources_def Let_def)

lemma service_matches_deployment_witness:
  "\<exists>d' svc'. deployment_mutate sample_quantity sample_reconciler sample_instance (new_deployment ''n'' ''d'') = Returned d'
    \<and> service_mutate sample_reconciler sample_instance (new_service ''n'' ''d'') = Returned svc'
    \<and> selects (ss_selector (sv_spec svc')) (ds_templateLabels (de_spec d'))"
proof -
  obtain d' where d: "deployment_mutate sample_quantity sample_reconciler sample_instance (new_deployment ''n'' ''d'') = Returned d'"
    using sample_deployment by blast
  obtain svc' where s: "service_mutate sample_reconciler sample_instance (new_service ''n'' ''d'') = Returned svc'"
    by (simp add: service_mutate_ports)
  from service_matches_deployment [OF d s] d s show ?thesis by blast
qed

lemma pod_well_formed_witness:
  "\<exists>d'. deployment_mutate sample_quantity sample_reconciler sample_instance (new_deployment ''n'' ''d'') = Returned d'
    \<and> distinct (map vo_name (po_volumes (ds_pod (de_spec d'))))"
  using sample_deployment pod_well_formed by blast

section \<open>Isolation\<close>

text \<open>
  Kubernetes' reading of a network policy: a pod it does not select, or for which it is not an
  ingress policy, is not restricted by it; to a selected pod it allows the peers of its rules.
  \<open>same\<close> says whether the source is in the policy's own namespace.
\<close>

definition peer_matches :: "bool \<Rightarrow> labels \<Rightarrow> labels \<Rightarrow> netpol_peer \<Rightarrow> bool" where
  "peer_matches same ns pod p \<longleftrightarrow>
     (case pe_namespaces p of None \<Rightarrow> same | Some s \<Rightarrow> selects s ns)
     \<and> (case pe_pods p of None \<Rightarrow> True | Some s \<Rightarrow> selects s pod)"

definition ingress_allowed :: "netpol_spec \<Rightarrow> labels \<Rightarrow> bool \<Rightarrow> labels \<Rightarrow> labels \<Rightarrow> bool" where
  "ingress_allowed spec target same ns pod \<longleftrightarrow>
     \<not> (selects (np_podSelector spec) target \<and> ''Ingress'' \<in> set (np_policyTypes spec))
     \<or> (\<exists>peers \<in> set (np_ingress spec). peers = [] \<or> (\<exists>p \<in> set peers. peer_matches same ns pod p))"

text \<open>Property C20. Once the policy is written, the only pods that may connect to any pod of the
  instance's namespace are those labelled as the clawbake server, in a namespace whose name label
  is the server's; pods of other instances, and of the same namespace, may not.\<close>

theorem netpol_isolates:
  "\<exists>np'. netpol_mutate r i np = Returned np' \<and>
     (\<forall>target same ns pod. ingress_allowed (np_spec np') target same ns pod \<longleftrightarrow>
        map_of ns ''kubernetes.io/metadata.name'' = Some (r_serverNamespace r)
        \<and> map_of pod ''app.kubernetes.io/name'' = Some ''clawbake''
        \<and> map_of pod ''app.kubernetes.io/component'' = Some ''server'')"
  by (auto simp: netpol_mutate_def ingress_allowed_def peer_matches_def selects_def)

section \<open>Quantities\<close>

definition quantities_of :: "resource_list \<Rightarrow> string set" where
  "quantities_of l = {rl_cpu l, rl_memory l} - {[]}"

lemma parse_list_cases:
  "parse_list quantity_ok l = Returned x \<Longrightarrow> quantities_of l \<subseteq> Collect quantity_ok"
  "\<nexists>e. parse_list quantity_ok l = Failed e"
  "parse_list quantity_ok l = Panicked p \<Longrightarrow> \<not> quantities_of l \<subseteq> Collect quantity_ok"
  by (auto simp: parse_list_def quantities_of_def MustParse_def split: if_splits)

text \<open>Building the deployment panics exactly when one of the four resource quantities
  of the instance is set and is not a Kubernetes quantity, and building a new volume claim exactly
  when its size (5Gi if unset) is not one; neither ever returns an error.\<close>

theorem quantities_panic:
  "((\<exists>p. deployment_mutate quantity_ok r i d = Panicked p) \<longleftrightarrow>
      \<not> quantities_of (cr_requests (sp_resources (ci_spec i))) \<union> quantities_of (cr_limits (sp_resources (ci_spec i)))
        \<subseteq> Collect quantity_ok)
   \<and> deployment_mutate quantity_ok r i d \<noteq> Failed e
   \<and> ((\<exists>p. pvc_mutate quantity_ok i pvc = Panicked p) \<longleftrightarrow>
      om_created (pvc_meta pvc) = None
      \<and> \<not> quantity_ok (if cs_size (sp_storage (ci_spec i)) = [] then ''5Gi'' else cs_size (sp_storage (ci_spec i))))
   \<and> pvc_mutate quantity_ok i pvc \<noteq> Failed e"
proof (intro conjI)
  let ?q = "cr_requests (sp_resources (ci_spec i))" and ?l = "cr_limits (sp_resources (ci_spec i))"
  show "(\<exists>p. deployment_mutate quantity_ok r i d = Panicked p) \<longleftrightarrow>
      \<not> quantities_of ?q \<union> quantities_of ?l \<subseteq> Collect quantity_ok"
    using parse_list_cases [of quantity_ok ?q] parse_list_cases [of quantity_ok ?l]
    by (cases "parse_list quantity_ok ?q"; cases "parse_list quantity_ok ?l")
      (simp_all add: deployment_mutate_def buildResourceRequirements_def Let_def)
  show "deployment_mutate quantity_ok r i d \<noteq> Failed e"
    using parse_list_cases(2) [of quantity_ok ?q] parse_list_cases(2) [of quantity_ok ?l]
    by (cases "parse_list quantity_ok ?q"; cases "parse_list quantity_ok ?l")
      (simp_all add: deployment_mutate_def buildResourceRequirements_def Let_def)
qed (auto simp: pvc_mutate_def MustParse_def Let_def)

definition idempotent_on :: "('a \<Rightarrow> 'a outcome) \<Rightarrow> 'a \<Rightarrow> bool" where
  "idempotent_on f x \<longleftrightarrow> (\<forall>y. f x = Returned y \<longrightarrow> f y = Returned y)"

lemma put_twice:
  assumes "keys_sorted m" "k \<noteq> k'"
  shows "put k v (put k' v' (put k v (put k' v' m))) = put k v (put k' v' m)"
  using assms by (intro keys_sorted_map_of_eq) auto

text \<open>Reconciling twice writes the same objects: each mutate function applied to what it
  produced changes nothing, and an existing volume claim is never changed at all.\<close>

theorem mutate_idempotent:
  assumes "keys_sorted (om_labels (ns_meta ns))"
  shows "idempotent_on (namespace_mutate i) ns \<and> idempotent_on (pvc_mutate quantity_ok i) pvc
    \<and> idempotent_on (deployment_mutate quantity_ok r i) d \<and> idempotent_on (service_mutate r i) svc
    \<and> idempotent_on (netpol_mutate r i) np
    \<and> pvc_mutate quantity_ok i (pvc\<lparr>pvc_meta := (pvc_meta pvc)\<lparr>om_created := Some t\<rparr>\<rparr>)
        = Returned (pvc\<lparr>pvc_meta := (pvc_meta pvc)\<lparr>om_created := Some t\<rparr>\<rparr>)"
proof (intro conjI)
  show "idempotent_on (namespace_mutate i) ns"
    using put_twice [OF assms] by (simp add: idempotent_on_def namespace_mutate_def Let_def)
  show "idempotent_on (pvc_mutate quantity_ok i) pvc"
    by (auto simp: idempotent_on_def pvc_mutate_def Let_def split: outcome.splits if_splits)
  show "idempotent_on (deployment_mutate quantity_ok r i) d"
    by (auto simp: idempotent_on_def deployment_mutate_def Let_def split: outcome.splits)
  show "idempotent_on (service_mutate r i) svc" "idempotent_on (netpol_mutate r i) np"
    by (simp_all add: idempotent_on_def service_mutate_def netpol_mutate_def Let_def)
qed (simp add: pvc_mutate_def)

lemma mutate_idempotent_witness:
  "idempotent_on (namespace_mutate sample_instance) (new_namespace ''n'')"
  using mutate_idempotent [of "new_namespace ''n''" sample_instance]
  by (simp add: new_namespace_def named_meta_def empty_meta_def)

section \<open>The configuration file\<close>

text \<open>
  The \<^verbatim>\<open>write-config\<close> script on the two files it reads and writes, \<open>None\<close> for a missing file.
  \<open>sh_echo s\<close> is what the image's \<^verbatim>\<open>echo\<close> writes for the argument \<open>s\<close>; \<^verbatim>\<open>$(...)\<close> drops
  trailing newlines. This is the script's meaning when the configuration holds no single quote.
\<close>

record config_files =
  cf_config :: "string option"
  cf_gen :: "string option"

definition strip_newlines :: "string \<Rightarrow> string" where
  "strip_newlines s = rev (dropWhile (\<lambda>c. c = CHR 0x0A) (rev s))"

definition run_write_config :: "(string \<Rightarrow> string) \<Rightarrow> string \<Rightarrow> string \<Rightarrow> config_files \<Rightarrow> config_files" where
  "run_write_config sh_echo gatewayConfig configGen f =
     (if cf_config f = None
      then f\<lparr>cf_config := Some (sh_echo gatewayConfig), cf_gen := Some (sh_echo configGen)\<rparr>
      else let current = (case cf_gen f of Some g \<Rightarrow> strip_newlines g | None \<Rightarrow> strip_newlines (sh_echo ''-1''))
           in if current \<noteq> configGen
              then f\<lparr>cf_config := Some (sh_echo gatewayConfig), cf_gen := Some (sh_echo configGen)\<rparr>
              else f)"

text \<open>What POSIX requires of \<^verbatim>\<open>echo\<close> for an integer.\<close>

definition echo_ok :: "(string \<Rightarrow> string) \<Rightarrow> bool" where
  "echo_ok sh_echo \<longleftrightarrow> (\<forall>i. sh_echo (show_int i) = show_int i @ newline)"

definition generation_text :: "claw_instance \<Rightarrow> string" where
  "generation_text i = show_int (sint (sp_configGeneration (ci_spec i)))"

lemma show_int_last: "show_int i \<noteq> [] \<and> last (show_int i) \<noteq> CHR 0x0A"
proof -
  have "show_int i \<noteq> []" by (simp add: show_int_def)
  then have "last (show_int i) \<in> set (show_int i)" by simp
  from show_int_no_quote [OF this] show ?thesis
    using \<open>show_int i \<noteq> []\<close> by (auto simp: is_digit_def)
qed

lemma strip_newlines_show_int [simp]: "strip_newlines (show_int i @ newline) = show_int i"
proof -
  have "dropWhile (\<lambda>c. c = CHR 0x0A) (rev (show_int i)) = rev (show_int i)"
    using show_int_last [of i] by (simp add: dropWhile_eq_self_iff hd_rev)
  then show ?thesis by (simp add: strip_newlines_def newline_def)
qed

lemma show_minus_one: "show_int (- 1) = ''-1''"
  by (simp add: show_int_def show_nat.simps digit_char_def char_of_def bit_0)


definition sample_echo :: "string \<Rightarrow> string" where
  "sample_echo s = s @ newline"


text \<open>How a POSIX shell reads what follows an opening single quote: the word, and the rest.\<close>

fun single_quoted :: "string \<Rightarrow> (string \<times> string) option" where
  "single_quoted [] = None"
| "single_quoted (c # s) =
     (if c = CHR 0x27 then Some ([], s)
      else map_option (\<lambda>(w, r). (c # w, r)) (single_quoted s))"

lemma single_quoted_plain: "CHR 0x27 \<notin> set w \<Longrightarrow> single_quoted (w @ CHR 0x27 # r) = Some (w, r)"
  by (induction w) auto



end
