(* ===== verification/Config.thy ===== *)
theory Config
  imports OperatorObjects
begin

text \<open>
  \<^verbatim>\<open>internal/config/config.go\<close> and the settings that \<^verbatim>\<open>cmd/operator/main.go\<close> reads from the
  environment. An environment maps a name to its value, the empty string for a name that is not
  set, as \<^verbatim>\<open>os.Getenv\<close> does.
\<close>

type_synonym environment = "string \<Rightarrow> string"

section \<open>The server\<close>

record config =
  cf_port :: string
  cf_databaseURL :: string
  cf_baseURL :: string
  cf_oidcIssuer :: string
  cf_oidcClientID :: string
  cf_oidcClientSecret :: string
  cf_oidcRedirectURL :: string
  cf_sessionSecret :: string
  cf_slackBotToken :: string
  cf_slackSigningSecret :: string
  cf_kubeNamespace :: string
  cf_defaultImage :: string
  cf_defaultCPURequest :: string
  cf_defaultMemoryRequest :: string
  cf_defaultCPULimit :: string
  cf_defaultMemoryLimit :: string
  cf_defaultStorageSize :: string
  cf_defaultGatewayConfig :: string
  cf_tuiEnabled :: bool
  cf_shellEnabled :: bool

definition envOrDefault :: "environment \<Rightarrow> string \<Rightarrow> string \<Rightarrow> string" where
  "envOrDefault env key defaultVal = (let v = env key in if v \<noteq> [] then v else defaultVal)"

definition Load :: "environment \<Rightarrow> config" where
  "Load env = \<lparr>
     cf_port = envOrDefault env ''PORT'' ''8080'',
     cf_databaseURL = env ''DATABASE_URL'',
     cf_baseURL = env ''BASE_URL'',
     cf_oidcIssuer = env ''OIDC_ISSUER'',
     cf_oidcClientID = env ''OIDC_CLIENT_ID'',
     cf_oidcClientSecret = env ''OIDC_CLIENT_SECRET'',
     cf_oidcRedirectURL = env ''OIDC_REDIRECT_URL'',
     cf_sessionSecret = env ''SESSION_SECRET'',
     cf_slackBotToken = env ''SLACK_BOT_TOKEN'',
     cf_slackSigningSecret = env ''SLACK_SIGNING_SECRET'',
     cf_kubeNamespace = envOrDefault env ''KUBE_NAMESPACE'' ''clawbake'',
     cf_defaultImage = env ''INSTANCE_DEFAULT_IMAGE'',
     cf_defaultCPURequest = env ''INSTANCE_DEFAULT_CPU_REQUEST'',
     cf_defaultMemoryRequest = env ''INSTANCE_DEFAULT_MEMORY_REQUEST'',
     cf_defaultCPULimit = env ''INSTANCE_DEFAULT_CPU_LIMIT'',
     cf_defaultMemoryLimit = env ''INSTANCE_DEFAULT_MEMORY_LIMIT'',
     cf_defaultStorageSize = env ''INSTANCE_DEFAULT_STORAGE_SIZE'',
     cf_defaultGatewayConfig = env ''INSTANCE_DEFAULT_GATEWAY_CONFIG'',
     cf_tuiEnabled = (env ''TUI_ENABLED'' \<noteq> ''false''),
     cf_shellEnabled = (env ''SHELL_ENABLED'' \<noteq> ''false'')\<rparr>"

section \<open>The operator\<close>

text \<open>
  A port: the default, or the number in the variable converted with \<^verbatim>\<open>int32(v)\<close>, which keeps the
  low 32 bits.
\<close>

definition port_setting :: "environment \<Rightarrow> string \<Rightarrow> 32 word \<Rightarrow> 32 word" where
  "port_setting env key defaultPort =
     (let p = env key in
      if p \<noteq> [] then (case parse_int64 p of Some v \<Rightarrow> word_of_int v | None \<Rightarrow> defaultPort) else defaultPort)"

definition operator_settings :: "environment \<Rightarrow> reconciler" where
  "operator_settings env =
     (let ttydEnabled = (env ''INSTANCE_TTYD_ENABLED'' \<noteq> ''false'') in
      \<lparr>r_serverNamespace = (if env ''SERVER_NAMESPACE'' = [] then ''clawbake'' else env ''SERVER_NAMESPACE''),
       r_defaultGatewayConfig = env ''DEFAULT_GATEWAY_CONFIG'',
       r_ttydImage = (if env ''INSTANCE_TTYD_IMAGE'' = [] then ''tsl0922/ttyd:alpine'' else env ''INSTANCE_TTYD_IMAGE''),
       r_tuiEnabled = (ttydEnabled \<and> env ''INSTANCE_TUI_ENABLED'' \<noteq> ''false''),
       r_tuiPort = port_setting env ''INSTANCE_TUI_PORT'' 7681,
       r_tuiCommand = (if env ''INSTANCE_TUI_COMMAND'' = []
         then ''/ttyd-bin/ttyd -W -p 7681 node /app/openclaw.mjs tui --token $OPENCLAW_GATEWAY_TOKEN''
         else env ''INSTANCE_TUI_COMMAND''),
       r_shellEnabled = (ttydEnabled \<and> env ''INSTANCE_SHELL_ENABLED'' \<noteq> ''false''),
       r_shellPort = port_setting env ''INSTANCE_SHELL_PORT'' 7682,
       r_shellCommand = (if env ''INSTANCE_SHELL_COMMAND'' = []
         then ''/ttyd-bin/ttyd -W -p 7682 /bin/bash'' else env ''INSTANCE_SHELL_COMMAND'')\<rparr>)"

text \<open>\<^verbatim>\<open>SERVER_URL\<close>: where ready notifications go, if anywhere.\<close>

definition notifier_url :: "environment \<Rightarrow> string option" where
  "notifier_url env = (let url = env ''SERVER_URL'' in if url \<noteq> [] then Some url else None)"

section \<open>Ports\<close>

lemma sint_int32:
  "(sint (word_of_int v :: 32 word) = v) = (- (2 ^ 31) \<le> v \<and> v < 2 ^ 31)"
  "(v - sint (word_of_int v :: 32 word)) mod 2 ^ 32 = 0"
proof -
  have "sint (word_of_int v :: 32 word) = signed_take_bit 31 v" by (simp add: sint_sbintrunc')
  then show "(sint (word_of_int v :: 32 word) = v) = (- (2 ^ 31) \<le> v \<and> v < 2 ^ 31)"
    by (simp add: signed_take_bit_int_eq_self_iff)
  have "take_bit 32 (sint (word_of_int v :: 32 word)) = take_bit 32 v"
    by (simp add: sint_sbintrunc' take_bit_signed_take_bit)
  then show "(v - sint (word_of_int v :: 32 word)) mod 2 ^ 32 = 0"
    by (metis mod_eq_dvd_iff mod_0_imp_dvd dvd_imp_mod_0 take_bit_eq_mod)
qed

lemma parse_int64_Nil: "parse_int64 [] = None"
  by (simp add: parse_int64_def)

lemma port_setting_wrap:
  "case parse_int64 (env key) of
     Some v \<Rightarrow> (sint (port_setting env key d) = v) = (- (2 ^ 31) \<le> v \<and> v < 2 ^ 31)
               \<and> (v - sint (port_setting env key d)) mod 2 ^ 32 = 0
   | None \<Rightarrow> port_setting env key d = d"
  by (cases "env key = []") (auto simp: port_setting_def Let_def sint_int32 sint_int32(2) [simplified] parse_int64_Nil split: option.splits)

text \<open>
  The port of the terminal and of the shell is the number in the variable exactly
  when that number fits 32 bits; otherwise it silently becomes the number that differs from it by
  a multiple of \<open>2^32\<close>. A variable that is no number is ignored. No terminal or shell is set up when
  \<^verbatim>\<open>ttyd\<close> is switched off.
\<close>

theorem operator_ports:
  "(case parse_int64 (env ''INSTANCE_TUI_PORT'') of
      Some v \<Rightarrow> (sint (r_tuiPort (operator_settings env)) = v) = (- (2 ^ 31) \<le> v \<and> v < 2 ^ 31)
                \<and> (v - sint (r_tuiPort (operator_settings env))) mod 2 ^ 32 = 0
    | None \<Rightarrow> r_tuiPort (operator_settings env) = 7681)
   \<and> (case parse_int64 (env ''INSTANCE_SHELL_PORT'') of
      Some v \<Rightarrow> (sint (r_shellPort (operator_settings env)) = v) = (- (2 ^ 31) \<le> v \<and> v < 2 ^ 31)
                \<and> (v - sint (r_shellPort (operator_settings env))) mod 2 ^ 32 = 0
    | None \<Rightarrow> r_shellPort (operator_settings env) = 7682)
   \<and> ttydNeeded (operator_settings env) =
       (\<not> (env ''INSTANCE_TTYD_ENABLED'' = ''false''
          \<or> env ''INSTANCE_TUI_ENABLED'' = ''false'' \<and> env ''INSTANCE_SHELL_ENABLED'' = ''false''))"
  using port_setting_wrap [of env "''INSTANCE_TUI_PORT''" 7681]
    port_setting_wrap [of env "''INSTANCE_SHELL_PORT''" 7682]
  by (auto simp: operator_settings_def Let_def ttydNeeded_def split: option.splits)

end
