(* ===== verification/Effects.thy ===== *)
theory Effects
  imports Prelude
begin

text \<open>
  Programs with effects. A Go function that talks to the outside (the Kubernetes API, the
  database, Slack, the network, the clock) becomes a tree: either it has returned, or it makes
  a call and continues with the answer, whatever the answer is. The tree is the code's own
  logic; what the outside does with a call is not part of it. Two readings of a tree are used:
  \<^item> \<open>rg R G h p Q\<close> speaks of every run of \<open>p\<close> against \<^emph>\<open>any\<close> outside whose answers satisfy
    the rely \<open>R\<close>: each call made is allowed by \<open>G\<close> after the calls before it, and the result
    satisfies \<open>Q\<close>. With \<open>R\<close> always true the outside may answer anything, errors included;
  \<^item> \<open>run serve p w\<close> runs \<open>p\<close> against one outside, a function \<open>serve\<close> on a state \<open>w\<close>.
\<close>

section \<open>Programs\<close>

datatype (dead 'c, dead 'r, 'a) prog =
  Ret 'a
| Call 'c "'r \<Rightarrow> ('c, 'r, 'a) prog"

primrec bind :: "('c, 'r, 'a) prog \<Rightarrow> ('a \<Rightarrow> ('c, 'r, 'b) prog) \<Rightarrow> ('c, 'r, 'b) prog" where
  "bind (Ret a) f = f a"
| "bind (Call c k) f = Call c (\<lambda>r. bind (k r) f)"

text \<open>One call, its answer read by \<open>dec\<close>.\<close>

definition ask :: "'c \<Rightarrow> ('r \<Rightarrow> 'a) \<Rightarrow> ('c, 'r, 'a) prog" where
  "ask c dec = Call c (\<lambda>r. Ret (dec r))"

lemma bind_ask [simp]: "bind (ask c dec) f = Call c (\<lambda>r. f (dec r))"
  by (simp add: ask_def)

lemma bind_Ret [simp]: "bind p Ret = p"
  by (induction p) auto

lemma bind_assoc: "bind (bind p f) g = bind p (\<lambda>a. bind (f a) g)"
  by (induction p) auto

section \<open>Every run against any outside: rely and guarantee\<close>

type_synonym ('c, 'r) history = "('c \<times> 'r) list"

primrec rg ::
  "('c \<Rightarrow> 'r \<Rightarrow> bool) \<Rightarrow> (('c, 'r) history \<Rightarrow> 'c \<Rightarrow> bool) \<Rightarrow> ('c, 'r) history \<Rightarrow>
   ('c, 'r, 'a) prog \<Rightarrow> (('c, 'r) history \<Rightarrow> 'a \<Rightarrow> bool) \<Rightarrow> bool"
where
  "rg R G h (Ret a) Q = Q h a"
| "rg R G h (Call c k) Q = (G h c \<and> (\<forall>r. R c r \<longrightarrow> rg R G (h @ [(c, r)]) (k r) Q))"

lemma rg_bind: "rg R G h (bind p f) Q = rg R G h p (\<lambda>h' a. rg R G h' (f a) Q)"
  by (induction p arbitrary: h) auto

lemma rg_conseq:
  assumes "rg R G h p Q" "\<And>h' a. Q h' a \<Longrightarrow> Q' h' a" "\<And>h' c. G h' c \<Longrightarrow> G' h' c"
    "\<And>c r. R' c r \<Longrightarrow> R c r"
  shows "rg R' G' h p Q'"
  using assms by (induction p arbitrary: h) auto

lemma rg_post: "rg R G h p Q \<Longrightarrow> (\<And>h' a. Q h' a \<Longrightarrow> Q' h' a) \<Longrightarrow> rg R G h p Q'"
  by (rule rg_conseq)

lemma rg_conj:
  "rg R G h p Q \<Longrightarrow> rg R G' h p Q' \<Longrightarrow> rg R (\<lambda>h c. G h c \<and> G' h c) h p (\<lambda>h a. Q h a \<and> Q' h a)"
  by (induction p arbitrary: h) auto

text \<open>The histories in question extend the one the program starts from.\<close>

lemma rg_extend:
  assumes "rg R G h p Q" "\<And>t a. Q (h @ t) a \<Longrightarrow> Q' (h @ t) a" "\<And>t c. G (h @ t) c \<Longrightarrow> G' (h @ t) c"
  shows "rg R G' h p Q'"
  using assms
proof (induction p arbitrary: h)
  case (Ret a)
  then show ?case by (metis append_Nil2 rg.simps(1))
next
  case (Call c k)
  have "rg R G' (h @ [(c, r)]) (k r) Q'" if "R c r" for r
    using Call.prems that by (intro Call.IH [of "k r"]) auto
  moreover have "G' h c" using Call.prems(1) Call.prems(3) [of "[]"] by simp
  ultimately show ?case by simp
qed

text \<open>A complete run, with the calls it made and the answers it got, in order.\<close>

inductive exec ::
  "('c \<Rightarrow> 'r \<Rightarrow> bool) \<Rightarrow> ('c, 'r, 'a) prog \<Rightarrow> ('c, 'r) history \<Rightarrow> 'a \<Rightarrow> bool"
  for R
where
  exec_Ret: "exec R (Ret a) [] a"
| exec_Call: "R c r \<Longrightarrow> exec R (k r) tr a \<Longrightarrow> exec R (Call c k) ((c, r) # tr) a"

inductive_simps exec_Ret_iff [simp]: "exec R (Ret a) tr b"
inductive_simps exec_Call_iff: "exec R (Call c k) tr b"

lemma exec_bind:
  "exec R (bind p f) tr b \<longleftrightarrow> (\<exists>t1 a t2. exec R p t1 a \<and> exec R (f a) t2 b \<and> tr = t1 @ t2)"
  by (induction p arbitrary: tr) (fastforce simp: exec_Call_iff)+

text \<open>\<open>rg\<close> is a statement about the complete runs.\<close>

lemma rg_exec:
  assumes "exec R p tr a" "rg R G h p Q"
  shows "Q (h @ tr) a \<and> (\<forall>pre c r post. tr = pre @ (c, r) # post \<longrightarrow> G (h @ pre) c)"
  using assms
proof (induction arbitrary: h)
  case (exec_Ret a)
  then show ?case by simp
next
  case (exec_Call c r k tr a)
  then have G: "G h c" and "rg R G (h @ [(c, r)]) (k r) Q"
    by auto
  from exec_Call.IH [OF this(2)] have IH: "Q ((h @ [(c, r)]) @ tr) a \<and>
      (\<forall>pre c' r' post. tr = pre @ (c', r') # post \<longrightarrow> G ((h @ [(c, r)]) @ pre) c')" .
  show ?case
  proof (intro conjI allI impI)
    show "Q (h @ (c, r) # tr) a" using IH by simp
    fix pre c' r' post assume eq: "(c, r) # tr = pre @ (c', r') # post"
    show "G (h @ pre) c'"
    proof (cases pre)
      case Nil
      then show ?thesis using eq G by simp
    next
      case (Cons x pre')
      then show ?thesis using eq IH by auto
    qed
  qed
qed

lemmas rg_exec_post = rg_exec [THEN conjunct1]

section \<open>A run against one outside\<close>

primrec run :: "('c \<Rightarrow> 'w \<Rightarrow> 'r \<times> 'w) \<Rightarrow> ('c, 'r, 'a) prog \<Rightarrow> 'w \<Rightarrow> 'a \<times> 'w" where
  "run serve (Ret a) w = (a, w)"
| "run serve (Call c k) w = run serve (k (fst (serve c w))) (snd (serve c w))"

lemma run_bind:
  "run serve (bind p f) w = run serve (f (fst (run serve p w))) (snd (run serve p w))"
  by (induction p arbitrary: w) auto

text \<open>
  What holds in every run holds in this one, and a state invariant that each allowed call
  keeps holds at the end. The invariant may be what guarantees the rely.
\<close>

lemma run_rg:
  assumes "rg R (\<lambda>_. G) h p Q" "Inv w"
    and "\<And>c w. Inv w \<Longrightarrow> G c \<Longrightarrow> Inv (snd (serve c w)) \<and> R c (fst (serve c w))"
  shows "Inv (snd (run serve p w)) \<and> (\<exists>h'. Q h' (fst (run serve p w)))"
  using assms(1,2)
proof (induction p arbitrary: h w)
  case (Ret a)
  then show ?case by auto
next
  case (Call c k)
  from Call.prems have "G c" by simp
  with Call.prems(2) assms(3)
  have "Inv (snd (serve c w))" "R c (fst (serve c w))" by auto
  with Call.prems(1) have "rg R (\<lambda>_. G) (h @ [(c, fst (serve c w))]) (k (fst (serve c w))) Q"
    by simp
  from Call.IH [OF _ this \<open>Inv (snd (serve c w))\<close>] show ?case by auto
qed

end
