(* ===== verification/JsonScan.thy ===== *)
theory JsonScan
  imports Prelude
begin

text \<open>
  The scanner of \<^verbatim>\<open>encoding/json\<close>: a byte-at-a-time automaton with a stack. It is what
  \<^verbatim>\<open>json.Valid\<close> and \<^verbatim>\<open>json.Compact\<close> run, and \<^verbatim>\<open>json.Unmarshal\<close> runs it over the whole
  text before decoding anything. The states are the step functions of the Go scanner (\<open>St0\<close>
  and \<open>St1\<close> are \<^verbatim>\<open>state0\<close> and \<^verbatim>\<open>state1\<close>), the op codes its scan codes. Two fields of the Go
  struct are read off the state instead: an error is the state \<open>StError\<close>, and \<^verbatim>\<open>endTop\<close> is
  the state \<open>EndTop\<close>.
\<close>

section \<open>The automaton\<close>

datatype sstate =
  BeginValue | BeginValueOrEmpty | BeginStringOrEmpty | BeginString
| EndValue | EndTop
| InString | InStringEsc | InStringEscU | InStringEscU1 | InStringEscU12 | InStringEscU123
| Neg | St1 | St0 | Dot | Dot0 | StE | ESign | E0
| StT | StTr | StTru | StF | StFa | StFal | StFals | StN | StNu | StNul
| StError

datatype pstate = ParseObjectKey | ParseObjectValue | ParseArrayValue

datatype scode =
  Continue | BeginLiteral | BeginObject | ObjectKey | ObjectValue | EndObject
| BeginArray | ArrayValue | EndArray | SkipSpace | End | Error

type_synonym sconf = "sstate \<times> pstate list"

definition isSpace :: "char \<Rightarrow> bool" where
  "isSpace c \<longleftrightarrow> c = CHR '' '' \<or> c = CHR 0x09 \<or> c = CHR 0x0D \<or> c = CHR 0x0A"

definition maxNestingDepth :: nat where
  "maxNestingDepth = 10000"

definition is_hex :: "char \<Rightarrow> bool" where
  "is_hex c \<longleftrightarrow> is_digit c \<or> (CHR ''a'' \<le> c \<and> c \<le> CHR ''f'') \<or> (CHR ''A'' \<le> c \<and> c \<le> CHR ''F'')"

definition scan_error :: "pstate list \<Rightarrow> scode \<times> sconf" where
  "scan_error ps = (Error, StError, ps)"

definition push_state :: "pstate list \<Rightarrow> pstate \<Rightarrow> scode \<Rightarrow> sstate \<Rightarrow> scode \<times> sconf" where
  "push_state ps p code st =
     (if Suc (length ps) \<le> maxNestingDepth then (code, st, p # ps) else scan_error (p # ps))"

definition pop_state :: "pstate list \<Rightarrow> scode \<Rightarrow> scode \<times> sconf" where
  "pop_state ps code = (code, if tl ps = [] then EndTop else EndValue, tl ps)"

definition end_top :: "char \<Rightarrow> scode \<times> sconf" where
  "end_top c = (if isSpace c then (End, EndTop, []) else (End, StError, []))"

definition end_value :: "pstate list \<Rightarrow> char \<Rightarrow> scode \<times> sconf" where
  "end_value ps c =
     (case ps of
        [] \<Rightarrow> end_top c
      | p # ps' \<Rightarrow>
         if isSpace c then (SkipSpace, EndValue, ps)
         else (case p of
            ParseObjectKey \<Rightarrow>
              if c = CHR '':'' then (ObjectKey, BeginValue, ParseObjectValue # ps') else scan_error ps
          | ParseObjectValue \<Rightarrow>
              if c = CHR '','' then (ObjectValue, BeginString, ParseObjectKey # ps')
              else if c = CHR ''}'' then pop_state ps EndObject
              else scan_error ps
          | ParseArrayValue \<Rightarrow>
              if c = CHR '','' then (ArrayValue, BeginValue, ps)
              else if c = CHR '']'' then pop_state ps EndArray
              else scan_error ps))"

definition begin_value :: "pstate list \<Rightarrow> sstate \<Rightarrow> char \<Rightarrow> scode \<times> sconf" where
  "begin_value ps st c =
     (if isSpace c then (SkipSpace, st, ps)
      else if c = CHR ''{'' then push_state ps ParseObjectKey BeginObject BeginStringOrEmpty
      else if c = CHR ''['' then push_state ps ParseArrayValue BeginArray BeginValueOrEmpty
      else if c = CHR 0x22 then (BeginLiteral, InString, ps)
      else if c = CHR ''-'' then (BeginLiteral, Neg, ps)
      else if c = CHR ''0'' then (BeginLiteral, St0, ps)
      else if c = CHR ''t'' then (BeginLiteral, StT, ps)
      else if c = CHR ''f'' then (BeginLiteral, StF, ps)
      else if c = CHR ''n'' then (BeginLiteral, StN, ps)
      else if is_digit c then (BeginLiteral, St1, ps)
      else scan_error ps)"

definition begin_string :: "pstate list \<Rightarrow> sstate \<Rightarrow> char \<Rightarrow> scode \<times> sconf" where
  "begin_string ps st c =
     (if isSpace c then (SkipSpace, st, ps)
      else if c = CHR 0x22 then (BeginLiteral, InString, ps)
      else scan_error ps)"

definition expect :: "bool \<Rightarrow> sstate \<Rightarrow> pstate list \<Rightarrow> scode \<times> sconf" where
  "expect ok st ps = (if ok then (Continue, st, ps) else scan_error ps)"

definition state0 :: "pstate list \<Rightarrow> char \<Rightarrow> scode \<times> sconf" where
  "state0 ps c = (if c = CHR ''.'' then (Continue, Dot, ps)
                  else if c = CHR ''e'' \<or> c = CHR ''E'' then (Continue, StE, ps)
                  else end_value ps c)"

fun jstep :: "sstate \<Rightarrow> pstate list \<Rightarrow> char \<Rightarrow> scode \<times> sconf" where
  "jstep BeginValue ps c = begin_value ps BeginValue c"
| "jstep BeginValueOrEmpty ps c =
     (if \<not> isSpace c \<and> c = CHR '']'' then end_value ps c else begin_value ps BeginValueOrEmpty c)"
| "jstep BeginStringOrEmpty ps c =
     (if \<not> isSpace c \<and> c = CHR ''}'' then end_value (ParseObjectValue # tl ps) c
      else begin_string ps BeginStringOrEmpty c)"
| "jstep BeginString ps c = begin_string ps BeginString c"
| "jstep EndValue ps c = end_value ps c"
| "jstep EndTop ps c = end_top c"
| "jstep InString ps c =
     (if c = CHR 0x22 then (Continue, EndValue, ps)
      else if c = CHR 0x5C then (Continue, InStringEsc, ps)
      else expect (CHR 0x20 \<le> c) InString ps)"
| "jstep InStringEsc ps c =
     (if c = CHR ''u'' then (Continue, InStringEscU, ps)
      else expect (c \<in> {CHR ''b'', CHR ''f'', CHR ''n'', CHR ''r'', CHR ''t'',
                         CHR 0x5C, CHR ''/'', CHR 0x22}) InString ps)"
| "jstep InStringEscU ps c = expect (is_hex c) InStringEscU1 ps"
| "jstep InStringEscU1 ps c = expect (is_hex c) InStringEscU12 ps"
| "jstep InStringEscU12 ps c = expect (is_hex c) InStringEscU123 ps"
| "jstep InStringEscU123 ps c = expect (is_hex c) InString ps"
| "jstep Neg ps c = (if c = CHR ''0'' then (Continue, St0, ps) else expect (is_digit c) St1 ps)"
| "jstep St1 ps c = (if is_digit c then (Continue, St1, ps) else state0 ps c)"
| "jstep St0 ps c = state0 ps c"
| "jstep Dot ps c = expect (is_digit c) Dot0 ps"
| "jstep Dot0 ps c =
     (if is_digit c then (Continue, Dot0, ps)
      else if c = CHR ''e'' \<or> c = CHR ''E'' then (Continue, StE, ps)
      else end_value ps c)"
| "jstep StE ps c = (if c = CHR ''+'' \<or> c = CHR ''-'' then (Continue, ESign, ps)
                     else expect (is_digit c) E0 ps)"
| "jstep ESign ps c = expect (is_digit c) E0 ps"
| "jstep E0 ps c = (if is_digit c then (Continue, E0, ps) else end_value ps c)"
| "jstep StT ps c = expect (c = CHR ''r'') StTr ps"
| "jstep StTr ps c = expect (c = CHR ''u'') StTru ps"
| "jstep StTru ps c = expect (c = CHR ''e'') EndValue ps"
| "jstep StF ps c = expect (c = CHR ''a'') StFa ps"
| "jstep StFa ps c = expect (c = CHR ''l'') StFal ps"
| "jstep StFal ps c = expect (c = CHR ''s'') StFals ps"
| "jstep StFals ps c = expect (c = CHR ''e'') EndValue ps"
| "jstep StN ps c = expect (c = CHR ''u'') StNu ps"
| "jstep StNu ps c = expect (c = CHR ''l'') StNul ps"
| "jstep StNul ps c = expect (c = CHR ''l'') EndValue ps"
| "jstep StError ps c = (Error, StError, ps)"

lemmas scan_defs = begin_value_def begin_string_def end_value_def end_top_def state0_def
  expect_def scan_error_def pop_state_def push_state_def

fun jscan :: "sconf \<Rightarrow> string \<Rightarrow> sconf" where
  "jscan q [] = q"
| "jscan (st, ps) (c # s) = jscan (snd (jstep st ps c)) s"

text \<open>\<^verbatim>\<open>scanner.eof\<close>: a last white-space step lets a pending number end.\<close>

definition at_eof :: "sconf \<Rightarrow> bool" where
  "at_eof q = (case q of (st, ps) \<Rightarrow>
     st = EndTop \<or> (st \<noteq> StError \<and> fst (snd (jstep st ps (CHR '' ''))) = EndTop))"

definition json_valid :: "string \<Rightarrow> bool" where
  "json_valid s = at_eof (jscan (BeginValue, []) s)"

lemma jscan_append: "jscan q (s @ t) = jscan (jscan q s) t"
  by (induction q s rule: jscan.induct) auto

lemma jscan_error [simp]: "jscan (StError, ps) s = (StError, ps)"
  by (induction s) auto

lemma at_eof_error [simp]: "\<not> at_eof (StError, ps)"
  by (simp add: at_eof_def)

text \<open>A text the scanner accepts never drove it into the error state on the way.\<close>

lemma jscan_prefix_no_error:
  "at_eof (jscan q (s @ t)) \<Longrightarrow> fst (jscan q s) \<noteq> StError"
  by (cases "jscan q s") (auto simp: jscan_append)

section \<open>Compaction\<close>

text \<open>
  \<^verbatim>\<open>json.Compact\<close>: copy every byte the scanner does not report as white space; \<open>None\<close> when
  the text is not valid (the caller then keeps the original text).
\<close>

fun compact_from :: "sconf \<Rightarrow> string \<Rightarrow> string" where
  "compact_from q [] = []"
| "compact_from (st, ps) (c # s) =
     (case jstep st ps c of (op, q) \<Rightarrow>
        if op \<in> {SkipSpace, End, Error} then compact_from q s else c # compact_from q s)"

definition json_compact :: "string \<Rightarrow> string option" where
  "json_compact s = (if json_valid s then Some (compact_from (BeginValue, []) s) else None)"

lemmas [go_std] = json_valid_def json_compact_def at_eof_def scan_defs isSpace_def is_hex_def
  is_digit_def maxNestingDepth_def

lemma json_valid_examples:
  "json_valid ''[1, -2.5e+3, [], {}, true, null]''" "json_valid '' 0 ''" "\<not> json_valid ''01''"
  "\<not> json_valid ''{1:2}''" "\<not> json_valid ''[1,]''" "\<not> json_valid []"
  "json_compact '' [ 1 , 2 ] '' = Some ''[1,2]''"
  by (simp_all add: go_std)

end
