(* ===== verification/JsonText.thy ===== *)
theory JsonText
  imports JsonScan GoStrings
begin

text \<open>
  How \<^verbatim>\<open>encoding/json\<close> writes and reads string literals: \<open>json_escape\<close> is the body of the
  literal \<^verbatim>\<open>json.Marshal\<close> writes for a Go string (HTML characters escaped, invalid UTF-8
  replaced), \<open>json_unescape\<close> the string the decoder reads from the body of a literal.
\<close>

section \<open>UTF-8\<close>

definition is_cont :: "char \<Rightarrow> bool" where
  "is_cont c \<longleftrightarrow> 128 \<le> byte c \<and> byte c \<le> 191"

text \<open>The length of the valid encoding at the head of a string, \<open>0\<close> when there is none.\<close>

definition rune_len :: "string \<Rightarrow> nat" where
  "rune_len s = (case s of
     [] \<Rightarrow> 0
   | a # s1 \<Rightarrow>
      if byte a < 128 then 1 else (case s1 of
     [] \<Rightarrow> 0
   | b # s2 \<Rightarrow>
      if \<not> is_cont b then 0
      else if 194 \<le> byte a \<and> byte a \<le> 223 then 2 else (case s2 of
     [] \<Rightarrow> 0
   | c # s3 \<Rightarrow>
      if \<not> is_cont c then 0
      else if 224 \<le> byte a \<and> byte a \<le> 239
      then (if (byte a = 224 \<longrightarrow> 160 \<le> byte b) \<and> (byte a = 237 \<longrightarrow> byte b \<le> 159) then 3 else 0)
      else (case s3 of
     [] \<Rightarrow> 0
   | d # _ \<Rightarrow>
      if is_cont d \<and> 240 \<le> byte a \<and> byte a \<le> 244
         \<and> (byte a = 240 \<longrightarrow> 144 \<le> byte b) \<and> (byte a = 244 \<longrightarrow> byte b \<le> 143)
      then 4 else 0))))"

definition replacement :: string where
  "replacement = [CHR 0xEF, CHR 0xBF, CHR 0xBD]"

definition utf8_encode :: "nat \<Rightarrow> string" where
  "utf8_encode r =
     (if r < 128 then [char_of r]
      else if r < 2048 then [char_of (192 + r div 64), char_of (128 + r mod 64)]
      else if (55296 \<le> r \<and> r < 57344) \<or> 1114112 \<le> r then replacement
      else if r < 65536
      then [char_of (224 + r div 4096), char_of (128 + r div 64 mod 64), char_of (128 + r mod 64)]
      else [char_of (240 + r div 262144), char_of (128 + r div 4096 mod 64),
            char_of (128 + r div 64 mod 64), char_of (128 + r mod 64)])"

text \<open>A Go string with every invalid byte replaced by U+FFFD.\<close>

fun to_valid :: "string \<Rightarrow> string" where
  "to_valid [] = []"
| "to_valid (c # s) =
     (let n = rune_len (c # s) in
      if n = 0 then replacement @ to_valid s
      else take n (c # s) @ to_valid (drop (n - 1) s))"

fun valid_utf8 :: "string \<Rightarrow> bool" where
  "valid_utf8 [] = True"
| "valid_utf8 (c # s) =
     (let n = rune_len (c # s) in n \<noteq> 0 \<and> valid_utf8 (drop (n - 1) s))"

lemma rune_len_cases: "rune_len s \<in> {0, 1, 2, 3, 4}"
  by (auto simp: rune_len_def split: list.splits)

lemma rune_len_le: "rune_len s \<le> length s"
  by (auto simp: rune_len_def split: list.splits)

lemma rune_len_ascii [simp]: "byte c < 128 \<Longrightarrow> rune_len (c # s) = 1"
  by (simp add: rune_len_def)

lemma rune_len_high:
  "128 \<le> byte c \<Longrightarrow> x \<in> set (take (rune_len (c # s)) (c # s)) \<Longrightarrow> 128 \<le> byte x"
  by (auto simp: rune_len_def is_cont_def split: list.splits if_splits)

lemma to_valid_id: "valid_utf8 s \<Longrightarrow> to_valid s = s"
proof (induction s rule: valid_utf8.induct)
  case (2 c s)
  then have n: "rune_len (c # s) \<noteq> 0" and
    IH: "to_valid (drop (rune_len (c # s) - 1) s) = drop (rune_len (c # s) - 1) s"
    by (auto simp: Let_def)
  have "take (rune_len (c # s)) (c # s) @ drop (rune_len (c # s) - 1) s = c # s"
    using n by (cases "rune_len (c # s)") auto
  with n IH show ?case by (simp add: Let_def)
qed simp

section \<open>Escaping\<close>

definition bs :: char where
  "bs = CHR 0x5C"

definition dq :: char where
  "dq = CHR 0x22"

definition unicode_escape :: "nat \<Rightarrow> string" where
  "unicode_escape r =
     [bs, CHR ''u'', hexdig (r div 4096 mod 16), hexdig (r div 256 mod 16),
      hexdig (r div 16 mod 16), hexdig (r mod 16)]"

definition escape_ascii :: "char \<Rightarrow> string" where
  "escape_ascii c =
     (if c = dq \<or> c = bs then [bs, c]
      else if c = CHR 0x08 then [bs, CHR ''b'']
      else if c = CHR 0x0C then [bs, CHR ''f'']
      else if c = CHR 0x0A then [bs, CHR ''n'']
      else if c = CHR 0x0D then [bs, CHR ''r'']
      else if c = CHR 0x09 then [bs, CHR ''t'']
      else if byte c < 32 \<or> c \<in> {CHR ''<'', CHR ''>'', CHR ''&''} then unicode_escape (byte c)
      else [c])"

fun json_escape :: "string \<Rightarrow> string" where
  "json_escape [] = []"
| "json_escape (c # s) =
     (if byte c < 128 then escape_ascii c @ json_escape s
      else let n = rune_len (c # s) in
        if n = 0 then unicode_escape 65533 @ json_escape s
        else if take 3 (c # s) = utf8_encode 8232 then unicode_escape 8232 @ json_escape (drop 2 s)
        else if take 3 (c # s) = utf8_encode 8233 then unicode_escape 8233 @ json_escape (drop 2 s)
        else take n (c # s) @ json_escape (drop (n - 1) s))"

definition json_quote :: "string \<Rightarrow> string" where
  "json_quote s = [dq] @ json_escape s @ [dq]"

section \<open>Unescaping\<close>

text \<open>\<^verbatim>\<open>getu4\<close>: the four digits of a \<^verbatim>\<open>\\uXXXX\<close> at the head of a string.\<close>

definition getu4 :: "string \<Rightarrow> nat option" where
  "getu4 s = (case s of
     a # b # c # d # e # f # _ \<Rightarrow>
       if a = bs \<and> b = CHR ''u''
       then (case (hexval c, hexval d, hexval e, hexval f) of
               (Some w, Some x, Some y, Some z) \<Rightarrow> Some (4096 * w + 256 * x + 16 * y + z)
             | _ \<Rightarrow> None)
       else None
   | _ \<Rightarrow> None)"

definition is_surrogate :: "nat \<Rightarrow> bool" where
  "is_surrogate r \<longleftrightarrow> 55296 \<le> r \<and> r < 57344"

definition utf16_decode :: "nat \<Rightarrow> nat option \<Rightarrow> nat option" where
  "utf16_decode hi lo = (case lo of
     Some l \<Rightarrow> if hi < 56320 \<and> 56320 \<le> l \<and> l < 57344
               then Some ((hi - 55296) * 1024 + (l - 56320) + 65536) else None
   | None \<Rightarrow> None)"

definition simple_escape :: "char \<Rightarrow> char option" where
  "simple_escape e =
     (if e \<in> {dq, bs, CHR ''/'', CHR 0x27} then Some e
      else if e = CHR ''b'' then Some (CHR 0x08)
      else if e = CHR ''f'' then Some (CHR 0x0C)
      else if e = CHR ''n'' then Some (CHR 0x0A)
      else if e = CHR ''r'' then Some (CHR 0x0D)
      else if e = CHR ''t'' then Some (CHR 0x09)
      else None)"

definition prepend :: "string \<Rightarrow> string option \<Rightarrow> string option" where
  "prepend u r = map_option ((@) u) r"

lemma prepend_simps [simp]: "prepend u (Some t) = Some (u @ t)" "prepend u None = None"
  by (simp_all add: prepend_def)

fun json_unescape :: "string \<Rightarrow> string option" where
  "json_unescape [] = Some []"
| "json_unescape (c # s) =
     (if c = bs then (case s of
        [] \<Rightarrow> None
      | e # s' \<Rightarrow>
        if e = CHR ''u'' then (case getu4 (c # s) of
            None \<Rightarrow> None
          | Some r \<Rightarrow>
              if is_surrogate r then (case utf16_decode r (getu4 (drop 5 s)) of
                  Some q \<Rightarrow> prepend (utf8_encode q) (json_unescape (drop 11 s))
                | None \<Rightarrow> prepend replacement (json_unescape (drop 5 s)))
              else prepend (utf8_encode r) (json_unescape (drop 5 s)))
        else (case simple_escape e of
            None \<Rightarrow> None
          | Some x \<Rightarrow> prepend [x] (json_unescape s')))
      else if c = dq \<or> byte c < 32 then None
      else let n = rune_len (c # s) in
        if n = 0 then prepend replacement (json_unescape s)
        else prepend (take n (c # s)) (json_unescape (drop (n - 1) s)))"

section \<open>Escaped text inside a string literal\<close>

text \<open>
  The bytes \<open>json_escape\<close> writes never end the literal they stand in and never leave an
  escape open: read inside a string, they leave the scanner inside that string, whatever the
  text was.
\<close>

lemma is_hex_hexdig [simp]: "n < 16 \<Longrightarrow> is_hex (hexdig n)"
  by (auto simp: is_hex_def hexdig_def is_digit_def less_eq_char_def)

lemma jscan_plain:
  "(\<And>c. c \<in> set s \<Longrightarrow> c \<noteq> dq \<and> c \<noteq> bs \<and> 32 \<le> byte c) \<Longrightarrow> jscan (InString, ps) s = (InString, ps)"
  by (induction s) (auto simp: dq_def bs_def expect_def less_eq_char_def)

lemma jscan_unicode_escape: "jscan (InString, ps) (unicode_escape r) = (InString, ps)"
  by (simp add: unicode_escape_def bs_def expect_def)

lemma jscan_escape_ascii:
  "byte c < 128 \<Longrightarrow> jscan (InString, ps) (escape_ascii c) = (InString, ps)"
  by (auto simp: escape_ascii_def jscan_unicode_escape bs_def dq_def expect_def less_eq_char_def)

lemma high_byte_plain: "128 \<le> byte c \<Longrightarrow> c \<noteq> dq \<and> c \<noteq> bs \<and> 32 \<le> byte c"
  by (auto simp: dq_def bs_def)

lemma jscan_json_escape: "jscan (InString, ps) (json_escape s) = (InString, ps)"
proof (induction s rule: json_escape.induct)
  case (2 c s)
  show ?case
  proof (cases "byte c < 128")
    case True
    with 2(1) show ?thesis by (simp add: jscan_append jscan_escape_ascii)
  next
    case False
    then have "jscan (InString, ps) (take (rune_len (c # s)) (c # s)) = (InString, ps)"
      by (intro jscan_plain high_byte_plain) (auto dest: rune_len_high [rotated])
    with False 2(2-5) show ?thesis
      by (simp add: jscan_append jscan_unicode_escape Let_def)
  qed
qed simp

section \<open>Reading back what was written\<close>

lemma hexdig_nibbles:
  "4096 * (r div 4096) + 256 * (r div 256 mod 16) + 16 * (r div 16 mod 16) + r mod 16 = r"
  for r :: nat
proof -
  have "r div 256 = r div 16 div 16" "r div 4096 = r div 256 div 16"
    by (simp_all add: div_mult2_eq [symmetric])
  then show ?thesis
    using mult_div_mod_eq [of 16 r] mult_div_mod_eq [of 16 "r div 16"]
      mult_div_mod_eq [of 16 "r div 256"] by linarith
qed

lemma getu4_unicode_escape: "r < 65536 \<Longrightarrow> getu4 (unicode_escape r @ t) = Some r"
  using hexdig_nibbles [of r] by (simp add: getu4_def unicode_escape_def)

lemma unescape_unicode_escape:
  assumes "r < 65536" "\<not> is_surrogate r"
  shows "json_unescape (unicode_escape r @ t) = prepend (utf8_encode r) (json_unescape t)"
proof -
  obtain s where s: "unicode_escape r @ t = bs # CHR ''u'' # s" and d: "drop 4 s = t"
    by (simp add: unicode_escape_def)
  have g: "getu4 (bs # CHR ''u'' # s) = Some r"
    using getu4_unicode_escape [OF assms(1), of t] s by simp
  show ?thesis
    unfolding s by (simp add: g assms(2) d numeral_eq_Suc flip: d)
qed

lemma escape_ascii_cases:
  obtains "escape_ascii c = unicode_escape (byte c)"
  | x where "escape_ascii c = [bs, x]" "x \<noteq> CHR ''u''" "simple_escape x = Some c"
  | "escape_ascii c = [c]" "c \<noteq> dq" "c \<noteq> bs" "32 \<le> byte c"
  by (atomize_elim) (simp add: escape_ascii_def simple_escape_def bs_def dq_def)

lemma unescape_escape_ascii:
  assumes "byte c < 128"
  shows "json_unescape (escape_ascii c @ t) = prepend [c] (json_unescape t)"
proof (cases c rule: escape_ascii_cases)
  case 1
  then show ?thesis
    using assms unescape_unicode_escape [of "byte c" t]
    by (simp add: is_surrogate_def utf8_encode_def)
qed (use assms in simp_all)

lemma unescape_rune:
  assumes "128 \<le> byte c" "rune_len (c # s) \<noteq> 0"
  shows "json_unescape (take (rune_len (c # s)) (c # s) @ t)
         = prepend (take (rune_len (c # s)) (c # s)) (json_unescape t)"
proof -
  let ?n = "rune_len (c # s)"
  obtain m where m: "?n = Suc m" using assms(2) by (cases ?n) auto
  have le: "m \<le> length s" using rune_len_le [of "c # s"] m by simp
  have "rune_len (c # take m s @ t) = ?n"
    using assms m by (auto simp: rune_len_def split: list.splits if_splits)
  with m le show ?thesis
    using high_byte_plain [OF assms(1)] by (simp add: Let_def)
qed

lemma take_3_Cons: "take 3 (c # s) = [x, y, z] \<Longrightarrow> c = x \<and> (\<exists>s'. s = y # z # s')"
  by (cases s; cases "tl s") (auto simp: numeral_3_eq_3)

lemma rune_len_separator:
  assumes "take 3 (c # s) = utf8_encode r" "r \<in> {8232, 8233}"
  shows "rune_len (c # s) = 3" "utf8_encode r @ drop 2 s = c # s"
proof -
  have "utf8_encode r = [char_of (226::nat), char_of (128::nat), char_of (r - 8064)]"
    using assms(2) by (auto simp: utf8_encode_def)
  with assms take_3_Cons [of c s] obtain s' where
    "c = char_of (226::nat)" "s = char_of (128::nat) # char_of (r - 8064) # s'"
    and u: "utf8_encode r = [char_of (226::nat), char_of (128::nat), char_of (r - 8064)]"
    by metis
  then show "rune_len (c # s) = 3" "utf8_encode r @ drop 2 s = c # s"
    using assms(2) by (auto simp: rune_len_def is_cont_def)
qed

lemma utf8_encode_replacement: "utf8_encode 65533 = replacement"
  by (simp add: utf8_encode_def replacement_def char_of_def bit_0)

lemma utf8_encode_separators: "utf8_encode 8232 \<noteq> utf8_encode 8233"
  by (simp add: utf8_encode_def char_of_def bit_0)

text \<open>The decoder reads back the string that was written, invalid bytes replaced.\<close>

lemma json_unescape_escape: "json_unescape (json_escape s) = Some (to_valid s)"
proof (induction s rule: json_escape.induct)
  case (2 c s)
  let ?n = "rune_len (c # s)"
  show ?case
  proof (cases "byte c < 128")
    case True
    with 2(1) show ?thesis by (simp add: unescape_escape_ascii)
  next
    case False
    note IH = 2(2-5) [OF False refl]
    consider "?n = 0" | r where "?n \<noteq> 0" "take 3 (c # s) = utf8_encode r" "r \<in> {8232, 8233}"
      | "?n \<noteq> 0" "take 3 (c # s) \<noteq> utf8_encode 8232" "take 3 (c # s) \<noteq> utf8_encode 8233"
      by blast
    then show ?thesis
    proof cases
      case 1
      with False IH(1) have "json_unescape (json_escape (c # s))
          = prepend (utf8_encode 65533) (Some (to_valid s))"
        by (simp add: Let_def unescape_unicode_escape is_surrogate_def)
      with 1 show ?thesis by (simp add: utf8_encode_replacement Let_def)
    next
      case (2 r)
      note sep = rune_len_separator [OF 2(2,3)]
      have "json_escape (c # s) = unicode_escape r @ json_escape (drop 2 s)"
        using False 2 utf8_encode_separators by (auto simp: Let_def)
      moreover have "json_unescape (json_escape (drop 2 s)) = Some (to_valid (drop 2 s))"
        using 2 IH by (cases "take 3 (c # s) = utf8_encode 8232") auto
      ultimately have "json_unescape (json_escape (c # s))
          = Some (utf8_encode r @ to_valid (drop 2 s))"
        using 2(3) unescape_unicode_escape [of r] by (auto simp: is_surrogate_def)
      then show ?thesis using 2 sep(1) by (simp add: Let_def numeral_2_eq_2)
    next
      case 3
      with False IH(4) show ?thesis by (simp add: Let_def unescape_rune)
    qed
  qed
qed simp

lemma json_unescape_valid: "valid_utf8 s \<Longrightarrow> json_unescape (json_escape s) = Some s"
  by (simp add: json_unescape_escape to_valid_id)

end
