(* ===== verification/JsonValue.thy ===== *)
theory JsonValue
  imports JsonText
begin

text \<open>
  Values of JSON documents, \<^verbatim>\<open>json.Unmarshal\<close> and \<^verbatim>\<open>json.Marshal\<close>. The decoder is the
  scanner of \<open>JsonScan\<close> with a stack of half-built values beside it: every op code of the
  scanner is one action of the builder. A Go \<^verbatim>\<open>map[string]any\<close> is the list of its bindings
  sorted by key; numbers keep their text.
\<close>

section \<open>Values\<close>

datatype json =
  JNull
| JBool bool
| JNum string
| JStr string
| JArr "json list"
| JObj "(string \<times> json) list"

section \<open>The decoder\<close>

datatype pending = NoVal | Lit string | Val json

datatype frame =
  FArr "json list"
| FObj "(string \<times> json) list" "string option"

definition literal_value :: "string \<Rightarrow> json option" where
  "literal_value b = (case b of
     [] \<Rightarrow> None
   | c # r \<Rightarrow>
       if c = dq then map_option JStr (json_unescape (butlast r))
       else if c = CHR ''n'' then Some JNull
       else if c = CHR ''t'' then Some (JBool True)
       else if c = CHR ''f'' then Some (JBool False)
       else Some (JNum b))"

fun pending_value :: "pending \<Rightarrow> json option" where
  "pending_value NoVal = None"
| "pending_value (Lit b) = literal_value b"
| "pending_value (Val v) = Some v"

type_synonym builder = "frame list \<times> pending"

fun act :: "scode \<Rightarrow> char \<Rightarrow> builder \<Rightarrow> builder option" where
  "act BeginLiteral c (fs, p) = Some (fs, Lit [c])"
| "act Continue c (fs, Lit b) = Some (fs, Lit (b @ [c]))"
| "act SkipSpace c b = Some b"
| "act End c b = Some b"
| "act BeginObject c (fs, p) = Some (FObj [] None # fs, NoVal)"
| "act BeginArray c (fs, p) = Some (FArr [] # fs, NoVal)"
| "act ObjectKey c (FObj m None # fs, p) =
     (case pending_value p of Some (JStr k) \<Rightarrow> Some (FObj m (Some k) # fs, NoVal) | _ \<Rightarrow> None)"
| "act ObjectValue c (FObj m (Some k) # fs, p) =
     map_option (\<lambda>v. (FObj (put k v m) None # fs, NoVal)) (pending_value p)"
| "act EndObject c (FObj m None # fs, NoVal) = Some (fs, Val (JObj m))"
| "act EndObject c (FObj m (Some k) # fs, p) =
     map_option (\<lambda>v. (fs, Val (JObj (put k v m)))) (pending_value p)"
| "act ArrayValue c (FArr vs # fs, p) =
     map_option (\<lambda>v. (FArr (vs @ [v]) # fs, NoVal)) (pending_value p)"
| "act EndArray c (FArr vs # fs, NoVal) = Some (fs, Val (JArr vs))"
| "act EndArray c (FArr vs # fs, p) =
     map_option (\<lambda>v. (fs, Val (JArr (vs @ [v])))) (pending_value p)"
| "act _ c b = None"

fun build :: "sconf \<Rightarrow> builder \<Rightarrow> string \<Rightarrow> (sconf \<times> builder) option" where
  "build q b [] = Some (q, b)"
| "build (st, ps) b (c # s) =
     (case jstep st ps c of (op, q) \<Rightarrow>
        (case act op c b of None \<Rightarrow> None | Some b' \<Rightarrow> build q b' s))"

definition json_decode :: "string \<Rightarrow> json option" where
  "json_decode s =
     (if json_valid s
      then (case build (BeginValue, []) ([], NoVal) s of
              None \<Rightarrow> None | Some (q, fs, p) \<Rightarrow> pending_value p)
      else None)"

section \<open>The encoder\<close>

fun json_marshal :: "json \<Rightarrow> string"
  and marshal_items :: "json list \<Rightarrow> string list"
  and marshal_fields :: "(string \<times> json) list \<Rightarrow> string list"
where
  "json_marshal JNull = ''null''"
| "json_marshal (JBool b) = (if b then ''true'' else ''false'')"
| "json_marshal (JNum n) = n"
| "json_marshal (JStr s) = json_quote s"
| "json_marshal (JArr vs) = ''['' @ join '','' (marshal_items vs) @ '']''"
| "json_marshal (JObj m) = ''{'' @ join '','' (marshal_fields m) @ ''}''"
| "marshal_items [] = []"
| "marshal_items (v # vs) = json_marshal v # marshal_items vs"
| "marshal_fields [] = []"
| "marshal_fields ((k, v) # m) = (json_quote k @ '':'' @ json_marshal v) # marshal_fields m"

lemma json_decode_examples:
  "json_decode ''[1, true]'' = Some (JArr [JNum ''1'', JBool True])"
  "json_marshal (JArr [JNum ''1'', JObj [(''a'', JNull)]]) = ''[1,{'' @ json_quote ''a'' @ '':null}]''"
  by (simp_all add: json_decode_def literal_value_def dq_def go_std)

section \<open>The decoder returns a value for every valid text\<close>

lemma jscan_after_end:
  "fst q \<in> {EndValue, EndTop, StError} \<Longrightarrow> snd q = [] \<Longrightarrow>
   fst (jscan q s) \<in> {EndValue, EndTop, StError}"
proof (induction q s rule: jscan.induct)
  case (2 st ps c s)
  have "fst (snd (jstep st ps c)) \<in> {EndValue, EndTop, StError} \<and> snd (snd (jstep st ps c)) = []"
    using 2(2,3) by (auto simp: end_value_def end_top_def split: if_splits)
  with 2(1) show ?case by simp
qed auto

text \<open>Inside a string the stack plays no part.\<close>

definition in_string :: "sstate set" where
  "in_string = {InString, InStringEsc, InStringEscU, InStringEscU1, InStringEscU12, InStringEscU123}"

lemma jstep_in_string:
  "st \<in> in_string \<Longrightarrow> fst (snd (jstep st ps c)) \<in> in_string \<Longrightarrow>
   jstep st ps c = (Continue, fst (snd (jstep st [] c)), ps)
   \<and> jstep st [] c = (Continue, fst (snd (jstep st [] c)), [])"
  by (auto simp: in_string_def expect_def scan_error_def split: if_splits)

lemma jscan_hex4:
  assumes "jscan (InStringEscU, []) s = (InString, [])"
  obtains w x y z r where "s = w # x # y # z # r" "is_hex w" "is_hex x" "is_hex y" "is_hex z"
    "jscan (InString, []) r = (InString, [])"
proof -
  have step: "\<exists>c r. s = c # r \<and> is_hex c \<and> jscan (st', []) r = (InString, [])"
    if "jscan (st, []) s = (InString, [])" "st \<noteq> InString"
      "\<And>c. jstep st [] c = expect (is_hex c) st' []" for st st' s
    using that by (cases s) (auto simp: expect_def scan_error_def split: if_splits)
  from step [OF assms, of InStringEscU1] obtain w r1 where
    1: "s = w # r1" "is_hex w" "jscan (InStringEscU1, []) r1 = (InString, [])" by auto
  from step [OF 1(3), of InStringEscU12] obtain x r2 where
    2: "r1 = x # r2" "is_hex x" "jscan (InStringEscU12, []) r2 = (InString, [])" by auto
  from step [OF 2(3), of InStringEscU123] obtain y r3 where
    3: "r2 = y # r3" "is_hex y" "jscan (InStringEscU123, []) r3 = (InString, [])" by auto
  from step [OF 3(3), of InString] obtain z r where
    4: "r3 = z # r" "is_hex z" "jscan (InString, []) r = (InString, [])" by auto
  show thesis using that 1 2 3 4 by simp
qed

lemma is_hex_hexval: "is_hex c \<longleftrightarrow> (\<exists>v. hexval c = Some v)"
  by (auto simp: is_hex_def hexval_def)

lemma jscan_rune:
  assumes "c \<noteq> bs" "c \<noteq> dq" "\<not> byte c < 32"
  shows "jscan (InString, ps) (c # s) = jscan (InString, ps) (drop (rune_len (c # s) - 1) s)"
proof -
  let ?n = "rune_len (c # s)"
  have "c # s = (c # take (?n - 1) s) @ drop (?n - 1) s" by simp
  moreover have "jscan (InString, ps) (c # take (?n - 1) s) = (InString, ps)"
  proof (rule jscan_plain)
    fix x assume x: "x \<in> set (c # take (?n - 1) s)"
    show "x \<noteq> dq \<and> x \<noteq> bs \<and> 32 \<le> byte x"
    proof (cases "byte c < 128")
      case True
      then show ?thesis using x assms by auto
    next
      case False
      then have "128 \<le> byte x"
        using x rune_len_high [of c x s] by (cases ?n) auto
      then show ?thesis by (rule high_byte_plain)
    qed
  qed
  ultimately show ?thesis by (metis jscan_append)
qed

lemma jscan_escaped:
  assumes "jscan (InStringEsc, []) (e # s) = (InString, [])" "e \<noteq> CHR ''u''"
  shows "\<exists>x. simple_escape e = Some x" "jscan (InString, []) s = (InString, [])"
  using assms
  by (auto simp: expect_def scan_error_def simple_escape_def dq_def bs_def split: if_splits)

text \<open>A string literal the scanner closed can be unescaped.\<close>

lemma json_unescape_total:
  "jscan (InString, []) b = (InString, []) \<Longrightarrow> \<exists>t. json_unescape b = Some t"
proof (induction b rule: json_unescape.induct)
  case (2 c s)
  have "c = bs \<or> (c \<noteq> bs \<and> c \<noteq> dq \<and> \<not> byte c < 32)"
    using "2.prems" jscan_after_end [of "(EndValue, [])" s]
    by (auto simp: bs_def dq_def expect_def scan_error_def less_eq_char_def split: if_splits)
  then consider (esc) "c = bs" | (plain) "c \<noteq> bs" "c \<noteq> dq" "\<not> byte c < 32"
    by blast
  then show ?case
  proof cases
    case esc
    have esc_scan: "jscan (InStringEsc, []) s = (InString, [])"
      using "2.prems" esc by (simp add: bs_def)
    then obtain e s' where s: "s = e # s'" by (cases s) auto
    show ?thesis
    proof (cases "e = CHR ''u''")
      case True
      with esc_scan s have "jscan (InStringEscU, []) s' = (InString, [])" by simp
      then obtain w x y z r where h: "s' = w # x # y # z # r" "is_hex w" "is_hex x" "is_hex y" "is_hex z"
        and r: "jscan (InString, []) r = (InString, [])" by (rule jscan_hex4)
      obtain u where g: "getu4 (c # s) = Some u"
        using h s True esc by (auto simp: getu4_def is_hex_hexval)
      have d5: "drop 5 s = r" using h s by simp
      show ?thesis
      proof (cases "is_surrogate u \<and> utf16_decode u (getu4 r) \<noteq> None")
        case True
        then obtain q where q: "utf16_decode u (getu4 r) = Some q" by auto
        then obtain l where "getu4 r = Some l" by (auto simp: utf16_decode_def split: option.splits)
        then obtain w' x' y' z' r' where r': "r = bs # CHR ''u'' # w' # x' # y' # z' # r'"
          by (auto simp: getu4_def split: list.splits if_splits option.splits)
        then have "jscan (InStringEscU, []) (w' # x' # y' # z' # r') = (InString, [])"
          using r by (simp add: bs_def)
        then have "jscan (InString, []) r' = (InString, [])"
          by (rule jscan_hex4) simp
        moreover have d11: "drop 11 s = r'" using h s r' by simp
        ultimately obtain t where t: "json_unescape (drop 11 s) = Some t"
          using "2.IH"(2) [OF esc s \<open>e = CHR ''u''\<close> g True [THEN conjunct1]] q d5 by auto
        have "json_unescape (c # s) = prepend (utf8_encode q) (json_unescape (drop 11 s))"
          using True q esc s g \<open>e = CHR ''u''\<close> unfolding d5 [symmetric] by simp
        with t show ?thesis by simp
      next
        case False
        then show ?thesis
          using "2.IH"(1,3) [OF esc s \<open>e = CHR ''u''\<close> g] r d5 esc s g \<open>e = CHR ''u''\<close> by auto
      qed
    next
      case False
      with esc_scan s jscan_escaped [of e s'] obtain x where
        "simple_escape e = Some x" "jscan (InString, []) s' = (InString, [])" by auto
      then show ?thesis using "2.IH"(4) [OF esc s False] False esc s by auto
    qed
  next
    case plain
    then have "jscan (InString, []) (drop (rune_len (c # s) - 1) s) = (InString, [])"
      using "2.prems" jscan_rune [of c "[]" s] by simp
    with "2.IH"(5,6) [OF plain(1) _ refl] plain show ?thesis
      by (cases "rune_len (c # s) = 0") (auto simp: Let_def)
  qed
qed simp

text \<open>
  The builder's stack mirrors the scanner's, and what is pending is what the scanner's state
  says: nothing before a value, the text of a literal inside one, a value after one (a string
  where an object key is due).
\<close>

fun frame_matches :: "pstate \<Rightarrow> frame \<Rightarrow> bool" where
  "frame_matches ParseArrayValue (FArr vs) = True"
| "frame_matches ParseObjectKey (FObj m None) = True"
| "frame_matches ParseObjectValue (FObj m (Some k)) = True"
| "frame_matches _ _ = False"

definition key_due :: "pstate list \<Rightarrow> bool" where
  "key_due ps \<longleftrightarrow> (\<exists>ps'. ps = ParseObjectKey # ps')"

definition has_value :: "pstate list \<Rightarrow> pending \<Rightarrow> bool" where
  "has_value ps p \<longleftrightarrow> (\<exists>v. pending_value p = Some v \<and> (key_due ps \<longrightarrow> (\<exists>k. v = JStr k)))"

definition word_pending :: "pstate list \<Rightarrow> pending \<Rightarrow> bool" where
  "word_pending ps p \<longleftrightarrow> \<not> key_due ps \<and> (\<exists>c b. p = Lit (c # b) \<and> c \<noteq> dq)"

fun pending_ok :: "sstate \<Rightarrow> pstate list \<Rightarrow> pending \<Rightarrow> bool" where
  "pending_ok BeginValue ps p \<longleftrightarrow> p = NoVal \<and> \<not> key_due ps"
| "pending_ok BeginValueOrEmpty ps p \<longleftrightarrow> p = NoVal \<and> (\<exists>ps'. ps = ParseArrayValue # ps')"
| "pending_ok BeginString ps p \<longleftrightarrow> p = NoVal \<and> key_due ps"
| "pending_ok BeginStringOrEmpty ps p \<longleftrightarrow> p = NoVal \<and> key_due ps"
| "pending_ok EndValue ps p \<longleftrightarrow> has_value ps p"
| "pending_ok EndTop ps p \<longleftrightarrow> ps = [] \<and> has_value [] p"
| "pending_ok StError ps p \<longleftrightarrow> True"
| "pending_ok st ps p \<longleftrightarrow>
     (if st \<in> in_string then \<exists>b. p = Lit (dq # b) \<and> jscan (InString, []) b = (st, [])
      else word_pending ps p)"

lemma in_string_simps [simp]:
  "InString \<in> in_string" "InStringEsc \<in> in_string" "InStringEscU \<in> in_string"
  "InStringEscU1 \<in> in_string" "InStringEscU12 \<in> in_string" "InStringEscU123 \<in> in_string"
  "st \<in> {BeginValue, BeginValueOrEmpty, BeginString, BeginStringOrEmpty, EndValue, EndTop, Neg, St1,
     St0, Dot, Dot0, StE, ESign, E0, StT, StTr, StTru, StF, StFa, StFal, StFals, StN, StNu, StNul,
     StError} \<Longrightarrow> st \<notin> in_string"
  by (auto simp: in_string_def)

lemma pending_ok_string:
  "st \<in> in_string \<Longrightarrow> pending_ok st ps p \<longleftrightarrow> (\<exists>b. p = Lit (dq # b) \<and> jscan (InString, []) b = (st, []))"
  by (auto simp: in_string_def)

definition coupled :: "sstate \<Rightarrow> pstate list \<Rightarrow> builder \<Rightarrow> bool" where
  "coupled st ps b \<longleftrightarrow> list_all2 frame_matches ps (fst b) \<and> ParseObjectKey \<notin> set (tl ps)
     \<and> pending_ok st ps (snd b)"

lemma word_has_value: "word_pending ps p \<Longrightarrow> has_value ps p"
  by (auto simp: word_pending_def has_value_def literal_value_def)

lemma frame_matches_inv:
  "frame_matches ParseArrayValue f \<longleftrightarrow> (\<exists>vs. f = FArr vs)"
  "frame_matches ParseObjectKey f \<longleftrightarrow> (\<exists>m. f = FObj m None)"
  "frame_matches ParseObjectValue f \<longleftrightarrow> (\<exists>m k. f = FObj m (Some k))"
  by (cases f; simp; case_tac x22; simp)+

lemma not_key_due_tl: "ParseObjectKey \<notin> set (tl (p # ps)) \<Longrightarrow> \<not> key_due ps"
  by (auto simp: key_due_def)

lemma EndArray_act:
  "pending_value p = Some v \<Longrightarrow> act EndArray c (FArr vs # fs, p) = Some (fs, Val (JArr (vs @ [v])))"
  by (cases p) auto

lemma end_value_coupled:
  assumes "list_all2 frame_matches ps fs" "ParseObjectKey \<notin> set (tl ps)" "has_value ps p"
    "end_value ps c = (op, st', ps')" "st' \<noteq> StError"
  shows "\<exists>b. act op c (fs, p) = Some b \<and> coupled st' ps' b"
proof (cases ps)
  case Nil
  with assms show ?thesis
    by (auto simp: end_value_def end_top_def coupled_def split: if_splits)
next
  case (Cons q ps1)
  from assms(1) Cons obtain f fs1 where fs: "fs = f # fs1" "frame_matches q f"
    "list_all2 frame_matches ps1 fs1" by (auto simp: list_all2_Cons1)
  from assms(2) Cons have nk: "\<not> key_due ps1" "ParseObjectKey \<notin> set (tl ps1)"
    by (cases ps1; auto simp: key_due_def)+
  obtain v where v: "pending_value p = Some v" "key_due ps \<longrightarrow> (\<exists>k. v = JStr k)"
    using assms(3) by (auto simp: has_value_def)
  show ?thesis
    using assms(2-5) Cons fs nk v
    by (cases q) (auto simp: end_value_def scan_error_def pop_state_def coupled_def EndArray_act
        has_value_def frame_matches_inv key_due_def split: if_splits)
qed

lemmas begin_defs = begin_value_def begin_string_def scan_error_def push_state_def expect_def

lemma begin_value_coupled:
  assumes "list_all2 frame_matches ps fs" "ParseObjectKey \<notin> set (tl ps)" "\<not> key_due ps"
    "begin_value ps st c = (op, st', ps')" "st' \<noteq> StError" "pending_ok st ps NoVal"
  shows "\<exists>b. act op c (fs, NoVal) = Some b \<and> coupled st' ps' b"
proof -
  have "ParseObjectKey \<notin> set ps" using assms(2,3) by (cases ps) (auto simp: key_due_def)
  with assms show ?thesis
    by (auto simp: begin_defs coupled_def word_pending_def key_due_def dq_def split: if_splits)
qed

lemma begin_string_coupled:
  assumes "list_all2 frame_matches ps fs" "ParseObjectKey \<notin> set (tl ps)"
    "begin_string ps st c = (op, st', ps')" "st' \<noteq> StError" "pending_ok st ps NoVal"
  shows "\<exists>b. act op c (fs, NoVal) = Some b \<and> coupled st' ps' b"
  using assms
  by (auto simp: begin_defs coupled_def dq_def split: if_splits)

lemma string_closed:
  assumes "jscan (InString, []) b = (InString, [])"
  shows "has_value ps (Lit (dq # b @ [dq]))"
  using json_unescape_total [OF assms] by (auto simp: has_value_def literal_value_def)

lemma in_string_coupled:
  assumes "list_all2 frame_matches ps fs" "ParseObjectKey \<notin> set (tl ps)" "st \<in> in_string"
    "jscan (InString, []) b = (st, [])" "jstep st ps c = (op, st', ps')" "st' \<noteq> StError"
  shows "\<exists>b'. act op c (fs, Lit (dq # b)) = Some b' \<and> coupled st' ps' b'"
proof (cases "st' \<in> in_string")
  case True
  with assms jstep_in_string [of st ps c]
  have "op = Continue" "ps' = ps" "jstep st [] c = (Continue, st', [])" by auto
  with assms(1,2,4) True show ?thesis
    by (auto simp: coupled_def pending_ok_string jscan_append)
next
  case False
  with assms(3,5,6) have "st = InString" "c = dq" "op = Continue" "st' = EndValue" "ps' = ps"
    by (auto simp: in_string_def expect_def scan_error_def dq_def split: if_splits)
  with assms(1,2,4) string_closed show ?thesis
    by (auto simp: coupled_def)
qed

lemma word_coupled:
  assumes "list_all2 frame_matches ps fs" "ParseObjectKey \<notin> set (tl ps)" "word_pending ps p"
    "st' \<notin> in_string \<union> {BeginValue, BeginValueOrEmpty, BeginString, BeginStringOrEmpty, EndTop}"
  shows "\<exists>b. act Continue c (fs, p) = Some b \<and> coupled st' ps b"
proof -
  obtain d b where p: "p = Lit (d # b)" "d \<noteq> dq" "\<not> key_due ps"
    using assms(3) by (auto simp: word_pending_def)
  then have "word_pending ps (Lit (d # b @ [c]))" by (auto simp: word_pending_def)
  with p assms word_has_value [OF this] show ?thesis
    by (cases st') (auto simp: coupled_def)
qed

text \<open>A closing bracket right after the opening one.\<close>

lemma empty_container_coupled:
  assumes "list_all2 frame_matches ps fs" "ParseObjectKey \<notin> set (tl ps)"
    "st = BeginValueOrEmpty \<and> c = CHR '']'' \<or> st = BeginStringOrEmpty \<and> c = CHR ''}''"
    "pending_ok st ps NoVal" "jstep st ps c = (op, st', ps')"
  shows "\<exists>b. act op c (fs, NoVal) = Some b \<and> coupled st' ps' b"
proof -
  have "\<not> isSpace c" using assms(3) by (auto simp: isSpace_def)
  then show ?thesis
    using assms by (cases ps)
      (auto simp: end_value_def pop_state_def coupled_def has_value_def key_due_def
        list_all2_Cons1 frame_matches_inv dest: in_set_tlD split: if_splits)
qed

lemma step_coupled:
  assumes "coupled st ps (fs, p)" "jstep st ps c = (op, st', ps')" "st' \<noteq> StError"
  shows "\<exists>b. act op c (fs, p) = Some b \<and> coupled st' ps' b"
proof -
  have co: "list_all2 frame_matches ps fs" "ParseObjectKey \<notin> set (tl ps)" "pending_ok st ps p"
    using assms(1) by (auto simp: coupled_def)
  note ev = end_value_coupled [OF co(1,2) _ _ assms(3)]
  note bv = begin_value_coupled [OF co(1,2) _ _ assms(3)]
  note bst = begin_string_coupled [OF co(1,2) _ assms(3)]
  have word: ?thesis if w: "word_pending ps p" and
    st: "st \<in> {Neg, St1, St0, Dot, Dot0, StE, ESign, E0, StT, StTr, StTru, StF, StFa, StFal, StFals,
          StN, StNu, StNul}"
    using st word_has_value [OF w] ev word_coupled [OF co(1,2) w] assms(2,3)
    by (auto simp: expect_def scan_error_def state0_def split: if_splits)
  show ?thesis
  proof (cases "st \<in> in_string")
    case True
    then obtain b where "p = Lit (dq # b)" "jscan (InString, []) b = (st, [])"
      using co(3) by (auto simp: pending_ok_string)
    with in_string_coupled [OF co(1,2) True _ assms(2,3)] show ?thesis by simp
  next
    case False
    note empty = empty_container_coupled [OF co(1,2) _ _ assms(2)]
    consider "st = BeginValueOrEmpty \<and> c = CHR '']'' \<or> st = BeginStringOrEmpty \<and> c = CHR ''}''"
      | "st = BeginValueOrEmpty" "c \<noteq> CHR '']''" | "st = BeginStringOrEmpty" "c \<noteq> CHR ''}''"
      | "st \<noteq> BeginValueOrEmpty" "st \<noteq> BeginStringOrEmpty" by auto
    then show ?thesis
    proof cases
      case 1
      with co(3) empty show ?thesis by auto
    next
      case 2
      with co(3) bv [of BeginValueOrEmpty] assms(2) show ?thesis
        by (auto simp: key_due_def)
    next
      case 3
      with co(3) bst [of BeginStringOrEmpty] assms(2) show ?thesis by auto
    next
      case 4
      show ?thesis
      proof (cases "st \<in> {BeginValue, BeginString, EndValue, EndTop, StError}")
        case True
        with co(3) bv [of BeginValue] bst [of BeginString] ev [of p] assms(2,3) show ?thesis
          by (auto simp: end_value_def)
      next
        case False
        with 4 \<open>st \<notin> in_string\<close> co(3) word show ?thesis by (cases st) auto
      qed
    qed
  qed
qed

lemma build_coupled:
  "coupled (fst q) (snd q) b \<Longrightarrow> fst (jscan q s) \<noteq> StError \<Longrightarrow>
   \<exists>b'. build q b s = Some (jscan q s, b') \<and> coupled (fst (jscan q s)) (snd (jscan q s)) b'"
proof (induction q b s rule: build.induct)
  case (2 st ps b c s)
  obtain op st' ps' where step: "jstep st ps c = (op, st', ps')" by (metis prod.exhaust)
  have "st' \<noteq> StError" using 2(3) step by auto
  then obtain b' where "act op c b = Some b'" "coupled st' ps' b'"
    using step_coupled [of st ps "fst b" "snd b" c op st' ps'] 2(2) step by auto
  with 2 step show ?case by simp
qed auto

text \<open>The states in which the scanner has read a complete value.\<close>

definition complete :: "pstate list \<Rightarrow> sstate \<Rightarrow> bool" where
  "complete ps st \<longleftrightarrow> st \<in> {EndValue, St1, St0, Dot0, E0} \<or> (st = EndTop \<and> ps = [])"

lemma at_eof_complete: "at_eof (st, ps) \<longleftrightarrow> ps = [] \<and> complete ps st \<or> st = EndTop"
  by (cases st; cases ps)
    (auto simp: at_eof_def complete_def scan_defs isSpace_def is_digit_def is_hex_def split: pstate.splits)

lemma json_decode_total: "json_valid s \<longleftrightarrow> (\<exists>v. json_decode s = Some v)"
proof
  assume v: "json_valid s"
  obtain st ps where q: "jscan (BeginValue, []) s = (st, ps)" by (metis prod.exhaust)
  have c0: "coupled BeginValue [] ([], NoVal)" by (simp add: coupled_def key_due_def)
  have ok: "at_eof (st, ps)" using v q by (simp add: json_valid_def)
  then obtain fs p where b: "build (BeginValue, []) ([], NoVal) s = Some ((st, ps), fs, p)"
    "coupled st ps (fs, p)"
    using build_coupled [of "(BeginValue, [])" "([], NoVal)" s] c0 q at_eof_error by fastforce
  have "complete ps st" "ps = []"
    using ok b(2) by (auto simp: at_eof_complete coupled_def complete_def)
  then have "has_value [] p"
    using b(2) by (auto simp: complete_def coupled_def word_has_value)
  with v b show "\<exists>v. json_decode s = Some v"
    by (auto simp: json_decode_def has_value_def)
qed (auto simp: json_decode_def split: if_splits)

end
