(* ===== verification/JsonCodec.thy ===== *)
theory JsonCodec
  imports JsonValue
begin

text \<open>
  The encoder and the decoder together: what \<^verbatim>\<open>json.Marshal\<close> writes is valid and decodes to
  the value it was given; what the decoder returns is well formed and nested no deeper than
  the scanner allows; \<^verbatim>\<open>json.Compact\<close> changes neither validity nor the decoded value.
\<close>

section \<open>Well-formed values\<close>

definition json_number :: "string \<Rightarrow> bool" where
  "json_number l \<longleftrightarrow> l \<noteq> [] \<and> (hd l = CHR ''-'' \<or> is_digit (hd l))
     \<and> fst (jscan (BeginValue, []) l) \<in> {St1, St0, Dot0, E0}"

text \<open>\<open>N\<close> says which number texts are allowed.\<close>

fun wf_json :: "(string \<Rightarrow> bool) \<Rightarrow> json \<Rightarrow> bool"
  and wf_items :: "(string \<Rightarrow> bool) \<Rightarrow> json list \<Rightarrow> bool"
  and wf_fields :: "(string \<Rightarrow> bool) \<Rightarrow> (string \<times> json) list \<Rightarrow> bool"
where
  "wf_json N (JNum l) = N l"
| "wf_json N (JStr s) = valid_utf8 s"
| "wf_json N (JArr vs) = wf_items N vs"
| "wf_json N (JObj m) = (keys_sorted m \<and> wf_fields N m)"
| "wf_json N JNull = True"
| "wf_json N (JBool b) = True"
| "wf_items N [] = True"
| "wf_items N (v # vs) = (wf_json N v \<and> wf_items N vs)"
| "wf_fields N [] = True"
| "wf_fields N ((k, v) # m) = (valid_utf8 k \<and> wf_json N v \<and> wf_fields N m)"

fun jdepth :: "json \<Rightarrow> nat"
  and items_depth :: "json list \<Rightarrow> nat"
  and fields_depth :: "(string \<times> json) list \<Rightarrow> nat"
where
  "jdepth (JArr vs) = Suc (items_depth vs)"
| "jdepth (JObj m) = Suc (fields_depth m)"
| "jdepth _ = 0"
| "items_depth [] = 0"
| "items_depth (v # vs) = max (jdepth v) (items_depth vs)"
| "fields_depth [] = 0"
| "fields_depth ((k, v) # m) = max (jdepth v) (fields_depth m)"

lemma wf_items_iff: "wf_items N vs \<longleftrightarrow> (\<forall>v \<in> set vs. wf_json N v)"
  by (induction vs) auto

lemma wf_fields_iff: "wf_fields N m \<longleftrightarrow> (\<forall>(k, v) \<in> set m. valid_utf8 k \<and> wf_json N v)"
  by (induction m) auto

lemma items_depth_le: "items_depth vs \<le> n \<longleftrightarrow> (\<forall>v \<in> set vs. jdepth v \<le> n)"
  by (induction vs) auto

lemma fields_depth_le: "fields_depth m \<le> n \<longleftrightarrow> (\<forall>(k, v) \<in> set m. jdepth v \<le> n)"
  by (induction m) auto

section \<open>Running the decoder over encoded text\<close>

lemma build_append:
  "build q b (s @ t) = (case build q b s of None \<Rightarrow> None | Some (q', b') \<Rightarrow> build q' b' t)"
  by (induction q b s rule: build.induct) (auto split: prod.splits option.splits)

lemma jstep_string_stack:
  "st \<in> in_string \<Longrightarrow> jstep st ps c = (fst (jstep st [] c), fst (snd (jstep st [] c)), ps)"
  by (auto simp: in_string_def expect_def scan_error_def)

lemma jstep_string_out:
  "st \<in> in_string \<Longrightarrow>
   (\<exists>st' \<in> in_string. jstep st [] c = (Continue, st', []))
   \<or> snd (jstep st [] c) \<in> {(EndValue, []), (StError, [])}"
  by (cases st) (simp_all add: in_string_def expect_def scan_error_def)

lemma build_in_string:
  "st \<in> in_string \<Longrightarrow> jscan (st, []) s = (st', []) \<Longrightarrow> st' \<in> in_string \<Longrightarrow>
   build (st, ps) (fs, Lit b) s = Some ((st', ps), fs, Lit (b @ s))"
proof (induction s arbitrary: st b)
  case (Cons c s)
  from jstep_string_out [OF Cons.prems(1), of c] show ?case
  proof
    assume "\<exists>st1 \<in> in_string. jstep st [] c = (Continue, st1, [])"
    then obtain st1 where "st1 \<in> in_string" "jstep st [] c = (Continue, st1, [])" by auto
    then show ?thesis
      using Cons.IH [of st1 "b @ [c]"] Cons.prems jstep_string_stack [OF Cons.prems(1), of ps c] by simp
  next
    assume "snd (jstep st [] c) \<in> {(EndValue, []), (StError, [])}"
    with jscan_after_end [of "snd (jstep st [] c)" s] Cons.prems(2,3) show ?thesis
      by (auto simp: in_string_def)
  qed
qed simp

lemma build_quote:
  assumes "st \<in> {BeginValue, BeginValueOrEmpty, BeginString, BeginStringOrEmpty}"
  shows "build (st, ps) (fs, p) (json_quote s) = Some ((EndValue, ps), fs, Lit (json_quote s))"
proof -
  have "jstep st ps dq = (BeginLiteral, InString, ps)"
    using assms by (elim insertE) (simp_all add: begin_value_def begin_string_def dq_def isSpace_def)
  then have 1: "build (st, ps) (fs, p) (dq # t) = build (InString, ps) (fs, Lit [dq]) t" for t
    by (simp only: build.simps act.simps prod.case option.case)
  have 2: "build (InString, ps) (fs, Lit [dq]) (json_escape s)
      = Some ((InString, ps), fs, Lit ([dq] @ json_escape s))"
    by (rule build_in_string) (simp_all add: jscan_json_escape in_string_def)
  have 3: "build (InString, ps) (fs, Lit b) [dq] = Some ((EndValue, ps), fs, Lit (b @ [dq]))" for b
    by (simp add: dq_def)
  show ?thesis
    by (simp only: json_quote_def 1 build_append 2 3 option.case prod.case append_Cons append_Nil append_assoc)
qed

lemma literal_quote [simp]: "literal_value (json_quote s) = Some (JStr (to_valid s))"
  by (simp add: literal_value_def json_quote_def json_unescape_escape)

definition number_state :: "sstate set" where
  "number_state = {Neg, St1, St0, Dot, Dot0, StE, ESign, E0}"

fun number_next :: "sstate \<Rightarrow> char \<Rightarrow> sstate option" where
  "number_next Neg c = (if c = CHR ''0'' then Some St0 else if is_digit c then Some St1 else None)"
| "number_next St1 c = (if is_digit c then Some St1 else if c = CHR ''.'' then Some Dot
     else if c = CHR ''e'' \<or> c = CHR ''E'' then Some StE else None)"
| "number_next St0 c = (if c = CHR ''.'' then Some Dot
     else if c = CHR ''e'' \<or> c = CHR ''E'' then Some StE else None)"
| "number_next Dot c = (if is_digit c then Some Dot0 else None)"
| "number_next Dot0 c = (if is_digit c then Some Dot0
     else if c = CHR ''e'' \<or> c = CHR ''E'' then Some StE else None)"
| "number_next StE c = (if c = CHR ''+'' \<or> c = CHR ''-'' then Some ESign
     else if is_digit c then Some E0 else None)"
| "number_next _ c = (if is_digit c then Some E0 else None)"

lemma number_next_state: "number_next st c = Some st' \<Longrightarrow> st' \<in> number_state"
  by (cases "(st, c)" rule: number_next.cases) (auto simp: number_state_def split: if_splits)

definition number_stop :: "sstate \<Rightarrow> pstate list \<Rightarrow> char \<Rightarrow> scode \<times> sconf" where
  "number_stop st ps c = (if st \<in> {Neg, Dot, StE, ESign} then scan_error ps else end_value ps c)"

lemma jstep_number:
  "st \<in> number_state \<Longrightarrow> jstep st ps c =
     (case number_next st c of Some st' \<Rightarrow> (Continue, st', ps) | None \<Rightarrow> number_stop st ps c)"
  unfolding number_state_def
  by (elim insertE) (simp_all add: number_stop_def expect_def state0_def)

lemma jstep_number_cases:
  assumes "st \<in> number_state"
  obtains (step) st' where "st' \<in> number_state" "\<And>ps. jstep st ps c = (Continue, st', ps)"
  | (stop) "\<And>ps. jstep st ps c = end_value ps c" | (error) "\<And>ps. jstep st ps c = scan_error ps"
proof (cases "number_next st c")
  case None
  show ?thesis
  proof (cases "st \<in> {Neg, Dot, StE, ESign}")
    case True
    show ?thesis
      by (rule error) (use True in \<open>auto simp: jstep_number [OF assms] None number_stop_def\<close>)
  next
    case False
    show ?thesis
      by (rule stop) (use False in \<open>auto simp: jstep_number [OF assms] None number_stop_def\<close>)
  qed
next
  case (Some st')
  show ?thesis
    by (rule step [of st']) (simp_all add: jstep_number [OF assms] Some number_next_state [OF Some])
qed

lemma build_number_state:
  "st \<in> number_state \<Longrightarrow> fst (jscan (st, []) s) \<in> {St1, St0, Dot0, E0} \<Longrightarrow>
   build (st, ps) (fs, Lit b) s = Some ((fst (jscan (st, []) s), ps), fs, Lit (b @ s))"
proof (induction s arbitrary: st b)
  case (Cons c s)
  have out: "fst (jscan q s) \<in> {EndValue, EndTop, StError}"
    if "snd (jstep st [] c) = q" "q \<in> {(EndTop, []), (StError, [])}" for q
    using jscan_after_end [of q s] that(2) by auto
  from Cons.prems(1) show ?case
  proof (cases rule: jstep_number_cases [where c = c])
    case (step st1)
    with Cons.IH [of st1 "b @ [c]"] Cons.prems(2) show ?thesis by simp
  next
    case stop
    then have "snd (jstep st [] c) \<in> {(EndTop, []), (StError, [])}"
      by (simp add: end_value_def end_top_def)
    with out [OF refl this] Cons.prems(2) show ?thesis by auto
  next
    case error
    with out [of "(StError, [])"] Cons.prems(2) show ?thesis by (auto simp: scan_error_def)
  qed
qed simp

lemma json_number_start:
  assumes "json_number l"
  obtains c s st where "l = c # s" "literal_value l = Some (JNum l)" "st \<in> number_state"
    "fst (jscan (st, []) s) \<in> {St1, St0, Dot0, E0}"
    "\<And>q ps. q \<in> {BeginValue, BeginValueOrEmpty} \<Longrightarrow> jstep q ps c = (BeginLiteral, st, ps)"
proof -
  obtain c s where l: "l = c # s" "c = CHR ''-'' \<or> is_digit c"
    using assms(1) by (cases l) (auto simp: json_number_def)
  have ne: "c \<noteq> dq" "c \<noteq> CHR ''n''" "c \<noteq> CHR ''t''" "c \<noteq> CHR ''f''" "c \<noteq> CHR '']''"
    "c \<noteq> CHR ''{''" "c \<noteq> CHR ''[''" "\<not> isSpace c" "c \<noteq> CHR 0x22"
    using l(2) by (auto simp: dq_def isSpace_def is_digit_def)
  define st where "st = (if c = CHR ''-'' then Neg else if c = CHR ''0'' then St0 else St1)"
  have st: "st \<in> number_state" by (simp add: st_def number_state_def)
  have bv: "begin_value ps q c = (BeginLiteral, st, ps)" for ps q
    using ne l(2) by (auto simp: begin_value_def st_def)
  have step: "jstep q ps c = (BeginLiteral, st, ps)" if "q \<in> {BeginValue, BeginValueOrEmpty}" for q ps
    using that ne(5) by (elim insertE) (simp_all add: bv)
  have "fst (jscan (st, []) s) \<in> {St1, St0, Dot0, E0}"
    using assms(1) l step [of BeginValue "[]"] by (simp add: json_number_def)
  moreover have "literal_value l = Some (JNum l)" using l ne by (simp add: literal_value_def)
  ultimately show thesis using that [OF l(1) _ st] step by blast
qed

lemma build_number:
  assumes "json_number l" "q \<in> {BeginValue, BeginValueOrEmpty}"
  obtains st where "build (q, ps) (fs, p) l = Some ((st, ps), fs, Lit l)" "complete ps st"
    "literal_value l = Some (JNum l)"
  using assms(1)
proof (rule json_number_start)
  fix c s st
  assume *: "l = c # s" "literal_value l = Some (JNum l)" "st \<in> number_state"
    "fst (jscan (st, []) s) \<in> {St1, St0, Dot0, E0}"
    "\<And>q ps. q \<in> {BeginValue, BeginValueOrEmpty} \<Longrightarrow> jstep q ps c = (BeginLiteral, st, ps)"
  have "build (q, ps) (fs, p) l = build (st, ps) (fs, Lit [c]) s"
    unfolding *(1) build.simps *(5) [OF assms(2)] by simp
  also have "\<dots> = Some ((fst (jscan (st, []) s), ps), fs, Lit l)"
    using build_number_state [OF *(3,4)] *(1) by simp
  finally show thesis
    by (rule that) (use *(2,4) in \<open>auto simp: complete_def\<close>)
qed

section \<open>Encoded values decode to themselves\<close>

lemma build_cons:
  "jstep st ps c = (op, q) \<Longrightarrow> act op c b = Some b' \<Longrightarrow> build (st, ps) b (c # s) = build q b' s"
  by simp

text \<open>What follows a complete value: the scanner ends the value as \<^verbatim>\<open>stateEndValue\<close> does.\<close>

lemma complete_jstep:
  assumes "complete ps st" "\<not> is_digit c" "c \<notin> {CHR ''.'', CHR ''e'', CHR ''E''}"
  shows "jstep st ps c = end_value ps c"
proof -
  from assms(1) consider "st = EndValue" | "st = St1" | "st = St0" | "st = Dot0" | "st = E0"
    | "st = EndTop" "ps = []" unfolding complete_def by blast
  then show ?thesis
    using assms(2,3) by cases (simp_all add: end_value_def state0_def)
qed

lemma build_after_item:
  assumes "complete (ParseArrayValue # ps) st" "pending_value p = Some v"
  shows "build (st, ParseArrayValue # ps) (FArr acc # fs, p) (CHR '','' # s)
      = build (BeginValue, ParseArrayValue # ps) (FArr (acc @ [v]) # fs, NoVal) s"
    "build (st, ParseArrayValue # ps) (FArr acc # fs, p) (CHR '']'' # s)
      = build (if ps = [] then EndTop else EndValue, ps) (fs, Val (JArr (acc @ [v]))) s"
  using assms complete_jstep [OF assms(1), of "CHR '',''"] complete_jstep [OF assms(1), of "CHR '']''"]
  by (simp_all add: is_digit_def end_value_def isSpace_def pop_state_def EndArray_act)

lemma build_after_field:
  assumes "complete (ParseObjectValue # ps) st" "pending_value p = Some v"
  shows "build (st, ParseObjectValue # ps) (FObj m (Some k) # fs, p) (CHR '','' # s)
      = build (BeginString, ParseObjectKey # ps) (FObj (put k v m) None # fs, NoVal) s"
    "build (st, ParseObjectValue # ps) (FObj m (Some k) # fs, p) (CHR ''}'' # s)
      = build (if ps = [] then EndTop else EndValue, ps) (fs, Val (JObj (put k v m))) s"
  using assms complete_jstep [OF assms(1), of "CHR '',''"] complete_jstep [OF assms(1), of "CHR ''}''"]
  by (simp_all add: is_digit_def end_value_def isSpace_def pop_state_def)

lemma build_after_key:
  "build (EndValue, ParseObjectKey # ps) (FObj m None # fs, Lit (json_quote k)) (CHR '':'' # s)
   = build (BeginValue, ParseObjectValue # ps) (FObj m (Some (to_valid k)) # fs, NoVal) s"
  by (simp add: end_value_def isSpace_def)

lemma build_bool:
  "q \<in> {BeginValue, BeginValueOrEmpty} \<Longrightarrow>
   build (q, ps) (fs, NoVal) (if x then ''true'' else ''false'')
   = Some ((EndValue, ps), fs, Lit (if x then ''true'' else ''false''))"
  by (elim insertE) (simp_all add: begin_value_def isSpace_def expect_def)

lemma build_null:
  "q \<in> {BeginValue, BeginValueOrEmpty} \<Longrightarrow>
   build (q, ps) (fs, NoVal) ''null'' = Some ((EndValue, ps), fs, Lit ''null'')"
  by (elim insertE) (simp_all add: begin_value_def isSpace_def expect_def)

lemma build_open:
  assumes "q \<in> {BeginValue, BeginValueOrEmpty}" "length ps < 10000"
  shows "build (q, ps) (fs, NoVal) (CHR ''['' # s)
      = build (BeginValueOrEmpty, ParseArrayValue # ps) (FArr [] # fs, NoVal) s"
    "build (q, ps) (fs, NoVal) (CHR ''{'' # s)
      = build (BeginStringOrEmpty, ParseObjectKey # ps) (FObj [] None # fs, NoVal) s"
  using assms
  by (elim insertE; simp add: begin_value_def isSpace_def push_state_def maxNestingDepth_def)+

lemma build_close_empty:
  "build (BeginValueOrEmpty, ParseArrayValue # ps) (FArr [] # fs, NoVal) (CHR '']'' # s)
    = build (if ps = [] then EndTop else EndValue, ps) (fs, Val (JArr [])) s"
  "build (BeginStringOrEmpty, ParseObjectKey # ps) (FObj [] None # fs, NoVal) (CHR ''}'' # s)
    = build (if ps = [] then EndTop else EndValue, ps) (fs, Val (JObj [])) s"
  by (simp_all add: end_value_def isSpace_def pop_state_def)

lemma join_Cons: "join sep (s # ss) = s @ (if ss = [] then [] else sep @ join sep ss)"
  by (cases ss) auto

lemma put_last: "keys_sorted (m @ [(k, v)]) \<Longrightarrow> put k v m = m @ [(k, v)]"
  by (induction m) auto

lemma keys_sorted_append: "keys_sorted (m @ m') \<Longrightarrow> keys_sorted m \<and> keys_sorted m'"
  by (simp add: keys_sorted_def sorted_wrt_append)

text \<open>The builder reads back an encoded value, the rest of an array, the rest of an object.\<close>

definition reads_value :: "json \<Rightarrow> bool" where
  "reads_value v \<longleftrightarrow> (\<forall>q ps fs. q \<in> {BeginValue, BeginValueOrEmpty} \<longrightarrow> length ps + jdepth v \<le> 10000 \<longrightarrow>
     (\<exists>st p. build (q, ps) (fs, NoVal) (json_marshal v) = Some ((st, ps), fs, p)
        \<and> complete ps st \<and> pending_value p = Some v))"

definition reads_items :: "json list \<Rightarrow> bool" where
  "reads_items vs \<longleftrightarrow> (\<forall>q ps acc fs s. q \<in> {BeginValue, BeginValueOrEmpty} \<longrightarrow>
     length ps + items_depth vs < 10000 \<longrightarrow>
     build (q, ParseArrayValue # ps) (FArr acc # fs, NoVal) (join '','' (marshal_items vs) @ '']'' @ s)
     = build (if ps = [] then EndTop else EndValue, ps) (fs, Val (JArr (acc @ vs))) s)"

definition reads_fields :: "(string \<times> json) list \<Rightarrow> bool" where
  "reads_fields m \<longleftrightarrow> (\<forall>q ps m0 fs s. q \<in> {BeginString, BeginStringOrEmpty} \<longrightarrow>
     length ps + fields_depth m < 10000 \<longrightarrow> keys_sorted (m0 @ m) \<longrightarrow>
     build (q, ParseObjectKey # ps) (FObj m0 None # fs, NoVal) (join '','' (marshal_fields m) @ ''}'' @ s)
     = build (if ps = [] then EndTop else EndValue, ps) (fs, Val (JObj (m0 @ m))) s)"

lemma reads_valueE:
  assumes "reads_value v" "q \<in> {BeginValue, BeginValueOrEmpty}" "length ps + jdepth v \<le> 10000"
  obtains st p where "build (q, ps) (fs, NoVal) (json_marshal v) = Some ((st, ps), fs, p)"
    "complete ps st" "pending_value p = Some v"
  using assms unfolding reads_value_def by blast

lemma reads_itemsD:
  "reads_items vs \<Longrightarrow> q \<in> {BeginValue, BeginValueOrEmpty} \<Longrightarrow> length ps + items_depth vs < 10000 \<Longrightarrow>
   build (q, ParseArrayValue # ps) (FArr acc # fs, NoVal) (join '','' (marshal_items vs) @ '']'' @ s)
   = build (if ps = [] then EndTop else EndValue, ps) (fs, Val (JArr (acc @ vs))) s"
  unfolding reads_items_def by blast

lemma reads_fieldsD:
  "reads_fields m \<Longrightarrow> q \<in> {BeginString, BeginStringOrEmpty} \<Longrightarrow> length ps + fields_depth m < 10000 \<Longrightarrow>
   keys_sorted (m0 @ m) \<Longrightarrow>
   build (q, ParseObjectKey # ps) (FObj m0 None # fs, NoVal) (join '','' (marshal_fields m) @ ''}'' @ s)
   = build (if ps = [] then EndTop else EndValue, ps) (fs, Val (JObj (m0 @ m))) s"
  unfolding reads_fields_def by blast

lemma reads_array:
  assumes "vs \<noteq> [] \<Longrightarrow> reads_items vs"
  shows "reads_value (JArr vs)"
  unfolding reads_value_def
proof (intro allI impI)
  fix q and ps :: "pstate list" and fs
  assume q: "q \<in> {BeginValue, BeginValueOrEmpty}" and d: "length ps + jdepth (JArr vs) \<le> 10000"
  let ?fin = "if ps = [] then EndTop else EndValue"
  have "build (q, ps) (fs, NoVal) (json_marshal (JArr vs)) = Some ((?fin, ps), fs, Val (JArr vs))"
  proof (cases "vs = []")
    case True
    then show ?thesis
      using build_open(1) [OF q, of ps] d build_close_empty(1) [of ps fs "[]"] by (simp del: build.simps(2))
  next
    case False
    then have "reads_items vs" by (rule assms)
    then have "build (BeginValueOrEmpty, ParseArrayValue # ps) (FArr [] # fs, NoVal)
        (join '','' (marshal_items vs) @ '']'' @ []) = build (?fin, ps) (fs, Val (JArr ([] @ vs))) []"
      using d by (intro reads_itemsD) auto
    then show ?thesis
      using build_open(1) [OF q, of ps] d by (simp del: build.simps(2))
  qed
  then show "\<exists>st p. build (q, ps) (fs, NoVal) (json_marshal (JArr vs)) = Some ((st, ps), fs, p)
      \<and> complete ps st \<and> pending_value p = Some (JArr vs)"
    by (simp add: complete_def del: json_marshal.simps)
qed

lemma reads_object:
  assumes "m \<noteq> [] \<Longrightarrow> reads_fields m" "keys_sorted m"
  shows "reads_value (JObj m)"
  unfolding reads_value_def
proof (intro allI impI)
  fix q and ps :: "pstate list" and fs
  assume q: "q \<in> {BeginValue, BeginValueOrEmpty}" and d: "length ps + jdepth (JObj m) \<le> 10000"
  let ?fin = "if ps = [] then EndTop else EndValue"
  have "build (q, ps) (fs, NoVal) (json_marshal (JObj m)) = Some ((?fin, ps), fs, Val (JObj m))"
  proof (cases "m = []")
    case True
    then show ?thesis
      using build_open(2) [OF q, of ps] d build_close_empty(2) [of ps fs "[]"] by (simp del: build.simps(2))
  next
    case False
    then have "reads_fields m" by (rule assms)
    then have "build (BeginStringOrEmpty, ParseObjectKey # ps) (FObj [] None # fs, NoVal)
        (join '','' (marshal_fields m) @ ''}'' @ []) = build (?fin, ps) (fs, Val (JObj ([] @ m))) []"
      using d assms(2) by (intro reads_fieldsD) auto
    then show ?thesis
      using build_open(2) [OF q, of ps] d by (simp del: build.simps(2))
  qed
  then show "\<exists>st p. build (q, ps) (fs, NoVal) (json_marshal (JObj m)) = Some ((st, ps), fs, p)
      \<and> complete ps st \<and> pending_value p = Some (JObj m)"
    by (simp add: complete_def del: json_marshal.simps)
qed

lemma reads_items_Cons:
  assumes "reads_value v" "vs \<noteq> [] \<Longrightarrow> reads_items vs"
  shows "reads_items (v # vs)"
  unfolding reads_items_def
proof (intro allI impI)
  fix q and ps :: "pstate list" and acc fs s
  assume q: "q \<in> {BeginValue, BeginValueOrEmpty}" and d: "length ps + items_depth (v # vs) < 10000"
  have dv: "length (ParseArrayValue # ps) + jdepth v \<le> 10000" using d by simp
  obtain st p where b: "build (q, ParseArrayValue # ps) (FArr acc # fs, NoVal) (json_marshal v)
      = Some ((st, ParseArrayValue # ps), FArr acc # fs, p)"
    "complete (ParseArrayValue # ps) st" "pending_value p = Some v"
    using reads_valueE [OF assms(1) q dv] .
  show "build (q, ParseArrayValue # ps) (FArr acc # fs, NoVal) (join '','' (marshal_items (v # vs)) @ '']'' @ s)
      = build (if ps = [] then EndTop else EndValue, ps) (fs, Val (JArr (acc @ v # vs))) s"
  proof (cases "vs = []")
    case True
    then show ?thesis
      using b(1) build_after_item(2) [OF b(2,3), of acc fs s] by (simp add: build_append del: build.simps(2))
  next
    case False
    then have "marshal_items vs \<noteq> []" by (cases vs) auto
    moreover have "build (BeginValue, ParseArrayValue # ps) (FArr (acc @ [v]) # fs, NoVal)
        (join '','' (marshal_items vs) @ '']'' @ s)
      = build (if ps = [] then EndTop else EndValue, ps) (fs, Val (JArr ((acc @ [v]) @ vs))) s"
      using assms(2) [OF False] d by (intro reads_itemsD) auto
    ultimately show ?thesis
      using b(1) build_after_item(1) [OF b(2,3), of acc fs "join '','' (marshal_items vs) @ '']'' @ s"]
      by (simp add: build_append join_Cons del: build.simps(2))
  qed
qed

lemma reads_fields_Cons:
  assumes "valid_utf8 k" "reads_value v" "m \<noteq> [] \<Longrightarrow> reads_fields m"
  shows "reads_fields ((k, v) # m)"
  unfolding reads_fields_def
proof (intro allI impI)
  fix q and ps :: "pstate list" and m0 fs s
  assume q: "q \<in> {BeginString, BeginStringOrEmpty}" and d: "length ps + fields_depth ((k, v) # m) < 10000"
    and ks: "keys_sorted (m0 @ (k, v) # m)"
  have dv: "length (ParseObjectValue # ps) + jdepth v \<le> 10000" using d by simp
  obtain st p where b: "build (BeginValue, ParseObjectValue # ps) (FObj m0 (Some k) # fs, NoVal) (json_marshal v)
      = Some ((st, ParseObjectValue # ps), FObj m0 (Some k) # fs, p)"
    "complete (ParseObjectValue # ps) st" "pending_value p = Some v"
    using reads_valueE [OF assms(2) _ dv] by blast
  have key: "build (q, ParseObjectKey # ps) (FObj m0 None # fs, NoVal) (json_quote k @ CHR '':'' # t)
      = build (BeginValue, ParseObjectValue # ps) (FObj m0 (Some k) # fs, NoVal) t" for t
    using build_quote [of q "ParseObjectKey # ps" "FObj m0 None # fs" NoVal k] q
      build_after_key [of ps m0 fs k t] to_valid_id [OF assms(1)]
    by (auto simp: build_append simp del: build.simps(2))
  have put: "put k v m0 = m0 @ [(k, v)]"
    using ks keys_sorted_append [of "m0 @ [(k, v)]" m] by (simp add: put_last)
  show "build (q, ParseObjectKey # ps) (FObj m0 None # fs, NoVal) (join '','' (marshal_fields ((k, v) # m)) @ ''}'' @ s)
      = build (if ps = [] then EndTop else EndValue, ps) (fs, Val (JObj (m0 @ (k, v) # m))) s"
  proof (cases "m = []")
    case True
    then show ?thesis
      using b(1) build_after_field(2) [OF b(2,3), of m0 k fs s] key put
      by (simp add: build_append del: build.simps(2))
  next
    case False
    then have "marshal_fields m \<noteq> []" by (cases m) auto
    moreover have "build (BeginString, ParseObjectKey # ps) (FObj (m0 @ [(k, v)]) None # fs, NoVal)
        (join '','' (marshal_fields m) @ ''}'' @ s)
      = build (if ps = [] then EndTop else EndValue, ps) (fs, Val (JObj ((m0 @ [(k, v)]) @ m))) s"
      using assms(3) [OF False] d ks by (intro reads_fieldsD) auto
    ultimately show ?thesis
      using b(1) build_after_field(1) [OF b(2,3), of m0 k fs "join '','' (marshal_fields m) @ ''}'' @ s"] key put
      by (simp add: build_append join_Cons del: build.simps(2))
  qed
qed

lemma reads_encoded:
  "wf_json json_number v \<Longrightarrow> reads_value v"
  "wf_items json_number vs \<Longrightarrow> vs \<noteq> [] \<Longrightarrow> reads_items vs"
  "wf_fields json_number m \<Longrightarrow> m \<noteq> [] \<Longrightarrow> reads_fields m"
proof (induction v and vs and m rule: json_marshal_marshal_items_marshal_fields.induct)
  case 1
  show ?case unfolding reads_value_def
    by (intro allI impI) (simp add: build_null complete_def literal_value_def dq_def del: build.simps)
next
  case (2 b)
  show ?case unfolding reads_value_def
    by (intro allI impI)
      (simp add: build_bool complete_def literal_value_def dq_def del: build.simps split: if_splits)
next
  case (3 l)
  then have "json_number l" by simp
  then show ?case unfolding reads_value_def
    by (metis build_number json_marshal.simps(3) pending_value.simps(2))
next
  case (4 s)
  then show ?case unfolding reads_value_def
    by (intro allI impI) (auto simp: build_quote complete_def to_valid_id simp del: build.simps)
next
  case (5 vs)
  then show ?case by (auto intro: reads_array)
next
  case (6 m)
  then show ?case by (auto intro: reads_object)
next
  case (8 v vs)
  then show ?case by (auto intro: reads_items_Cons)
next
  case (10 k v m)
  then show ?case by (auto intro: reads_fields_Cons)
qed simp_all

lemma json_decode_complete:
  assumes "build (BeginValue, []) ([], NoVal) s = Some ((st, []), [], p)" "complete [] st"
    "jscan (BeginValue, []) s = (st, [])"
  shows "json_valid s \<and> json_decode s = pending_value p"
  using assms by (simp add: json_decode_def json_valid_def at_eof_complete)

lemma build_jscan: "build q b s = Some (q', b') \<Longrightarrow> jscan q s = q'"
  by (induction q b s rule: build.induct) (auto split: prod.splits option.splits)

theorem json_decode_marshal:
  assumes "wf_json json_number v" "jdepth v \<le> 10000"
  shows "json_valid (json_marshal v)" "json_decode (json_marshal v) = Some v"
proof -
  obtain st p where b: "build (BeginValue, []) ([], NoVal) (json_marshal v) = Some ((st, []), [], p)"
    "complete [] st" "pending_value p = Some v"
    using reads_valueE [OF reads_encoded(1) [OF assms(1)], of BeginValue "[]"] assms(2) by auto
  from json_decode_complete [OF b(1,2) build_jscan [OF b(1)]] b(3)
  show "json_valid (json_marshal v)" "json_decode (json_marshal v) = Some v" by auto
qed

section \<open>What the decoder returns\<close>

lemma rune_len_append: "rune_len s \<noteq> 0 \<Longrightarrow> rune_len (s @ t) = rune_len s"
  by (cases s; cases "tl s"; cases "tl (tl s)"; cases "tl (tl (tl s))"; cases t)
    (simp_all add: rune_len_def split: if_splits)

lemma valid_utf8_append [intro]: "valid_utf8 s \<Longrightarrow> valid_utf8 t \<Longrightarrow> valid_utf8 (s @ t)"
proof (induction s rule: valid_utf8.induct)
  case (2 c s)
  then have n: "rune_len (c # s) \<noteq> 0" by (simp add: Let_def)
  have "rune_len (c # s) - 1 \<le> length s" using rune_len_le [of "c # s"] by simp
  with 2 n rune_len_append [OF n, of t] show ?case by (simp add: Let_def)
qed simp

lemma rune_len_take: "rune_len s \<noteq> 0 \<Longrightarrow> rune_len (take (rune_len s) s) = rune_len s"
proof -
  assume n: "rune_len s \<noteq> 0"
  have "rune_len (take (rune_len s) s) \<noteq> 0"
    using n by (cases s; cases "tl s"; cases "tl (tl s)"; cases "tl (tl (tl s))")
      (simp_all add: rune_len_def split: if_splits)
  from rune_len_append [OF this, of "drop (rune_len s) s"] show ?thesis by simp
qed

lemma valid_utf8_rune: "rune_len (c # s) \<noteq> 0 \<Longrightarrow> valid_utf8 (take (rune_len (c # s)) (c # s))"
  using rune_len_take [of "c # s"] rune_len_le [of "c # s"]
  by (cases "rune_len (c # s)") (simp_all add: Let_def)

lemma valid_utf8_replacement [simp]: "valid_utf8 replacement"
  by (simp add: replacement_def rune_len_def is_cont_def)

lemma valid_utf8_bytes_3:
  "z < 16 \<Longrightarrow> y \<le> 63 \<Longrightarrow> u \<le> 63 \<Longrightarrow> (z = 0 \<longrightarrow> 32 \<le> y) \<Longrightarrow> (z = 13 \<longrightarrow> y \<le> 31) \<Longrightarrow>
   valid_utf8 [char_of (224 + z), char_of (128 + y), char_of (128 + u)]" for u y z :: nat
  by (simp add: rune_len_def is_cont_def Let_def)

lemma valid_utf8_bytes_4:
  "z \<le> 4 \<Longrightarrow> y \<le> 63 \<Longrightarrow> u \<le> 63 \<Longrightarrow> w \<le> 63 \<Longrightarrow> (z = 0 \<longrightarrow> 16 \<le> y) \<Longrightarrow> (z = 4 \<longrightarrow> y \<le> 15) \<Longrightarrow>
   valid_utf8 [char_of (240 + z), char_of (128 + y), char_of (128 + u), char_of (128 + w)]"
  for u w y z :: nat
  by (simp add: rune_len_def is_cont_def Let_def)

lemma mod_64_le: "n mod 64 \<le> 63" for n :: nat
  using mod_less_divisor [of 64 n] by linarith

lemma valid_utf8_encode_3:
  assumes "r < 65536" "2048 \<le> r" "\<not> (55296 \<le> r \<and> r < 57344)"
  shows "valid_utf8 (utf8_encode r)"
proof -
  define x y where "x = r div 64" and "y = x mod 64"
  define z where "z = x div 64"
  have d: "r div 4096 = z" by (simp add: x_def z_def div_mult2_eq [symmetric])
  have x: "x = 64 * z + y" "y < 64" by (simp_all add: z_def y_def)
  have "r = 64 * x + r mod 64" by (simp add: x_def)
  then have b: "z = 0 \<longrightarrow> 32 \<le> y" "z = 13 \<longrightarrow> y < 32" "z < 16"
    using assms x by auto
  have e: "utf8_encode r = [char_of (224 + z), char_of (128 + y), char_of (128 + r mod 64)]"
    using assms by (auto simp: utf8_encode_def d x_def y_def)
  show ?thesis
    unfolding e using b x(2) mod_64_le by (intro valid_utf8_bytes_3) auto
qed

lemma valid_utf8_encode_4:
  assumes "r < 1114112" "65536 \<le> r"
  shows "valid_utf8 (utf8_encode r)"
proof -
  define x y z where "x = r div 4096" and "y = x mod 64" and "z = x div 64"
  have d: "r div 262144 = z" by (simp add: x_def z_def div_mult2_eq [symmetric])
  have x: "x = 64 * z + y" "y < 64" by (simp_all add: z_def y_def)
  have "r = 4096 * x + r mod 4096" by (simp add: x_def)
  moreover have "r mod 4096 < 4096" by simp
  ultimately have b: "z = 0 \<longrightarrow> 16 \<le> y" "z = 4 \<longrightarrow> y < 16" "z \<le> 4"
    using assms x by linarith+
  have e: "utf8_encode r = [char_of (240 + z), char_of (128 + y), char_of (128 + r div 64 mod 64),
      char_of (128 + r mod 64)]"
    using assms by (simp add: utf8_encode_def d x_def y_def)
  show ?thesis
    unfolding e using b x(2) mod_64_le by (intro valid_utf8_bytes_4) auto
qed

lemma valid_utf8_encode [simp]: "valid_utf8 (utf8_encode r)"
proof -
  consider "r < 128" | "128 \<le> r" "r < 2048" | "(55296 \<le> r \<and> r < 57344) \<or> 1114112 \<le> r"
    | "2048 \<le> r" "r < 65536" "\<not> (55296 \<le> r \<and> r < 57344)" | "65536 \<le> r" "r < 1114112" by linarith
  then show ?thesis
  proof cases
    case 2
    then have "2 \<le> r div 64" "r div 64 < 32" "\<not> r < 128" by auto
    then show ?thesis using 2 by (simp add: utf8_encode_def rune_len_def is_cont_def Let_def)
  next
    case 3
    then show ?thesis by (auto simp: utf8_encode_def)
  next
    case 4
    then show ?thesis by (intro valid_utf8_encode_3) auto
  next
    case 5
    then show ?thesis by (intro valid_utf8_encode_4) auto
  qed (simp add: utf8_encode_def)
qed

lemma prepend_Some_iff: "prepend u r = Some t \<longleftrightarrow> (\<exists>t'. r = Some t' \<and> t = u @ t')"
  by (auto simp: prepend_def)

lemma valid_utf8_ascii: "byte c < 128 \<Longrightarrow> valid_utf8 [c]"
  by (simp add: rune_len_def Let_def)

lemma simple_escape_ascii: "simple_escape e = Some x \<Longrightarrow> byte x < 128"
  by (auto simp: simple_escape_def dq_def bs_def split: if_splits)

lemma json_unescape_utf8: "json_unescape b = Some t \<Longrightarrow> valid_utf8 t"
proof (induction b arbitrary: t rule: json_unescape.induct)
  case (2 c s)
  show ?case
  proof (cases "c = bs")
    case esc: True
    with "2.prems" obtain e s' where s: "s = e # s'" by (cases s) auto
    show ?thesis
    proof (cases "e = CHR ''u''")
      case True
      then obtain r where g: "getu4 (c # s) = Some r"
        using "2.prems" esc s by (auto split: option.splits)
      show ?thesis
        using "2.prems" "2.IH"(1-3) [OF esc s True g] esc s True g
        by (auto simp: prepend_Some_iff split: if_splits option.splits)
    next
      case False
      then obtain x t' where x: "simple_escape e = Some x" "json_unescape s' = Some t'" "t = [x] @ t'"
        using "2.prems" esc s by (auto simp: prepend_Some_iff split: option.splits)
      have "valid_utf8 t'" using "2.IH"(4) [OF esc s False x(1,2)] .
      then show ?thesis
        unfolding x(3) by (intro valid_utf8_append valid_utf8_ascii simple_escape_ascii [OF x(1)])
    qed
  next
    case False
    with "2.prems" "2.IH"(5,6) show ?thesis
      by (auto simp: Let_def prepend_Some_iff simp del: append.simps valid_utf8.simps(2) take_Suc_Cons
          split: if_splits intro!: valid_utf8_append valid_utf8_rune)
  qed
qed simp

lemma literal_value_wf: "literal_value b = Some v \<Longrightarrow> wf_json (\<lambda>_. True) v \<and> jdepth v = 0"
  by (auto simp: literal_value_def dest: json_unescape_utf8 split: list.splits if_splits)

text \<open>The values in a frame, with the number of frames from it down to the bottom.\<close>

fun frame_ok :: "nat \<Rightarrow> frame \<Rightarrow> bool" where
  "frame_ok n (FArr vs) \<longleftrightarrow> wf_items (\<lambda>_. True) vs \<and> n + items_depth vs \<le> maxNestingDepth"
| "frame_ok n (FObj m k) \<longleftrightarrow> keys_sorted m \<and> wf_fields (\<lambda>_. True) m \<and> n + fields_depth m \<le> maxNestingDepth
     \<and> (\<forall>k'. k = Some k' \<longrightarrow> valid_utf8 k')"

fun frames_ok :: "frame list \<Rightarrow> bool" where
  "frames_ok [] = True"
| "frames_ok (f # fs) = (frame_ok (Suc (length fs)) f \<and> frames_ok fs)"

definition builder_ok :: "builder \<Rightarrow> bool" where
  "builder_ok b \<longleftrightarrow> frames_ok (fst b) \<and>
     (\<forall>v. pending_value (snd b) = Some v \<longrightarrow> wf_json (\<lambda>_. True) v \<and> length (fst b) + jdepth v \<le> maxNestingDepth)"

lemma wf_items_append [simp]: "wf_items N (vs @ vs') \<longleftrightarrow> wf_items N vs \<and> wf_items N vs'"
  by (induction vs) auto

lemma items_depth_append [simp]: "items_depth (vs @ vs') = max (items_depth vs) (items_depth vs')"
  by (induction vs) auto

lemma wf_fields_put: "wf_fields N m \<Longrightarrow> valid_utf8 k \<Longrightarrow> wf_json N v \<Longrightarrow> wf_fields N (put k v m)"
  by (induction m rule: put.induct) auto

lemma fields_depth_put: "fields_depth (put k v m) \<le> max (jdepth v) (fields_depth m)"
  by (induction m rule: put.induct) auto

lemma frame_ok_pop: "frame_ok (Suc n) f \<Longrightarrow> n < maxNestingDepth"
  by (cases f) auto

lemma builder_okI:
  "frames_ok fs \<Longrightarrow> (\<And>v. pending_value p = Some v \<Longrightarrow>
     wf_json (\<lambda>_. True) v \<and> length fs + jdepth v \<le> maxNestingDepth) \<Longrightarrow> builder_ok (fs, p)"
  by (simp add: builder_ok_def)

lemma builder_okD:
  assumes "builder_ok (fs, p)"
  shows "frames_ok fs" "pending_value p = Some v \<Longrightarrow> wf_json (\<lambda>_. True) v"
    "pending_value p = Some v \<Longrightarrow> length fs + jdepth v \<le> maxNestingDepth"
  using assms by (auto simp: builder_ok_def)

lemma frame_ok_put:
  assumes "frame_ok n (FObj m (Some k))" "wf_json (\<lambda>_. True) v" "n + jdepth v \<le> maxNestingDepth"
  shows "frame_ok n (FObj (put k v m) None)"
  using assms fields_depth_put [of k v m] by (auto simp: wf_fields_put)

lemma frame_ok_close:
  "frame_ok (Suc n) (FObj m k) \<Longrightarrow> wf_json (\<lambda>_. True) (JObj m) \<and> n + jdepth (JObj m) \<le> maxNestingDepth"
  "frame_ok (Suc n) (FArr vs) \<Longrightarrow> wf_json (\<lambda>_. True) (JArr vs) \<and> n + jdepth (JArr vs) \<le> maxNestingDepth"
  by auto

lemma act_ok:
  assumes "builder_ok (fs, p)" "act op c (fs, p) = Some b'"
    "op \<in> {BeginObject, BeginArray} \<Longrightarrow> length fs < maxNestingDepth"
  shows "builder_ok b'"
proof -
  note ok = builder_okD [OF assms(1)]
  have len: "length fs \<le> maxNestingDepth"
    using ok(1) frame_ok_pop by (cases fs) fastforce+
  have lit: "builder_ok (fs, Lit b)" for b
    by (rule builder_okI [OF ok(1)]) (use len in \<open>auto dest: literal_value_wf\<close>)
  show ?thesis
  proof (cases op)
    case Continue
    with assms(2) lit show ?thesis by (cases p) auto
  next
    case BeginLiteral
    with assms(2) lit show ?thesis by auto
  next
    case BeginObject
    with assms ok(1) show ?thesis by (auto intro!: builder_okI)
  next
    case BeginArray
    with assms ok(1) show ?thesis by (auto intro!: builder_okI)
  next
    case ObjectKey
    with assms(2) obtain m fs' k where *: "fs = FObj m None # fs'" "pending_value p = Some (JStr k)"
      "b' = (FObj m (Some k) # fs', NoVal)"
      by (auto elim!: act.elims split: option.splits json.splits)
    with ok show ?thesis by (auto intro!: builder_okI)
  next
    case ObjectValue
    with assms(2) obtain m k fs' v where *: "fs = FObj m (Some k) # fs'" "pending_value p = Some v"
      "b' = (FObj (put k v m) None # fs', NoVal)"
      by (cases "pending_value p") (auto elim!: act.elims)
    with ok(1) frame_ok_put [OF _ ok(2) ok(3)] show ?thesis
      unfolding *(3) by (intro builder_okI) auto
  next
    case EndObject
    with assms(2) consider (empty) m fs' where "fs = FObj m None # fs'" "b' = (fs', Val (JObj m))"
      | (last) m k fs' v where "fs = FObj m (Some k) # fs'" "pending_value p = Some v"
          "b' = (fs', Val (JObj (put k v m)))"
      by (cases "pending_value p") (auto elim!: act.elims)
    then show ?thesis
    proof cases
      case empty
      with ok(1) frame_ok_close(1) show ?thesis by (auto intro!: builder_okI)
    next
      case last
      then have "frame_ok (length fs) (FObj (put k v m) None)"
        using ok(1) frame_ok_put [OF _ ok(2) ok(3)] by auto
      with last ok(1) frame_ok_close(1) [of "length fs'"] show ?thesis
        by (auto intro!: builder_okI)
    qed
  next
    case ArrayValue
    with assms(2) obtain vs fs' v where "fs = FArr vs # fs'" "pending_value p = Some v"
      "b' = (FArr (vs @ [v]) # fs', NoVal)"
      by (cases "pending_value p") (auto elim!: act.elims)
    with ok show ?thesis by (auto intro!: builder_okI)
  next
    case EndArray
    with assms(2) consider (empty) vs fs' where "fs = FArr vs # fs'" "b' = (fs', Val (JArr vs))"
      | (last) vs fs' v where "fs = FArr vs # fs'" "pending_value p = Some v"
          "b' = (fs', Val (JArr (vs @ [v])))"
      by (cases "pending_value p") (auto elim!: act.elims)
    then show ?thesis
    proof cases
      case empty
      with ok(1) frame_ok_close(2) show ?thesis by (auto intro!: builder_okI)
    next
      case last
      then have "frame_ok (length fs) (FArr (vs @ [v]))" using ok by auto
      with last ok(1) frame_ok_close(2) [of "length fs'" "vs @ [v]"] show ?thesis
        by (auto intro!: builder_okI)
    qed
  qed (use assms(1,2) in auto)
qed

lemma jstep_push:
  "jstep st ps c = (op, st', ps') \<Longrightarrow> op \<in> {BeginObject, BeginArray} \<Longrightarrow> length ps < maxNestingDepth"
  by (cases st) (auto simp: scan_defs split: if_splits list.splits pstate.splits)

lemma build_ok:
  "coupled (fst q) (snd q) b \<Longrightarrow> builder_ok b \<Longrightarrow> build q b s = Some (q', b') \<Longrightarrow> fst q' \<noteq> StError \<Longrightarrow>
   builder_ok b'"
proof (induction q b s rule: build.induct)
  case (2 st ps b c s)
  obtain fs p where b: "b = (fs, p)" by (cases b)
  obtain op st' ps' where step: "jstep st ps c = (op, st', ps')" by (metis prod.exhaust)
  obtain b1 where b1: "act op c b = Some b1" "build (st', ps') b1 s = Some (q', b')"
    using "2.prems"(3) step by (auto split: option.splits)
  have "st' \<noteq> StError" using build_jscan [OF b1(2)] "2.prems"(4) by (cases q') auto
  then have "coupled st' ps' b1"
    using step_coupled [of st ps fs p] "2.prems"(1) step b1(1) b by fastforce
  moreover have "length fs = length ps"
    using "2.prems"(1) b by (auto simp: coupled_def dest: list_all2_lengthD)
  then have "builder_ok b1"
    using act_ok "2.prems"(2) b1(1) jstep_push [OF step] unfolding b by metis
  ultimately show ?case
    using "2.IH" [OF step [symmetric] b1(1)] b1(2) "2.prems"(4) by simp
qed simp

theorem json_decode_wf:
  assumes "json_decode s = Some v"
  shows "wf_json (\<lambda>_. True) v" "jdepth v \<le> maxNestingDepth"
proof -
  obtain st ps fs p where b: "build (BeginValue, []) ([], NoVal) s = Some ((st, ps), fs, p)"
    "pending_value p = Some v" "json_valid s"
    using assms by (auto simp: json_decode_def split: if_splits option.splits)
  have "st \<noteq> StError"
    using b(3) build_jscan [OF b(1)] by (auto simp: json_valid_def)
  moreover have "coupled BeginValue [] ([], NoVal)" "builder_ok ([], NoVal)"
    by (simp_all add: coupled_def key_due_def builder_ok_def)
  ultimately have "builder_ok (fs, p)" using build_ok [OF _ _ b(1)] by simp
  then show "wf_json (\<lambda>_. True) v" "jdepth v \<le> maxNestingDepth"
    using b(2) by (auto simp: builder_ok_def)
qed

section \<open>Compaction\<close>

text \<open>
  White space the compacted text leaves out may have ended a number: the scanner of the
  original is then past the value where the scanner of the compacted text is still at its last
  digit, and both read the same thing next.
\<close>

definition same_point :: "sconf \<Rightarrow> sconf \<Rightarrow> bool" where
  "same_point q q' \<longleftrightarrow> (fst q = EndTop \<longrightarrow> snd q = []) \<and>
     (q = q' \<or> snd q = snd q' \<and> complete (snd q') (fst q') \<and>
     fst q \<in> {EndValue, EndTop})"

lemma end_value_EndTop: "end_value ps c = (op, EndTop, ps') \<Longrightarrow> ps' = []"
  by (auto simp: end_value_def end_top_def scan_error_def pop_state_def
      split: list.splits pstate.splits if_splits)

lemma begin_not_EndTop:
  "begin_value ps st c = (op, EndTop, ps') \<Longrightarrow> st = EndTop"
  "begin_string ps st c = (op, EndTop, ps') \<Longrightarrow> st = EndTop"
  by (auto simp: begin_value_def begin_string_def push_state_def scan_error_def split: if_splits)

lemma jstep_EndTop: "jstep st ps c = (op, EndTop, ps') \<Longrightarrow> ps' = []"
  using end_value_EndTop [of ps c op ps'] end_value_EndTop [of "ParseObjectValue # tl ps" c op ps']
    begin_not_EndTop [of ps st c op ps']
  by (cases st) (auto simp: expect_def scan_error_def end_top_def state0_def split: if_splits)

lemma same_point_refl: "(fst q = EndTop \<longrightarrow> snd q = []) \<Longrightarrow> same_point q q"
  by (simp add: same_point_def)

text \<open>A byte the compacted text keeps is read the same way at both points.\<close>

lemma end_value_error:
  assumes "is_digit c \<or> c \<in> {CHR ''.'', CHR ''e'', CHR ''E''}"
  shows "fst (snd (end_value ps c)) = StError"
proof -
  have "\<not> isSpace c" "c \<notin> {CHR '':'', CHR '','', CHR ''}'', CHR '']''}"
    using assms by (auto simp: isSpace_def is_digit_def)
  then show ?thesis
    by (cases ps) (simp_all add: end_value_def end_top_def scan_error_def split: pstate.split)
qed

lemma jstep_same_point:
  assumes "same_point (st, ps) (st', ps')" "jstep st ps c = (op, q)" "fst q \<noteq> StError"
    "op \<notin> {SkipSpace, Error}"
  shows "jstep st' ps' c = (op, q)"
proof (cases "(st, ps) = (st', ps')")
  case False
  then have *: "ps' = ps" "complete ps st'" "st = EndValue \<or> st = EndTop \<and> ps = []"
    using assms(1) by (auto simp: same_point_def)
  have ev: "end_value ps c = (op, q)"
    using *(3) assms(2) by (elim disjE conjE) (simp_all only: jstep.simps end_value_def list.case)
  then have "\<not> is_digit c" "c \<notin> {CHR ''.'', CHR ''e'', CHR ''E''}"
    using end_value_error [of c ps] assms(3) by auto
  with complete_jstep [OF *(2)] ev *(1) show ?thesis by simp
qed (use assms in auto)

lemma end_value_skip:
  "end_value ps c = (op, q) \<Longrightarrow> fst q \<noteq> StError \<Longrightarrow> op \<in> {SkipSpace, End} \<Longrightarrow>
   isSpace c \<and> (q = (EndValue, ps) \<or> ps = [] \<and> q = (EndTop, []))"
  by (auto simp: end_value_def end_top_def scan_error_def pop_state_def
      split: list.splits pstate.splits if_splits)

lemma begin_skip:
  "begin_value ps st c = (op, q) \<Longrightarrow> fst q \<noteq> StError \<Longrightarrow> op \<in> {SkipSpace, End} \<Longrightarrow> q = (st, ps)"
  "begin_string ps st c = (op, q) \<Longrightarrow> fst q \<noteq> StError \<Longrightarrow> op \<in> {SkipSpace, End} \<Longrightarrow> q = (st, ps)"
  by (auto simp: begin_value_def begin_string_def push_state_def scan_error_def split: if_splits)

lemma jstep_skip:
  assumes "jstep st ps c = (op, q)" "fst q \<noteq> StError" "op \<in> {SkipSpace, End}" "st = EndTop \<longrightarrow> ps = []"
  shows "q = (st, ps) \<or> complete ps st \<and> (q = (EndValue, ps) \<or> ps = [] \<and> q = (EndTop, []))"
proof (cases "st \<in> {BeginValue, BeginValueOrEmpty, BeginString, BeginStringOrEmpty}")
  case True
  note skip = end_value_skip [OF _ assms(2,3)] begin_skip [OF _ assms(2,3)]
  have "end_value ps' c \<noteq> (op, q)" if "\<not> isSpace c" for ps'
    using skip(1) [of ps' c] that by metis
  then have "(op, q) = begin_value ps st c \<or> (op, q) = begin_string ps st c"
    using True assms(1) by (elim insertE) (simp_all split: if_splits)
  then show ?thesis using skip(2,3) by metis
next
  case False
  show ?thesis
  proof (cases "st \<in> {EndValue, St1, St0, Dot0, E0, EndTop}")
    case True
    then have "(op, q) = end_value ps c \<or> (op, q) = end_top c \<and> st = EndTop"
      using assms(1,3) by (elim insertE) (auto simp: state0_def split: if_splits)
    then have "(q = (EndValue, ps) \<or> ps = [] \<and> q = (EndTop, [])) \<or> q = (EndTop, []) \<and> st = EndTop"
      using end_value_skip [OF _ assms(2,3), of ps c] assms(2)
      by (metis end_top_def fst_conv snd_conv)
    then show ?thesis using True assms by (auto simp: complete_def end_top_def split: if_splits)
  next
    case neither: False
    show ?thesis
      using False neither assms
      by (cases st) (auto simp: expect_def scan_error_def split: if_splits)
  qed
qed

lemma compact_build:
  "same_point q q' \<Longrightarrow> build q b s = Some (qe, be) \<Longrightarrow> fst qe \<noteq> StError \<Longrightarrow>
   \<exists>qe'. build q' b (compact_from q s) = Some (qe', be) \<and> same_point qe qe'"
proof (induction q b s arbitrary: q' rule: build.induct)
  case (2 st ps b c s)
  obtain st' ps' where q': "q' = (st', ps')" by (cases q')
  obtain op q1 where step: "jstep st ps c = (op, q1)" by (metis prod.exhaust)
  obtain b1 where b1: "act op c b = Some b1" "build q1 b1 s = Some (qe, be)"
    using "2.prems"(2) step by (auto split: option.splits)
  have ne: "fst q1 \<noteq> StError" using build_jscan [OF b1(2)] "2.prems"(3) by (cases q1) auto
  note IH = "2.IH" [OF step [symmetric] b1(1) _ b1(2) "2.prems"(3)]
  show ?case
  proof (cases "op \<in> {SkipSpace, End, Error}")
    case True
    then have op: "op \<in> {SkipSpace, End}" and b: "b1 = b" using b1(1) by auto
    have top: "st = EndTop \<longrightarrow> ps = []" using "2.prems"(1) by (simp add: same_point_def)
    have "same_point q1 q'"
      using jstep_skip [OF step ne op top] "2.prems"(1) unfolding q'
      by (elim disjE conjE; simp add: same_point_def complete_def; blast)
    from IH [OF this] True b show ?thesis by (simp add: step del: jstep.simps)
  next
    case False
    from jstep_same_point [OF "2.prems"(1) [unfolded q'] step ne] False
    have "jstep st' ps' c = (op, q1)" by simp
    moreover have "same_point q1 q1"
      using jstep_EndTop [of st ps c op "snd q1"] step by (cases q1) (auto intro: same_point_refl)
    ultimately show ?thesis using IH [of q1] False b1(1) by (simp add: step q' del: jstep.simps)
  qed
qed (auto simp: same_point_def)

text \<open>A text that reads the same from the same point on means the same.\<close>

lemma same_reading:
  assumes "json_valid s"
    "\<And>qe be. build (BeginValue, []) ([], NoVal) s = Some (qe, be) \<Longrightarrow> fst qe \<noteq> StError \<Longrightarrow>
       \<exists>qe'. build (BeginValue, []) ([], NoVal) t = Some (qe', be) \<and> same_point qe qe'"
  shows "json_valid t" "json_decode t = json_decode s"
proof -
  obtain st ps fs p where b: "build (BeginValue, []) ([], NoVal) s = Some ((st, ps), fs, p)"
  proof (cases "build (BeginValue, []) ([], NoVal) s")
    case None
    then have "json_decode s = None" by (simp add: json_decode_def)
    with assms(1) json_decode_total [of s] show thesis by simp
  qed (use that in \<open>auto split: prod.splits\<close>)
  have e: "at_eof (st, ps)" using assms(1) build_jscan [OF b] by (simp add: json_valid_def)
  then have "st \<noteq> StError" by auto
  with assms(2) [OF b] obtain st' ps' where
    b': "build (BeginValue, []) ([], NoVal) t = Some ((st', ps'), fs, p)"
    and sp: "same_point (st, ps) (st', ps')" by fastforce
  have "at_eof (st', ps')"
    using sp e unfolding same_point_def at_eof_complete by auto
  then show "json_valid t" using build_jscan [OF b'] by (simp add: json_valid_def)
  then show "json_decode t = json_decode s" using b b' assms(1) by (simp add: json_decode_def)
qed

lemma json_compact_meaning:
  assumes "json_compact s = Some t"
  shows "json_valid t" "json_decode t = json_decode s"
proof -
  have v: "json_valid s" and t: "t = compact_from (BeginValue, []) s"
    using assms by (auto simp: json_compact_def split: if_splits)
  show "json_valid t" "json_decode t = json_decode s"
    using same_reading [OF v, of t] compact_build [OF same_point_refl, of "(BeginValue, [])"]
    unfolding t by simp_all
qed

end
