(* ===== verification/Jsonutil.thy ===== *)
theory Jsonutil
  imports JsonCodec GoError
begin

text \<open>
  \<^verbatim>\<open>internal/jsonutil\<close>: deep merging of configuration documents (\<^verbatim>\<open>merge.go\<close>) and
  templates with \<^verbatim>\<open>{{NAME}}\<close> placeholders (\<^verbatim>\<open>template.go\<close>).
\<close>

section \<open>Numbers\<close>

text \<open>
  \<^verbatim>\<open>encoding/json\<close> reads a number into an \<^verbatim>\<open>any\<close> as a \<^verbatim>\<open>float64\<close> and prints it with
  the shortest text that reads back. \<open>fnum l\<close> is that text for the literal \<open>l\<close>, \<open>None\<close> when
  \<open>l\<close> is out of range and the decoder reports an error. \<open>float_text fnum\<close> is what \<^verbatim>\<open>strconv\<close>
  documents of it.
\<close>

definition float_text :: "(string \<Rightarrow> string option) \<Rightarrow> bool" where
  "float_text fnum \<longleftrightarrow> (\<forall>l t. fnum l = Some t \<longrightarrow> json_number t \<and> fnum t = Some t)"

fun norm_json :: "(string \<Rightarrow> string option) \<Rightarrow> json \<Rightarrow> json option"
  and norm_items :: "(string \<Rightarrow> string option) \<Rightarrow> json list \<Rightarrow> json list option"
  and norm_fields :: "(string \<Rightarrow> string option) \<Rightarrow> (string \<times> json) list \<Rightarrow> (string \<times> json) list option"
where
  "norm_json fnum (JNum l) = map_option JNum (fnum l)"
| "norm_json fnum (JArr vs) = map_option JArr (norm_items fnum vs)"
| "norm_json fnum (JObj m) = map_option JObj (norm_fields fnum m)"
| "norm_json fnum v = Some v"
| "norm_items fnum [] = Some []"
| "norm_items fnum (v # vs) =
     (case (norm_json fnum v, norm_items fnum vs) of
        (Some v', Some vs') \<Rightarrow> Some (v' # vs') | _ \<Rightarrow> None)"
| "norm_fields fnum [] = Some []"
| "norm_fields fnum ((k, v) # m) =
     (case (norm_json fnum v, norm_fields fnum m) of
        (Some v', Some m') \<Rightarrow> Some ((k, v') # m') | _ \<Rightarrow> None)"

section \<open>Merging\<close>

text \<open>
  \<^verbatim>\<open>json.Unmarshal\<close> into a \<^verbatim>\<open>map[string]any\<close>. The document \<^verbatim>\<open>null\<close> leaves the map nil;
  any other document that is not an object is a type error.
\<close>

definition unmarshal_map :: "(string \<Rightarrow> string option) \<Rightarrow> string \<Rightarrow> go_error + (string \<times> json) list option" where
  "unmarshal_map fnum s =
     (case Option.bind (json_decode s) (norm_json fnum) of
        Some JNull \<Rightarrow> Inr None
      | Some (JObj m) \<Rightarrow> Inr (Some m)
      | _ \<Rightarrow> Inl (ErrJson s))"

function (sequential) deepMerge :: "(string \<times> json) list \<Rightarrow> (string \<times> json) list \<Rightarrow> (string \<times> json) list" where
  "deepMerge base [] = base"
| "deepMerge base ((k, overrideVal) # override) =
     deepMerge
       (case map_of base k of
          None \<Rightarrow> put k overrideVal base
        | Some baseVal \<Rightarrow>
           (case (baseVal, overrideVal) of
              (JObj baseMap, JObj overrideMap) \<Rightarrow> put k (JObj (deepMerge baseMap overrideMap)) base
            | _ \<Rightarrow> put k overrideVal base))
       override"
  by pat_completeness auto
termination by (relation "measure (\<lambda>(b, m). size_list (size_prod (\<lambda>_. 0) size) m)") auto

text \<open>
  Go ranges over a map in an order it chooses anew each time: \<open>merge_run\<close> lets any binding of
  the override be the next one, at every level.
\<close>

inductive merge_run :: "(string \<times> json) list \<Rightarrow> (string \<times> json) list \<Rightarrow> (string \<times> json) list \<Rightarrow> bool" where
  merge_done: "merge_run base [] base"
| merge_absent: "(k, v) \<in> set override \<Longrightarrow> map_of base k = None \<Longrightarrow>
    merge_run (put k v base) (remove1 (k, v) override) result \<Longrightarrow> merge_run base override result"
| merge_nested: "(k, JObj m) \<in> set override \<Longrightarrow> map_of base k = Some (JObj b) \<Longrightarrow> merge_run b m b' \<Longrightarrow>
    merge_run (put k (JObj b') base) (remove1 (k, JObj m) override) result \<Longrightarrow> merge_run base override result"
| merge_replace: "(k, v) \<in> set override \<Longrightarrow> map_of base k = Some b \<Longrightarrow>
    \<not> (\<exists>m m'. v = JObj m \<and> b = JObj m') \<Longrightarrow>
    merge_run (put k v base) (remove1 (k, v) override) result \<Longrightarrow> merge_run base override result"

definition MergeJSON :: "(string \<Rightarrow> string option) \<Rightarrow> string \<Rightarrow> string \<Rightarrow> string outcome" where
  "MergeJSON fnum base override =
     (case unmarshal_map fnum base of
        Inl e \<Rightarrow> Failed (ErrWrap ''invalid base JSON'' e)
      | Inr baseMap \<Rightarrow>
     (case unmarshal_map fnum override of
        Inl e \<Rightarrow> Failed (ErrWrap ''invalid override JSON'' e)
      | Inr overrideMap \<Rightarrow>
     (case (baseMap, overrideMap) of
        (None, Some (_ # _)) \<Rightarrow> Panicked ''assignment to entry in nil map''
      | (None, _) \<Rightarrow> Returned (json_marshal JNull)
      | (Some b, None) \<Rightarrow> Returned (json_marshal (JObj b))
      | (Some b, Some m) \<Rightarrow> Returned (json_marshal (JObj (deepMerge b m))))))"

section \<open>Templates\<close>

definition name_char :: "char \<Rightarrow> bool" where
  "name_char c \<longleftrightarrow> is_upper c \<or> is_digit c \<or> c = CHR ''_''"

text \<open>
  \<^verbatim>\<open>placeholderRe\<close> at the head of a string: the submatch and what follows the match.
\<close>

definition match_placeholder :: "string \<Rightarrow> (string \<times> string) option" where
  "match_placeholder s =
     (if hasPrefix s ''{{''
      then let body = drop 2 s; name = takeWhile name_char body; rest = dropWhile name_char body
           in if name \<noteq> [] \<and> is_upper (hd name) \<and> hasPrefix rest ''}}''
              then Some (name, drop 2 rest) else None
      else None)"

lemma match_placeholder_length:
  "match_placeholder s = Some (name, rest) \<Longrightarrow> length rest < length s"
proof -
  assume a: "match_placeholder s = Some (name, rest)"
  then obtain r where s: "s = ''{{'' @ r" and rest: "rest = drop 2 (dropWhile name_char r)"
    by (auto simp: match_placeholder_def hasPrefix_append Let_def split: if_splits)
  show "length rest < length s"
    unfolding s rest using length_dropWhile_le [of name_char r] by simp
qed

datatype segment = Plain char | Hole string

text \<open>The leftmost, non-overlapping matches, with the bytes between them.\<close>

function (sequential) segments :: "string \<Rightarrow> segment list" where
  "segments [] = []"
| "segments (c # s) =
     (case match_placeholder (c # s) of
        Some (name, rest) \<Rightarrow> Hole name # segments rest
      | None \<Rightarrow> Plain c # segments s)"
  by pat_completeness auto

termination
  by (relation "measure length") (auto dest: match_placeholder_length)

fun hole_names :: "segment list \<Rightarrow> string list" where
  "hole_names [] = []"
| "hole_names (Plain c # t) = hole_names t"
| "hole_names (Hole n # t) = n # hole_names t"

definition ExtractPlaceholders :: "string \<Rightarrow> string list" where
  "ExtractPlaceholders template =
     sort (foldl (\<lambda>names n. if n \<in> set names then names else names @ [n]) [] (hole_names (segments template)))"

fun fill :: "(string \<rightharpoonup> string) \<Rightarrow> segment list \<Rightarrow> string" where
  "fill values [] = []"
| "fill values (Plain c # t) = c # fill values t"
| "fill values (Hole n # t) =
     (let encoded = json_quote (case values n of Some v \<Rightarrow> v | None \<Rightarrow> [])
      in butlast (tl encoded)) @ fill values t"

definition missing_error :: "string list \<Rightarrow> go_error" where
  "missing_error missing = ErrText (''missing required placeholder values: '' @ join '', '' missing)"

definition SubstitutePlaceholders :: "string \<Rightarrow> (string \<rightharpoonup> string) \<Rightarrow> go_error + string" where
  "SubstitutePlaceholders template values =
     (let missing = filter (\<lambda>n. values n = None) (ExtractPlaceholders template)
      in if missing \<noteq> []
         then Inl (missing_error missing)
         else Inr (fill values (segments template)))"

definition ValidateTemplate :: "string \<Rightarrow> go_error option" where
  "ValidateTemplate template =
     (let placeholders = ExtractPlaceholders template
      in if placeholders = [] then None
         else (case SubstitutePlaceholders template
                      (\<lambda>n. if n \<in> set placeholders then Some ''placeholder'' else None) of
                 Inl e \<Rightarrow> Some (ErrWrap ''template substitution failed'' e)
               | Inr r \<Rightarrow>
                   if \<not> json_valid r
                   then Some (ErrText ''template does not produce valid JSON after substitution'')
                   else None))"

section \<open>Merging, key by key\<close>

text \<open>What a key that the override binds to \<open>v\<close> holds afterwards.\<close>

definition merged :: "json option \<Rightarrow> json \<Rightarrow> json" where
  "merged b v = (case (b, v) of (Some (JObj bm), JObj m) \<Rightarrow> JObj (deepMerge bm m) | _ \<Rightarrow> v)"

lemma merged_simps [simp]:
  "merged (Some (JObj b)) (JObj m) = JObj (deepMerge b m)"
  "merged None v = v"
  "\<not> (\<exists>m m'. v = JObj m \<and> w = JObj m') \<Longrightarrow> merged (Some w) v = v"
  by (auto simp: merged_def split: json.splits option.splits)

lemma merged_scalar: "\<not> (\<exists>m. v = JObj m) \<Longrightarrow> merged b v = v"
  by (cases v) (auto simp: merged_def split: option.splits json.splits)

lemma deepMerge_Cons:
  "deepMerge base ((k, v) # override) = deepMerge (put k (merged (map_of base k) v) base) override"
  by (cases "map_of base k") (auto simp: merged_def split: json.splits)

declare deepMerge.simps(2) [simp del]

lemma deepMerge_induct [case_names Nil Cons]:
  assumes "\<And>base. P base []"
    "\<And>base k v override. P (put k (merged (map_of base k) v) base) override \<Longrightarrow>
       (\<And>b m. map_of base k = Some (JObj b) \<Longrightarrow> v = JObj m \<Longrightarrow> P b m) \<Longrightarrow> P base ((k, v) # override)"
  shows "P base override"
proof (induction base override rule: deepMerge.induct)
  case (2 base k v override)
  have "(case map_of base k of
          None \<Rightarrow> put k v base
        | Some baseVal \<Rightarrow>
           (case (baseVal, v) of
              (JObj baseMap, JObj overrideMap) \<Rightarrow> put k (JObj (deepMerge baseMap overrideMap)) base
            | _ \<Rightarrow> put k v base)) = put k (merged (map_of base k) v) base"
    by (cases "map_of base k") (auto simp: merged_def split: json.splits)
  with 2 show ?case by (intro assms(2)) auto
qed (rule assms(1))

lemma map_of_deepMerge:
  "distinct (map fst override) \<Longrightarrow>
   map_of (deepMerge base override) k =
     (case map_of override k of None \<Rightarrow> map_of base k | Some v \<Rightarrow> Some (merged (map_of base k) v))"
proof (induction override arbitrary: base)
  case (Cons b override)
  obtain k' v where b: "b = (k', v)" by (cases b)
  have "map_of override k' = None" using Cons.prems b by (simp add: map_of_eq_None_iff)
  with Cons b show ?case by (auto simp: deepMerge_Cons split: option.splits)
qed simp

lemma keys_sorted_deepMerge [simp]: "keys_sorted base \<Longrightarrow> keys_sorted (deepMerge base override)"
  by (induction override arbitrary: base) (auto simp: deepMerge_Cons)

definition wf_object :: "(string \<Rightarrow> bool) \<Rightarrow> (string \<times> json) list \<Rightarrow> bool" where
  "wf_object N m \<longleftrightarrow> keys_sorted m \<and> wf_fields N m"

lemma wf_object_JObj [simp]: "wf_json N (JObj m) \<longleftrightarrow> wf_object N m"
  by (simp add: wf_object_def)

declare wf_json.simps(4) [simp del]

lemma wf_object_simps [simp]:
  "wf_object N []" "wf_object N ((k, v) # m) \<longleftrightarrow>
     (\<forall>k' \<in> fst ` set m. k < k') \<and> valid_utf8 k \<and> wf_json N v \<and> wf_object N m"
  by (auto simp: wf_object_def)

lemma wf_object_map_of: "wf_object N m \<Longrightarrow> map_of m k = Some v \<Longrightarrow> valid_utf8 k \<and> wf_json N v"
  by (auto simp: wf_object_def wf_fields_iff dest!: map_of_SomeD)

lemma wf_object_put: "wf_object N m \<Longrightarrow> valid_utf8 k \<Longrightarrow> wf_json N v \<Longrightarrow> wf_object N (put k v m)"
  by (simp add: wf_object_def wf_fields_put)

lemma wf_object_remove1: "wf_object N m \<Longrightarrow> wf_object N (remove1 b m)"
proof (induction m)
  case (Cons a m)
  then show ?case using set_remove1_subset [of b m] by (cases a) auto
qed simp

lemma wf_object_distinct: "wf_object N m \<Longrightarrow> distinct (map fst m)"
  by (simp add: wf_object_def keys_sorted_distinct)

lemma wf_object_eqI:
  "wf_object N m \<Longrightarrow> wf_object N m' \<Longrightarrow> (\<And>k. map_of m k = map_of m' k) \<Longrightarrow> m = m'"
  by (auto simp: wf_object_def intro: keys_sorted_map_of_eq)

lemma wf_deepMerge: "wf_object N base \<Longrightarrow> wf_object N override \<Longrightarrow> wf_object N (deepMerge base override)"
proof (induction base override rule: deepMerge_induct)
  case (Cons base k v override)
  have "wf_json N (merged (map_of base k) v)"
    using Cons.prems Cons.IH(2) wf_object_map_of [OF Cons.prems(1), of k]
    by (auto simp: merged_def split: option.splits json.splits)
  with Cons show ?case by (simp add: deepMerge_Cons wf_object_put)
qed simp

lemma wf_merged:
  "(\<And>b. base = Some b \<Longrightarrow> wf_json N b) \<Longrightarrow> wf_json N v \<Longrightarrow> wf_json N (merged base v)"
  by (auto simp: merged_def wf_deepMerge split: option.splits json.splits)

lemma map_of_remove1:
  "distinct (map fst m) \<Longrightarrow> (k, v) \<in> set m \<Longrightarrow> map_of (remove1 (k, v) m) = (map_of m)(k := None)"
proof (induction m)
  case (Cons b m)
  obtain k' w where b: "b = (k', w)" by (cases b)
  show ?case
  proof (cases "b = (k, v)")
    case True
    then have "map_of m k = None" using Cons.prems b by (simp add: map_of_eq_None_iff)
    with True show ?thesis by auto
  next
    case False
    then have "(k, v) \<in> set m" "k \<noteq> k'" using Cons.prems b by (force, force)
    with Cons b False show ?thesis by auto
  qed
qed simp

text \<open>The order in which the override's bindings are visited does not matter.\<close>

lemma deepMerge_any_first:
  assumes "wf_object N base" "wf_object N override" "(k, v) \<in> set override"
  shows "deepMerge (put k (merged (map_of base k) v) base) (remove1 (k, v) override) = deepMerge base override"
    "wf_object N (put k (merged (map_of base k) v) base)"
proof -
  note d = wf_object_distinct [OF assms(2)]
  have v: "map_of override k = Some v" using d assms(3) by simp
  show w: "wf_object N (put k (merged (map_of base k) v) base)"
    using wf_object_map_of [OF assms(2) v] wf_object_map_of [OF assms(1)] assms(1)
    by (intro wf_object_put wf_merged) auto
  show "deepMerge (put k (merged (map_of base k) v) base) (remove1 (k, v) override) = deepMerge base override"
  proof (rule wf_object_eqI [of N])
    show "wf_object N (deepMerge (put k (merged (map_of base k) v) base) (remove1 (k, v) override))"
      "wf_object N (deepMerge base override)"
      using assms w by (auto intro: wf_deepMerge wf_object_remove1)
    show "map_of (deepMerge (put k (merged (map_of base k) v) base) (remove1 (k, v) override)) k'
        = map_of (deepMerge base override) k'" for k'
      using d v wf_object_distinct [OF wf_object_remove1 [OF assms(2)]]
      by (auto simp: map_of_deepMerge map_of_remove1 [OF d assms(3)] split: option.split)
  qed
qed

lemma merge_run_deepMerge:
  "merge_run base override result \<Longrightarrow> wf_object N base \<Longrightarrow> wf_object N override \<Longrightarrow>
   result = deepMerge base override"
proof (induction rule: merge_run.induct)
  case (merge_absent k v override base result)
  with deepMerge_any_first [OF merge_absent.prems merge_absent(1)] show ?case
    by (simp add: wf_object_remove1)
next
  case (merge_nested k m override base b b' result)
  have "map_of override k = Some (JObj m)"
    using wf_object_distinct [OF merge_nested.prems(2)] merge_nested(1) by simp
  then have "b' = deepMerge b m"
    using merge_nested wf_object_map_of by (metis wf_object_JObj)
  with merge_nested deepMerge_any_first [OF merge_nested.prems merge_nested(1)] show ?case
    by (simp add: wf_object_remove1)
next
  case (merge_replace k v override base b result)
  with deepMerge_any_first [OF merge_replace.prems merge_replace(1)] show ?case
    by (simp add: wf_object_remove1)
qed simp

lemma merge_run_exists: "merge_run base override (deepMerge base override)"
proof (induction base override rule: deepMerge_induct)
  case (Nil base)
  show ?case by (simp add: merge_done)
next
  case (Cons base k v override)
  have run: "merge_run (put k (merged (map_of base k) v) base) (remove1 (k, v) ((k, v) # override))
      (deepMerge base ((k, v) # override))"
    using Cons.IH(1) by (simp add: deepMerge_Cons)
  show ?case
  proof (cases "map_of base k")
    case None
    show ?thesis
      by (rule merge_absent [of k v]) (use None run in simp_all)
  next
    case (Some w)
    show ?thesis
    proof (cases "\<exists>m m'. v = JObj m \<and> w = JObj m'")
      case True
      then obtain m b where "v = JObj m" "w = JObj b" by blast
      with Some Cons.IH(2) have "merge_run b m (deepMerge b m)" by simp
      with run Some \<open>v = JObj m\<close> \<open>w = JObj b\<close> show ?thesis
        by (intro merge_nested [of k m _ base b]) simp_all
    next
      case False
      then show ?thesis
        by (intro merge_replace [of k v _ base w]) (use run Some in simp_all)
    qed
  qed
qed

lemma deepMerge_self: "wf_object N m \<Longrightarrow> deepMerge m m = m"
proof (induction "size_list (size_prod (\<lambda>_. 0) size) m" arbitrary: m rule: less_induct)
  case less
  have "merged (Some v) v = v" if "map_of m k = Some v" for k v
  proof (cases "\<exists>b. v = JObj b")
    case True
    then obtain b where b: "v = JObj b" by blast
    have "size v < size_list (size_prod (\<lambda>_. 0) size) m"
      using map_of_SomeD [OF that] by (induction m) auto
    then have "deepMerge b b = b"
      using less.hyps [of b] wf_object_map_of [OF less.prems that] b by simp
    with b show ?thesis by simp
  qed (simp add: merged_scalar)
  then have "map_of (deepMerge m m) k = map_of m k" for k
    by (simp add: map_of_deepMerge wf_object_distinct [OF less.prems] split: option.split)
  then show ?case by (rule wf_object_eqI [OF wf_deepMerge [OF less.prems less.prems] less.prems])
qed

lemma deepMerge_idem:
  "wf_object N base \<Longrightarrow> wf_object N override \<Longrightarrow>
   deepMerge (deepMerge base override) override = deepMerge base override"
proof (induction "size_list (size_prod (\<lambda>_. 0) size) override" arbitrary: base override rule: less_induct)
  case less
  have "merged (Some (merged (map_of base k) v)) v = merged (map_of base k) v"
    if v: "map_of override k = Some v" for k v
  proof (cases "\<exists>m. v = JObj m")
    case True
    then obtain m where m: "v = JObj m" by blast
    have "size v < size_list (size_prod (\<lambda>_. 0) size) override"
      using map_of_SomeD [OF v] by (induction override) auto
    moreover have wm: "wf_object N m" using wf_object_map_of [OF less.prems(2) v] m by simp
    ultimately have "deepMerge (deepMerge b m) m = deepMerge b m" if "wf_object N b" for b
      using less.hyps [of m b] m that by simp
    then show ?thesis
      using wf_object_map_of [OF less.prems(1), of k] m deepMerge_self [OF wm]
      by (cases "map_of base k"; cases "the (map_of base k)") (simp_all add: merged_def)
  qed (simp add: merged_scalar)
  then have "map_of (deepMerge (deepMerge base override) override) k = map_of (deepMerge base override) k" for k
    using map_of_deepMerge [OF wf_object_distinct [OF less.prems(2)]]
    by (cases "map_of override k") simp_all
  then show ?case
    using less.prems by (intro wf_object_eqI [of N]) (auto intro: wf_deepMerge)
qed

lemma fields_depth_merged:
  "fields_depth (deepMerge base override) \<le> max (fields_depth base) (fields_depth override)"
proof (induction base override rule: deepMerge_induct)
  case (Cons base k v override)
  have b: "jdepth b \<le> fields_depth base" if "map_of base k = Some b" for b
    using fields_depth_le [of base "fields_depth base"] map_of_SomeD [OF that] by auto
  have "jdepth (merged (map_of base k) v) \<le> max (fields_depth base) (jdepth v)"
    using Cons.IH(2) b by (cases "map_of base k") (fastforce simp: merged_def split: json.splits)+
  then show ?case
    using Cons.IH(1) fields_depth_put [of k "merged (map_of base k) v" base]
    by (simp add: deepMerge_Cons)
qed simp

section \<open>The merged document\<close>

definition normal_number :: "(string \<Rightarrow> string option) \<Rightarrow> string \<Rightarrow> bool" where
  "normal_number fnum l \<longleftrightarrow> json_number l \<and> fnum l = Some l"

lemma wf_json_mono:
  "(\<And>l. N l \<Longrightarrow> N' l) \<Longrightarrow> wf_json N v \<Longrightarrow> wf_json N' v"
  "(\<And>l. N l \<Longrightarrow> N' l) \<Longrightarrow> wf_items N vs \<Longrightarrow> wf_items N' vs"
  "(\<And>l. N l \<Longrightarrow> N' l) \<Longrightarrow> wf_fields N m \<Longrightarrow> wf_fields N' m"
  by (induction N v and N vs and N m rule: wf_json_wf_items_wf_fields.induct)
    (auto simp: wf_object_def)

lemma norm_fields_keys: "norm_fields fnum m = Some m' \<Longrightarrow> map fst m' = map fst m"
  by (induction m arbitrary: m') (auto split: option.splits)

lemma norm_wf:
  "float_text fnum \<Longrightarrow> norm_json fnum v = Some v' \<Longrightarrow> wf_json (\<lambda>_. True) v \<Longrightarrow>
      wf_json (normal_number fnum) v' \<and> jdepth v' = jdepth v"
  "float_text fnum \<Longrightarrow> norm_items fnum vs = Some vs' \<Longrightarrow> wf_items (\<lambda>_. True) vs \<Longrightarrow>
      wf_items (normal_number fnum) vs' \<and> items_depth vs' = items_depth vs"
  "float_text fnum \<Longrightarrow> norm_fields fnum m = Some m' \<Longrightarrow> wf_fields (\<lambda>_. True) m \<Longrightarrow>
      wf_fields (normal_number fnum) m' \<and> fields_depth m' = fields_depth m"
proof (induction fnum v and fnum vs and fnum m arbitrary: v' and vs' and m'
    rule: norm_json_norm_items_norm_fields.induct)
  case (1 fnum l)
  then show ?case by (auto simp: normal_number_def float_text_def)
next
  case (3 fnum m)
  then show ?case by (auto simp: wf_object_def keys_sorted_def norm_fields_keys)
qed (auto split: option.splits)

lemma norm_normal:
  "wf_json (normal_number fnum) v \<Longrightarrow> norm_json fnum v = Some v"
  "wf_items (normal_number fnum) vs \<Longrightarrow> norm_items fnum vs = Some vs"
  "wf_fields (normal_number fnum) m \<Longrightarrow> norm_fields fnum m = Some m"
  by (induction fnum v and fnum vs and fnum m rule: norm_json_norm_items_norm_fields.induct)
    (auto simp: normal_number_def wf_object_def)

lemma unmarshal_map_Some:
  assumes "unmarshal_map fnum s = Inr (Some m)"
  obtains v where "json_decode s = Some v" "norm_json fnum v = Some (JObj m)"
proof (cases "Option.bind (json_decode s) (norm_json fnum)")
  case (Some w)
  with assms have "w = JObj m" by (cases w) (simp_all add: unmarshal_map_def)
  with Some that show thesis by (auto simp: bind_eq_Some_conv simp del: norm_json.simps)
qed (use assms in \<open>simp add: unmarshal_map_def\<close>)

lemma unmarshal_map_wf:
  assumes "float_text fnum" "unmarshal_map fnum s = Inr (Some m)"
  shows "wf_object (normal_number fnum) m" "jdepth (JObj m) \<le> maxNestingDepth"
proof -
  obtain v where v: "json_decode s = Some v" "norm_json fnum v = Some (JObj m)"
    using assms(2) by (rule unmarshal_map_Some)
  from norm_wf(1) [OF assms(1) v(2) json_decode_wf(1) [OF v(1)]] json_decode_wf(2) [OF v(1)]
  show "wf_object (normal_number fnum) m" "jdepth (JObj m) \<le> maxNestingDepth" by simp_all
qed

lemma unmarshal_marshal:
  assumes "wf_object (normal_number fnum) m" "jdepth (JObj m) \<le> maxNestingDepth"
  shows "json_valid (json_marshal (JObj m))" "unmarshal_map fnum (json_marshal (JObj m)) = Inr (Some m)"
proof -
  have w: "wf_json (normal_number fnum) (JObj m)" using assms(1) by simp
  have "wf_json json_number (JObj m)"
    by (rule wf_json_mono(1) [OF _ w]) (simp add: normal_number_def)
  note dec = json_decode_marshal [OF this, folded maxNestingDepth_def, OF assms(2)]
  show "json_valid (json_marshal (JObj m))" "unmarshal_map fnum (json_marshal (JObj m)) = Inr (Some m)"
    using dec norm_normal(1) [OF w] by (simp_all add: unmarshal_map_def del: norm_json.simps json_marshal.simps)
qed

definition map_or_empty :: "(string \<times> json) list option \<Rightarrow> (string \<times> json) list" where
  "map_or_empty m = (case m of None \<Rightarrow> [] | Some m \<Rightarrow> m)"

lemma MergeJSON_objects:
  "unmarshal_map fnum base = Inr (Some b) \<Longrightarrow> unmarshal_map fnum override = Inr m \<Longrightarrow>
   MergeJSON fnum base override = Returned (json_marshal (JObj (deepMerge b (map_or_empty m))))"
  by (simp add: MergeJSON_def map_or_empty_def split: option.split)

lemma unmarshal_merged:
  assumes "float_text fnum" "unmarshal_map fnum base = Inr (Some b)" "unmarshal_map fnum override = Inr m"
  shows "json_valid (json_marshal (JObj (deepMerge b (map_or_empty m))))"
    "unmarshal_map fnum (json_marshal (JObj (deepMerge b (map_or_empty m))))
      = Inr (Some (deepMerge b (map_or_empty m)))"
    "wf_object (normal_number fnum) b" "wf_object (normal_number fnum) (map_or_empty m)"
proof -
  show wf: "wf_object (normal_number fnum) b" "wf_object (normal_number fnum) (map_or_empty m)"
    using unmarshal_map_wf(1) [OF assms(1)] assms(2,3)
    by (auto simp: map_or_empty_def split: option.split)
  have "jdepth (JObj (map_or_empty m)) \<le> maxNestingDepth"
    using unmarshal_map_wf(2) [OF assms(1)] assms(3)
    by (auto simp: map_or_empty_def maxNestingDepth_def split: option.split)
  then have "jdepth (JObj (deepMerge b (map_or_empty m))) \<le> maxNestingDepth"
    using unmarshal_map_wf(2) [OF assms(1,2)] fields_depth_merged [of b "map_or_empty m"] by simp
  from unmarshal_marshal [OF wf_deepMerge [OF wf] this]
  show "json_valid (json_marshal (JObj (deepMerge b (map_or_empty m))))"
    "unmarshal_map fnum (json_marshal (JObj (deepMerge b (map_or_empty m))))
      = Inr (Some (deepMerge b (map_or_empty m)))" by auto
qed

section \<open>Paths through a document\<close>

fun json_at :: "string list \<Rightarrow> json \<Rightarrow> json option" where
  "json_at [] v = Some v"
| "json_at (k # p) (JObj m) = Option.bind (map_of m k) (json_at p)"
| "json_at (k # p) _ = None"

definition leaf :: "json \<Rightarrow> bool" where
  "leaf v \<longleftrightarrow> (\<nexists>m. v = JObj m)"

text \<open>The override says something at \<open>p\<close>: it binds \<open>p\<close>, or a leaf on the way to \<open>p\<close>.\<close>

definition overrides :: "json \<Rightarrow> string list \<Rightarrow> bool" where
  "overrides v p \<longleftrightarrow> json_at p v \<noteq> None \<or> (\<exists>n w. json_at (take n p) v = Some w \<and> leaf w)"

lemma json_at_leaf_merged:
  "wf_object N b \<Longrightarrow> wf_object N m \<Longrightarrow> json_at p (JObj m) = Some v \<Longrightarrow> leaf v \<Longrightarrow>
   json_at p (JObj (deepMerge b m)) = Some v"
proof (induction p arbitrary: b m)
  case (Cons k p)
  obtain w where w: "map_of m k = Some w" "json_at p w = Some v"
    using Cons.prems(3) by (auto simp: bind_eq_Some_conv)
  have "json_at p (merged (map_of b k) w) = Some v"
  proof (cases "\<exists>b' m'. map_of b k = Some (JObj b') \<and> w = JObj m'")
    case True
    then obtain b' m' where *: "map_of b k = Some (JObj b')" "w = JObj m'" by blast
    then show ?thesis
      using Cons.IH [of b' m'] Cons.prems w wf_object_map_of by simp (metis wf_object_JObj)
  next
    case False
    then have "merged (map_of b k) w = w" by (cases "map_of b k") auto
    with w(2) show ?thesis by simp
  qed
  then show ?case
    using w(1) wf_object_distinct [OF Cons.prems(2)] by (simp add: map_of_deepMerge)
qed (auto simp: leaf_def)

lemma overrides_Cons:
  "map_of m k = Some w \<Longrightarrow> \<not> overrides (JObj m) (k # p) \<Longrightarrow> \<not> overrides w p"
proof
  assume m: "map_of m k = Some w" and no: "\<not> overrides (JObj m) (k # p)" and "overrides w p"
  from \<open>overrides w p\<close> consider "json_at p w \<noteq> None" | n u where "json_at (take n p) w = Some u" "leaf u"
    unfolding overrides_def by blast
  then show False
  proof cases
    case 1
    with m no show False by (simp add: overrides_def)
  next
    case (2 n u)
    then have "json_at (take (Suc n) (k # p)) (JObj m) = Some u" using m by simp
    with 2(2) no show False unfolding overrides_def by blast
  qed
qed

lemma json_at_kept_merged:
  "wf_object N b \<Longrightarrow> wf_object N m \<Longrightarrow> \<not> overrides (JObj m) p \<Longrightarrow>
   json_at p (JObj (deepMerge b m)) = json_at p (JObj b)"
proof (induction p arbitrary: b m)
  case (Cons k p)
  show ?case
  proof (cases "map_of m k")
    case None
    then show ?thesis
      using wf_object_distinct [OF Cons.prems(2)] by (simp add: map_of_deepMerge)
  next
    case (Some w)
    note no = overrides_Cons [OF Some Cons.prems(3)]
    then have "\<not> leaf w" "p \<noteq> []"
      by (auto simp: overrides_def dest: spec [of _ 0])
    then obtain m' where m': "w = JObj m'" by (auto simp: leaf_def)
    show ?thesis
    proof (cases "\<exists>b'. map_of b k = Some (JObj b')")
      case True
      then obtain b' where b': "map_of b k = Some (JObj b')" by blast
      then have "json_at p (JObj (deepMerge b' m')) = json_at p (JObj b')"
        using Cons.IH [of b' m'] Cons.prems no Some m' wf_object_map_of by (metis wf_object_JObj)
      then show ?thesis
        using Some m' b' wf_object_distinct [OF Cons.prems(2)] by (simp add: map_of_deepMerge)
    next
      case False
      then have "merged (map_of b k) w = w" using m' by (cases "map_of b k") auto
      moreover have "json_at p v = None" if "map_of b k = Some v" for v
        using that False \<open>p \<noteq> []\<close> by (cases p; cases v) auto
      moreover have "json_at p w = None" using no by (auto simp: overrides_def)
      ultimately show ?thesis
        using Some wf_object_distinct [OF Cons.prems(2)]
        by (cases "map_of b k") (simp_all add: map_of_deepMerge)
    qed
  qed
qed (simp add: overrides_def)

section \<open>Properties of MergeJSON\<close>

text \<open>Property C25. Merging two objects succeeds with a valid document that can be read back. In it
  every path at which the override has a leaf holds that leaf, every path about which the override
  says nothing holds what it held in the base, and the document is the same whatever order Go
  ranges over the override's bindings in.\<close>

theorem MergeJSON_meaning:
  assumes "float_text fnum" "unmarshal_map fnum base = Inr (Some b)" "unmarshal_map fnum override = Inr m"
  shows "\<exists>out r. MergeJSON fnum base override = Returned out \<and> json_valid out
    \<and> unmarshal_map fnum out = Inr (Some r)
    \<and> (\<forall>p v. json_at p (JObj (map_or_empty m)) = Some v \<longrightarrow> leaf v \<longrightarrow> json_at p (JObj r) = Some v)
    \<and> (\<forall>p. \<not> overrides (JObj (map_or_empty m)) p \<longrightarrow> json_at p (JObj r) = json_at p (JObj b))
    \<and> (\<forall>r'. merge_run b (map_or_empty m) r' \<longrightarrow> json_marshal (JObj r') = out)"
proof (intro exI conjI allI impI)
  note u = unmarshal_merged [OF assms]
  show "MergeJSON fnum base override = Returned (json_marshal (JObj (deepMerge b (map_or_empty m))))"
    by (rule MergeJSON_objects [OF assms(2,3)])
  show "json_valid (json_marshal (JObj (deepMerge b (map_or_empty m))))" by (rule u(1))
  show "unmarshal_map fnum (json_marshal (JObj (deepMerge b (map_or_empty m))))
      = Inr (Some (deepMerge b (map_or_empty m)))" by (rule u(2))
  show "json_at p (JObj (deepMerge b (map_or_empty m))) = Some v"
    if "json_at p (JObj (map_or_empty m)) = Some v" "leaf v" for p v
    using json_at_leaf_merged [OF u(3,4) that] .
  show "json_at p (JObj (deepMerge b (map_or_empty m))) = json_at p (JObj b)"
    if "\<not> overrides (JObj (map_or_empty m)) p" for p
    using json_at_kept_merged [OF u(3,4) that] .
  show "json_marshal (JObj r') = json_marshal (JObj (deepMerge b (map_or_empty m)))"
    if "merge_run b (map_or_empty m) r'" for r'
    using merge_run_deepMerge [OF that u(3,4)] by simp
qed

definition tiny_float :: "string \<Rightarrow> string option" where
  "tiny_float l = (if l \<in> {''1'', ''1.0''} then Some ''1'' else if l = ''2'' then Some l else None)"

lemma tiny_float_text: "float_text tiny_float"
  by (auto simp: float_text_def tiny_float_def json_number_def begin_value_def isSpace_def is_digit_def)

lemma unmarshal_examples:
  "unmarshal_map tiny_float (CHR ''{'' # json_quote ''a'' @ '':1.0}'') = Inr (Some [(''a'', JNum ''1'')])"
  "unmarshal_map tiny_float (CHR ''{'' # json_quote ''b'' @ '':2}'') = Inr (Some [(''b'', JNum ''2'')])"
  "unmarshal_map tiny_float ''null'' = Inr None" "unmarshal_map tiny_float ''{}'' = Inr (Some [])"
  by (simp_all add: unmarshal_map_def json_decode_def json_valid_def at_eof_def begin_value_def begin_string_def
      isSpace_def push_state_def maxNestingDepth_def json_quote_def escape_ascii_def dq_def bs_def
      expect_def end_value_def end_top_def pop_state_def is_digit_def state0_def literal_value_def tiny_float_def)

lemma MergeJSON_meaning_witness:
  "\<exists>out. MergeJSON tiny_float (CHR ''{'' # json_quote ''a'' @ '':1.0}'') (CHR ''{'' # json_quote ''b'' @ '':2}'')
     = Returned out \<and> json_valid out"
  using MergeJSON_meaning [OF tiny_float_text unmarshal_examples(1,2)] by blast

text \<open>Applying the same override again changes nothing.\<close>

theorem MergeJSON_idempotent:
  assumes "float_text fnum" "unmarshal_map fnum base = Inr (Some b)"
    "MergeJSON fnum base override = Returned out"
  shows "MergeJSON fnum out override = Returned out"
proof -
  obtain m where m: "unmarshal_map fnum override = Inr m"
    using assms(2,3) by (auto simp: MergeJSON_def split: sum.splits)
  note u = unmarshal_merged [OF assms(1,2) m]
  have "out = json_marshal (JObj (deepMerge b (map_or_empty m)))"
    using MergeJSON_objects [OF assms(2) m] assms(3) by simp
  then show ?thesis
    using MergeJSON_objects [OF u(2) m] deepMerge_idem [OF u(3,4)] by simp
qed

lemma MergeJSON_idempotent_witness:
  "\<exists>out. MergeJSON tiny_float (CHR ''{'' # json_quote ''a'' @ '':1.0}'') (CHR ''{'' # json_quote ''b'' @ '':2}'')
     = Returned out
   \<and> MergeJSON tiny_float out (CHR ''{'' # json_quote ''b'' @ '':2}'') = Returned out"
  using MergeJSON_idempotent [OF tiny_float_text unmarshal_examples(1)]
    MergeJSON_objects [OF unmarshal_examples(1,2)] by blast


section \<open>Placeholders\<close>

lemma foldl_dedup:
  "distinct acc \<Longrightarrow>
   distinct (foldl (\<lambda>names n. if n \<in> set names then names else names @ [n]) acc ns)
   \<and> set (foldl (\<lambda>names n. if n \<in> set names then names else names @ [n]) acc ns) = set acc \<union> set ns"
  by (induction ns arbitrary: acc) auto

lemma ExtractPlaceholders_set:
  "set (ExtractPlaceholders t) = set (hole_names (segments t))" "distinct (ExtractPlaceholders t)"
  "sorted (ExtractPlaceholders t)"
  using foldl_dedup [of "[]" "hole_names (segments t)"] by (auto simp: ExtractPlaceholders_def)

lemma hole_names_set: "set (hole_names t) = {n. Hole n \<in> set t}"
  by (induction t rule: hole_names.induct) auto

lemma match_placeholder_Some:
  "match_placeholder s = Some (name, rest) \<longleftrightarrow>
     s = ''{{'' @ name @ ''}}'' @ rest \<and> name \<noteq> [] \<and> is_upper (hd name) \<and> list_all name_char name"
proof
  assume "match_placeholder s = Some (name, rest)"
  then obtain body where *: "s = ''{{'' @ body" "name = takeWhile name_char body" "name \<noteq> []"
    "is_upper (hd name)" "hasPrefix (dropWhile name_char body) ''}}''"
    "rest = drop 2 (dropWhile name_char body)"
    by (auto simp: match_placeholder_def hasPrefix_append Let_def split: if_splits)
  then have "dropWhile name_char body = ''}}'' @ rest" by (auto simp: hasPrefix_append)
  then have "body = name @ ''}}'' @ rest" using *(2) by (metis takeWhile_dropWhile_id)
  then show "s = ''{{'' @ name @ ''}}'' @ rest \<and> name \<noteq> [] \<and> is_upper (hd name) \<and> list_all name_char name"
    using * by (auto simp: list_all_iff dest: set_takeWhileD)
next
  assume a: "s = ''{{'' @ name @ ''}}'' @ rest \<and> name \<noteq> [] \<and> is_upper (hd name) \<and> list_all name_char name"
  have "\<not> name_char (CHR ''}'')" by (simp add: name_char_def is_upper_def is_digit_def)
  moreover have "\<forall>c \<in> set name. name_char c" using a by (simp add: list_all_iff)
  ultimately have "takeWhile name_char (name @ ''}}'' @ rest) = name"
    "dropWhile name_char (name @ ''}}'' @ rest) = ''}}'' @ rest"
    by (simp_all add: takeWhile_append2 dropWhile_append2)
  with a show "match_placeholder s = Some (name, rest)"
    by (simp add: match_placeholder_def hasPrefix_def Let_def)
qed

definition is_name :: "string \<Rightarrow> bool" where
  "is_name n \<longleftrightarrow> n \<noteq> [] \<and> is_upper (hd n) \<and> list_all name_char n"

definition hole_text :: "string \<Rightarrow> string" where
  "hole_text n = ''{{'' @ n @ ''}}''"

lemma match_placeholder_text: "match_placeholder s = Some (name, rest) \<longleftrightarrow> s = hole_text name @ rest \<and> is_name name"
  by (simp add: match_placeholder_Some is_name_def hole_text_def)

text \<open>The template, put together again.\<close>

fun unparse :: "segment list \<Rightarrow> string" where
  "unparse [] = []"
| "unparse (Plain c # t) = c # unparse t"
| "unparse (Hole n # t) = ''{{'' @ n @ ''}}'' @ unparse t"

lemma unparse_segments: "unparse (segments s) = s"
proof (induction s rule: segments.induct)
  case (2 c s)
  show ?case
  proof (cases "match_placeholder (c # s)")
    case None
    with 2 show ?thesis by simp
  next
    case (Some nr)
    then obtain n r where nr: "match_placeholder (c # s) = Some (n, r)" by (cases nr) auto
    with 2 match_placeholder_Some [of "c # s" n r] show ?thesis by simp
  qed
qed simp

text \<open>No placeholder is left out: none begins in the plain bytes.\<close>

lemma segments_Plain:
  "segments s = t @ Plain c # u \<Longrightarrow> match_placeholder (unparse (Plain c # u)) = None"
proof (induction s arbitrary: t rule: segments.induct)
  case (2 d s)
  show ?case
  proof (cases "match_placeholder (d # s)")
    case None
    show ?thesis
    proof (cases t)
      case Nil
      with None "2.prems" have "d = c" "segments s = u" by auto
      with None unparse_segments [of s] show ?thesis by simp
    next
      case (Cons x t')
      with None "2.prems" have "segments s = t' @ Plain c # u" by auto
      with "2.IH"(1) [OF None] show ?thesis by simp
    qed
  next
    case (Some nr)
    obtain n r where nr: "nr = (n, r)" by (cases nr)
    show ?thesis
    proof (cases t)
      case Nil
      with Some nr "2.prems" show ?thesis by simp
    next
      case (Cons x t')
      with Some nr "2.prems" have "segments r = t' @ Plain c # u" by auto
      with "2.IH"(2) [OF Some nr [symmetric]] show ?thesis by simp
    qed
  qed
qed simp

section \<open>Filling templates\<close>

lemma butlast_quote [simp]: "butlast (tl (json_quote v)) = json_escape v"
  by (simp add: json_quote_def butlast_append)

definition plain_of :: "(string \<rightharpoonup> string) \<Rightarrow> string \<Rightarrow> string" where
  "plain_of values n = (case values n of Some v \<Rightarrow> v | None \<Rightarrow> [])"

lemma fill_Hole [simp]: "fill values (Hole n # t) = json_escape (plain_of values n) @ fill values t"
  by (simp add: plain_of_def)

declare fill.simps(3) [simp del]

text \<open>
  The structure of a text: the op codes of the scanner, without those inside literals. Two
  texts with the same structure open and close the same objects and arrays around the same
  number of keys and values, in the same order.
\<close>

fun ops :: "sconf \<Rightarrow> string \<Rightarrow> scode list" where
  "ops q [] = []"
| "ops (st, ps) (c # s) =
     (case jstep st ps c of (op, q) \<Rightarrow> if op = Continue then ops q s else op # ops q s)"

definition json_structure :: "string \<Rightarrow> scode list" where
  "json_structure s = ops (BeginValue, []) s"

lemma ops_append: "ops q (s @ t) = ops q s @ ops (jscan q s) t"
  by (induction q s rule: ops.induct) (auto split: prod.splits)

lemma ops_in_string:
  "st \<in> in_string \<Longrightarrow> jscan (st, []) s = (st', []) \<Longrightarrow> st' \<in> in_string \<Longrightarrow> ops (st, ps) s = []"
proof (induction s arbitrary: st)
  case (Cons c s)
  from jstep_string_out [OF Cons.prems(1), of c] show ?case
  proof
    assume "\<exists>st1 \<in> in_string. jstep st [] c = (Continue, st1, [])"
    then obtain st1 where "st1 \<in> in_string" "jstep st [] c = (Continue, st1, [])" by auto
    then show ?thesis
      using Cons.IH [of st1] Cons.prems jstep_string_stack [OF Cons.prems(1), of ps c] by simp
  next
    assume "snd (jstep st [] c) \<in> {(EndValue, []), (StError, [])}"
    with jscan_after_end [of "snd (jstep st [] c)" s] Cons.prems(2,3) show ?thesis
      by (auto simp: in_string_def)
  qed
qed simp

lemma ops_json_escape: "ops (InString, ps) (json_escape v) = []"
  by (rule ops_in_string [of _ _ InString]) (simp_all add: jscan_json_escape)

text \<open>Only inside a string can the scanner take the \<^verbatim>\<open>p\<close> of \<^verbatim>\<open>placeholder\<close>.\<close>

lemma end_value_p: "fst (snd (end_value ps (CHR ''p''))) = StError"
  by (simp add: end_value_def end_top_def scan_error_def isSpace_def split: list.split pstate.split)

lemma jstep_p: "fst (snd (jstep st ps (CHR ''p''))) = StError \<or> st = InString"
  by (cases st)
    (simp_all add: end_value_p begin_value_def begin_string_def scan_error_def expect_def
      state0_def end_top_def isSpace_def is_digit_def is_hex_def)

lemma jscan_placeholder:
  assumes "fst (jscan (st, ps) (json_escape ''placeholder'' @ s)) \<noteq> StError"
  shows "st = InString"
proof -
  have p: "json_escape ''placeholder'' = CHR ''p'' # ''laceholder''"
    by (simp add: escape_ascii_def dq_def bs_def)
  obtain st' ps' where q: "snd (jstep st ps (CHR ''p'')) = (st', ps')" by fastforce
  have "fst (jscan (snd (jstep st ps (CHR ''p''))) (''laceholder'' @ s)) \<noteq> StError"
    using assms unfolding p by (simp del: jstep.simps)
  with q have "st' \<noteq> StError" by auto
  with jstep_p [of st ps] q show ?thesis by auto
qed

definition dummy :: "string list \<Rightarrow> string \<rightharpoonup> string" where
  "dummy names n = (if n \<in> set names then Some ''placeholder'' else None)"

lemma fill_structure:
  "set (hole_names t) \<subseteq> set names \<Longrightarrow> fst (jscan q (fill (dummy names) t)) \<noteq> StError \<Longrightarrow>
   jscan q (fill values t) = jscan q (fill (dummy names) t)
   \<and> ops q (fill values t) = ops q (fill (dummy names) t)"
proof (induction t arbitrary: q rule: hole_names.induct)
  case (2 c t)
  obtain st ps where q: "q = (st, ps)" by (cases q)
  obtain op q1 where step: "jstep st ps c = (op, q1)" by (metis prod.exhaust)
  with 2 show ?case by (simp add: q)
next
  case (3 n t)
  obtain st ps where q: "q = (st, ps)" by (cases q)
  have d: "plain_of (dummy names) n = ''placeholder''" using 3(2) by (simp add: plain_of_def dummy_def)
  have "st = InString"
    using 3(3) jscan_placeholder [of st ps "fill (dummy names) t"] by (simp add: q d)
  then have sc: "jscan q (json_escape v) = q" and op: "ops q (json_escape v) = []" for v
    using jscan_json_escape ops_json_escape by (simp_all add: q)
  have "fst (jscan q (fill (dummy names) t)) \<noteq> StError"
    using 3(3) sc by (simp add: jscan_append)
  with 3(1) [of q] 3(2) sc op show ?case by (simp add: jscan_append ops_append)
qed simp

lemma ValidateTemplate_dummy:
  "ExtractPlaceholders t \<noteq> [] \<Longrightarrow>
   ValidateTemplate t = None \<longleftrightarrow> json_valid (fill (dummy (ExtractPlaceholders t)) (segments t))"
proof -
  assume ne: "ExtractPlaceholders t \<noteq> []"
  have "dummy (ExtractPlaceholders t) = (\<lambda>n. if n \<in> set (ExtractPlaceholders t) then Some ''placeholder'' else None)"
    by (simp add: dummy_def fun_eq_iff)
  then show ?thesis
    using ne by (simp add: ValidateTemplate_def SubstitutePlaceholders_def Let_def filter_empty_conv)
qed

lemma validated_template:
  assumes "ValidateTemplate template = None" "ExtractPlaceholders template \<noteq> []"
    "\<forall>n \<in> set (ExtractPlaceholders template). values n \<noteq> None"
  shows "\<exists>r. SubstitutePlaceholders template values = Inr r \<and> json_valid r
    \<and> json_structure r = json_structure (fill (\<lambda>_. Some ''placeholder'') (segments template))"
proof -
  let ?names = "ExtractPlaceholders template"
  have names: "set (hole_names (segments template)) \<subseteq> set ?names"
    by (simp add: ExtractPlaceholders_set)
  have v: "json_valid (fill (dummy ?names) (segments template))"
    using ValidateTemplate_dummy [OF assms(2)] assms(1) by simp
  then have ne: "fst (jscan (BeginValue, []) (fill (dummy ?names) (segments template))) \<noteq> StError"
    unfolding json_valid_def by (cases "jscan (BeginValue, []) (fill (dummy ?names) (segments template))") auto
  note filled = fill_structure [OF names ne]
  have "json_valid (fill values (segments template))"
    using filled [of "values"] v by (simp add: json_valid_def)
  moreover have "json_structure (fill values (segments template))
      = json_structure (fill (\<lambda>_. Some ''placeholder'') (segments template))"
    using filled [of "values"] filled [of "\<lambda>_. Some ''placeholder''"] by (simp add: json_structure_def)
  moreover have "SubstitutePlaceholders template values = Inr (fill values (segments template))"
    using assms(3) by (simp add: SubstitutePlaceholders_def Let_def filter_empty_conv)
  ultimately show ?thesis by blast
qed

section \<open>Properties of templates\<close>

text \<open>Property C24. A template that passes validation and has placeholders yields valid JSON for every
  choice of values, and always with the same structure: no value can close the string it stands
  in, add a key or an element, or end the document early.\<close>

theorem ValidateTemplate_sound:
  assumes "ValidateTemplate template = None" "ExtractPlaceholders template \<noteq> []"
    "\<forall>n \<in> set (ExtractPlaceholders template). values n \<noteq> None"
  shows "\<exists>r. SubstitutePlaceholders template values = Inr r \<and> json_valid r
    \<and> json_structure r = json_structure (fill (\<lambda>_. Some ''placeholder'') (segments template))"
  using assms by (rule validated_template)

definition sample_template :: string where
  "sample_template = ''{'' @ json_quote ''k'' @ '':'' @ [dq] @ ''{{KEY}}'' @ [dq] @ ''}''"

lemma sample_segments:
  "segments sample_template = map Plain (''{'' @ json_quote ''k'' @ '':'' @ [dq])
     @ [Hole ''KEY'', Plain dq, Plain (CHR ''}'')]"
  by (simp add: sample_template_def json_quote_def escape_ascii_def dq_def bs_def match_placeholder_def
      hasPrefix_def name_char_def is_upper_def is_digit_def)

lemma sample_template_ok:
  "ExtractPlaceholders sample_template = [''KEY'']" "ValidateTemplate sample_template = None"
proof -
  show ex: "ExtractPlaceholders sample_template = [''KEY'']"
    by (simp add: ExtractPlaceholders_def sample_segments json_quote_def escape_ascii_def dq_def bs_def)
  show "ValidateTemplate sample_template = None"
    by (simp add: ValidateTemplate_dummy ex sample_segments dummy_def plain_of_def json_valid_def at_eof_def
        begin_value_def begin_string_def isSpace_def push_state_def maxNestingDepth_def json_quote_def
        escape_ascii_def dq_def bs_def expect_def end_value_def end_top_def pop_state_def)
qed

lemma ValidateTemplate_sound_witness:
  "\<exists>r. SubstitutePlaceholders sample_template [''KEY'' \<mapsto> [dq]] = Inr r \<and> json_valid r"
  using ValidateTemplate_sound [OF sample_template_ok(2), of "[''KEY'' \<mapsto> [dq]]"] sample_template_ok(1) by auto

text \<open>Two placeholders in a text do not overlap.\<close>

lemma nth_hole_text:
  assumes "is_name m" "0 < k" "k < length m + 4" "(hole_text m @ rest) ! k = CHR ''{''"
  shows "k = 1 \<and> (hole_text m @ rest) ! Suc k \<noteq> CHR ''{''"
proof -
  have nc: "\<not> name_char (CHR ''{'')" "\<not> is_upper (CHR ''{'')"
    by (simp_all add: name_char_def is_upper_def is_digit_def)
  have "k = 1"
  proof (rule ccontr)
    assume "k \<noteq> 1"
    then obtain i where i: "k = Suc (Suc i)" using assms(2) by (cases k; cases "k - 1") auto
    have len: "i < length (m @ ''}}'')" using assms(3) i by simp
    have "((m @ ''}}'') @ rest) ! i = CHR ''{''" using assms(4) i by (simp add: hole_text_def)
    then have "(m @ ''}}'') ! i = CHR ''{''" using len by (simp only: nth_append if_True)
    then have "CHR ''{'' \<in> set (m @ ''}}'')" using len by (metis nth_mem)
    then show False using nc assms(1) by (auto simp: is_name_def list_all_iff)
  qed
  moreover have "(hole_text m @ rest) ! 2 = hd m"
    using assms(1) by (cases m) (auto simp: is_name_def hole_text_def)
  ultimately show ?thesis using nc assms(1) by (auto simp: is_name_def numeral_2_eq_2)
qed

lemma placeholder_at:
  assumes "u @ hole_text n @ v = hole_text m @ rest" "u \<noteq> []" "is_name m"
  shows "\<exists>u'. rest = u' @ hole_text n @ v"
proof (cases "length (hole_text m) \<le> length u")
  case True
  have "drop (length (hole_text m)) (u @ hole_text n @ v) = rest"
    unfolding assms(1) by simp
  then show ?thesis using True by auto
next
  case False
  have "(hole_text m @ rest) ! length u = CHR ''{''" "(hole_text m @ rest) ! Suc (length u) = CHR ''{''"
    unfolding assms(1) [symmetric] by (simp_all add: nth_append hole_text_def)
  with nth_hole_text [OF assms(3), of "length u" rest] False assms(2) show ?thesis
    by (auto simp: hole_text_def)
qed

definition occurs :: "string \<Rightarrow> string \<Rightarrow> bool" where
  "occurs n t \<longleftrightarrow> (\<exists>u v. t = u @ hole_text n @ v)"

lemma occurs_Cons: "occurs n (c # s) \<longleftrightarrow> (\<exists>v. c # s = hole_text n @ v) \<or> occurs n s"
  unfolding occurs_def by (metis append_Cons append_Nil neq_Nil_conv list.inject)

lemma Hole_occurs: "Hole n \<in> set (segments t) \<longleftrightarrow> is_name n \<and> occurs n t"
proof (induction t rule: segments.induct)
  case 1
  show ?case by (simp add: occurs_def hole_text_def)
next
  case (2 c s)
  show ?case
  proof (cases "match_placeholder (c # s)")
    case None
    then have "\<not> (is_name n \<and> (\<exists>v. c # s = hole_text n @ v))"
      using match_placeholder_text [of "c # s" n] by auto
    with None "2.IH"(1) occurs_Cons [of n c s] show ?thesis by auto
  next
    case (Some mr)
    obtain m rest where mr: "mr = (m, rest)" by (cases mr)
    note m = match_placeholder_text [THEN iffD1, OF Some [unfolded mr]]
    have "occurs n (c # s) \<longleftrightarrow> n = m \<or> occurs n rest" if n: "is_name n"
    proof
      assume "occurs n (c # s)"
      then obtain u v where uv: "c # s = u @ hole_text n @ v" by (auto simp: occurs_def)
      show "n = m \<or> occurs n rest"
      proof (cases "u = []")
        case True
        with uv n have "match_placeholder (c # s) = Some (n, v)" by (simp add: match_placeholder_text)
        with Some mr show ?thesis by simp
      next
        case False
        with placeholder_at [of u n v m rest] m uv show ?thesis by (auto simp: occurs_def)
      qed
    next
      assume "n = m \<or> occurs n rest"
      then show "occurs n (c # s)"
        using m unfolding occurs_def by (metis append_Nil append_assoc)
    qed
    moreover have "segments (c # s) = Hole m # segments rest" using Some mr by simp
    ultimately show ?thesis using "2.IH"(2) [OF Some mr [symmetric]] m by (auto simp del: segments.simps)
  qed
qed

text \<open>The placeholder names are sorted, without duplicates, and are exactly the names
  (an upper-case letter, then upper-case letters, digits and underscores) that occur between
  double braces anywhere in the template.\<close>

theorem ExtractPlaceholders_spec:
  "sorted (ExtractPlaceholders t) \<and> distinct (ExtractPlaceholders t)
   \<and> (n \<in> set (ExtractPlaceholders t) \<longleftrightarrow>
        n \<noteq> [] \<and> is_upper (hd n) \<and> list_all name_char n \<and> contains t (''{{'' @ n @ ''}}''))"
  using ExtractPlaceholders_set [of t] Hole_occurs [of n t]
  by (auto simp: hole_names_set contains_append occurs_def hole_text_def is_name_def)

definition missing_names :: "string \<Rightarrow> (string \<rightharpoonup> string) \<Rightarrow> string set" where
  "missing_names template values = {n. Hole n \<in> set (segments template) \<and> values n = None}"

definition filled_text :: "(string \<rightharpoonup> string) \<Rightarrow> segment list \<Rightarrow> string" where
  "filled_text values t =
     concat (map (\<lambda>s. case s of Plain c \<Rightarrow> [c] | Hole n \<Rightarrow> json_escape (the (values n))) t)"

lemma fill_filled_text:
  "(\<And>n. Hole n \<in> set t \<Longrightarrow> \<exists>v. values n = Some v) \<Longrightarrow> fill values t = filled_text values t"
proof (induction t rule: hole_names.induct)
  case (3 n t)
  then obtain v where "values n = Some v" by auto
  with 3 show ?case by (auto simp: plain_of_def filled_text_def)
qed (auto simp: filled_text_def)

text \<open>Substitution fails exactly when a placeholder of the template has no value, and
  the error then names exactly the missing placeholders, in order; otherwise the result is the
  template with every placeholder replaced by its escaped value and every other byte kept.\<close>

theorem SubstitutePlaceholders_spec:
  "(SubstitutePlaceholders template values = Inr r \<longleftrightarrow>
      missing_names template values = {} \<and> r = filled_text values (segments template))
   \<and> (SubstitutePlaceholders template values = Inl e \<longleftrightarrow>
      (\<exists>missing. missing \<noteq> [] \<and> sorted missing \<and> distinct missing
        \<and> set missing = missing_names template values
        \<and> e = missing_error missing))"
proof -
  define missing where "missing = filter (\<lambda>n. values n = None) (ExtractPlaceholders template)"
  have m: "sorted missing" "distinct missing" "set missing = missing_names template values"
    using ExtractPlaceholders_set [of template]
    by (auto simp: missing_def missing_names_def sorted_wrt_filter hole_names_set)
  have uniq: "xs = missing" if "sorted xs" "distinct xs" "set xs = missing_names template values" for xs
    using that m sorted_distinct_set_unique by blast
  have "SubstitutePlaceholders template values =
      (if missing \<noteq> [] then Inl (missing_error missing)
       else Inr (fill values (segments template)))"
    by (simp only: SubstitutePlaceholders_def Let_def missing_def)
  moreover have "fill values (segments template) = filled_text values (segments template)" if "missing = []"
    using m(3) that by (intro fill_filled_text) (auto simp: missing_names_def)
  moreover have "missing = [] \<longleftrightarrow> missing_names template values = {}" using m(3) by auto
  moreover have "(\<exists>xs. xs \<noteq> [] \<and> sorted xs \<and> distinct xs \<and> set xs = missing_names template values \<and> e = missing_error xs)
      \<longleftrightarrow> missing \<noteq> [] \<and> e = missing_error missing"
    using m uniq by blast
  ultimately show ?thesis by (cases "missing = []") (auto simp del: not_Cons_self)
qed

end
