(* ===== verification/Server.thy ===== *)
theory Server
  imports Database Config Types Effects Jsonutil
begin

text \<open>
  The ground the server's HTTP code stands on: requests and replies, the calls it makes to the
  outside (database, Kubernetes, session store, identity provider, Slack, other hosts), and the
  functions of \<^verbatim>\<open>internal/k8s/client.go\<close>. A handler is a program (theory \<open>Effects\<close>) that ends in a
  reply. Any call may be answered with any error; cancelled contexts and time-outs are such
  errors. Logging is left out.
\<close>

section \<open>Requests and replies\<close>

text \<open>
  Query parameters, form values, path parameters and headers (by canonical name) as lists of
  bindings; the first one counts, and one that is missing reads as the empty string. The body is
  \<open>None\<close> until it has been read from the connection.
\<close>

type_synonym bindings = "(string \<times> string) list"

definition value_of :: "bindings \<Rightarrow> string \<Rightarrow> string" where
  "value_of vs k = (case map_of vs k of Some v \<Rightarrow> v | None \<Rightarrow> [])"

record request =
  rq_method :: string
  rq_path :: string
  rq_requestURI :: string
  rq_rawQuery :: string
  rq_query :: bindings
  rq_form :: bindings
  rq_params :: bindings
  rq_headers :: bindings
  rq_contentLength :: int
  rq_body :: "string option"

abbreviation queryParam :: "request \<Rightarrow> string \<Rightarrow> string" where
  "queryParam rq \<equiv> value_of (rq_query rq)"
abbreviation formValue :: "request \<Rightarrow> string \<Rightarrow> string" where
  "formValue rq \<equiv> value_of (rq_form rq)"
abbreviation param :: "request \<Rightarrow> string \<Rightarrow> string" where
  "param rq \<equiv> value_of (rq_params rq)"
abbreviation header :: "request \<Rightarrow> string \<Rightarrow> string" where
  "header rq \<equiv> value_of (rq_headers rq)"

text \<open>The components of \<^verbatim>\<open>web/templates\<close> the handlers render, with their arguments.\<close>

datatype page =
  DevLoginPage
| LoginPage
| Dashboard "claw_instance list" bool bool bindings "string list" bool bool string
| InstanceDetail claw_instance bool bool bool bool
| StatusPollResponse claw_instance bool bool bool bool
| AdminUsers "user list" bool
| AdminDefaults instance_default bool
| InstanceEditConfig claw_instance string bool bool

datatype json_body =
  JInstances "claw_instance list"
| JInstance claw_instance
| JUsers "user list"
| JDefaults instance_default
| JMap bindings

text \<open>
  How a handler ends: a reply it wrote, an \<^verbatim>\<open>echo.HTTPError\<close> it returned, a request handed on to
  an instance (with the body sent back, none for a bad gateway), a WebSocket it piped to the end,
  or a panic. \<open>NoContent\<close> carries the headers set.
\<close>

datatype reply =
  JSON nat json_body
| NoContent nat bindings
| Redirect nat string
| HTTPError nat string
| Page nat page
| Forwarded "string option"
| Piped
| Panic string

definition StatusOK :: nat where "StatusOK = 200"
definition StatusCreated :: nat where "StatusCreated = 201"
definition StatusNoContent :: nat where "StatusNoContent = 204"
definition StatusFound :: nat where "StatusFound = 302"
definition StatusSeeOther :: nat where "StatusSeeOther = 303"
definition StatusBadRequest :: nat where "StatusBadRequest = 400"
definition StatusUnauthorized :: nat where "StatusUnauthorized = 401"
definition StatusForbidden :: nat where "StatusForbidden = 403"
definition StatusNotFound :: nat where "StatusNotFound = 404"
definition StatusConflict :: nat where "StatusConflict = 409"
definition StatusInternalServerError :: nat where "StatusInternalServerError = 500"
definition StatusBadGateway :: nat where "StatusBadGateway = 502"
definition StatusServiceUnavailable :: nat where "StatusServiceUnavailable = 503"

lemmas status_defs = StatusOK_def StatusCreated_def StatusNoContent_def StatusFound_def StatusSeeOther_def
  StatusBadRequest_def StatusUnauthorized_def StatusForbidden_def StatusNotFound_def StatusConflict_def
  StatusInternalServerError_def StatusBadGateway_def StatusServiceUnavailable_def

section \<open>Calls and answers\<close>

datatype query =
  QCreateUser create_user_params
| QGetUserByEmail string
| QGetUserByID uuid
| QGetUserByOIDCSubject string
| QListUsers
| QUpdateUser update_user_params
| QGetDefaults
| QUpdateDefaults update_defaults_params

text \<open>A session: its values (\<^verbatim>\<open>driver.Value\<close> may be nil) and the \<^verbatim>\<open>MaxAge\<close> of the cookie.\<close>

datatype session_value = SString string | SNil

record session =
  se_values :: "string \<rightharpoonup> session_value"
  se_maxAge :: int

record claims =
  cl_email :: string
  cl_name :: string
  cl_picture :: string
  cl_sub :: string

record pod =
  po_name :: string
  po_phase :: string

record slack_profile =
  sl_email :: string
  sl_realName :: string

text \<open>A request sent to an instance, and the upgrade request written to its socket.\<close>

record out_request =
  or_method :: string
  or_url :: string
  or_host :: string
  or_headers :: bindings
  or_body :: string

text \<open>Work started with \<^verbatim>\<open>go\<close>: a message to forward, a ready notification to send.\<close>

datatype task =
  HandleMessage string string string
| NotifyReady string string

datatype scall =
  Query query
| CreateObj claw_instance | GetObj string string | ListObjs string | DeleteObj claw_instance | UpdateObj claw_instance
| ListPods string bindings | NewClientset | NewExecutor string string string "string list" | ExecStream
| RandRead nat
| SessionGet | SessionSave session
| OAuthExchange string | VerifyIDToken string
| SlackUserInfo string | SlackPost string string
| HTTPDo out_request | ReadResponse
| ReadBody | Now
| Dial string | SendUpgrade out_request | GetHijacker | Hijack | Pipe
| ForwardHTTP out_request
| Spawn task

datatype sanswer =
  AUserRow "user row_result"
| AUsers "go_error + user list"
| ADefaultsRow "instance_default row_result"
| AError "go_error option"
| AObj "go_error + claw_instance"
| AObjs "go_error + claw_instance list"
| APods "go_error + pod list"
| AOutput "go_error option" string string
| ARand string "go_error option"
| ASession session
| AToken "go_error + string option"
| AClaims "go_error + (go_error + claims)"
| AProfile "go_error + slack_profile"
| AStatus "go_error + nat"
| AText "go_error + string"
| ATime int

type_synonym 'a sprog = "(scall, sanswer, 'a) prog"

definition odd_answer :: go_error where
  "odd_answer = ErrExternal ''unexpected answer''"

text \<open>Reading an answer; one of another kind than the call has, which never comes, reads as an error.\<close>

definition dec_userRow :: "sanswer \<Rightarrow> user row_result" where
  "dec_userRow a = (case a of AUserRow x \<Rightarrow> x | _ \<Rightarrow> (zero_user, Some odd_answer))"
definition dec_users :: "sanswer \<Rightarrow> go_error + user list" where
  "dec_users a = (case a of AUsers x \<Rightarrow> x | _ \<Rightarrow> Inl odd_answer)"
definition dec_defaultsRow :: "sanswer \<Rightarrow> instance_default row_result" where
  "dec_defaultsRow a = (case a of ADefaultsRow x \<Rightarrow> x | _ \<Rightarrow> (zero_default, Some odd_answer))"
definition dec_error :: "sanswer \<Rightarrow> go_error option" where
  "dec_error a = (case a of AError x \<Rightarrow> x | _ \<Rightarrow> Some odd_answer)"
definition dec_obj :: "sanswer \<Rightarrow> go_error + claw_instance" where
  "dec_obj a = (case a of AObj x \<Rightarrow> x | _ \<Rightarrow> Inl odd_answer)"
definition dec_objs :: "sanswer \<Rightarrow> go_error + claw_instance list" where
  "dec_objs a = (case a of AObjs x \<Rightarrow> x | _ \<Rightarrow> Inl odd_answer)"
definition dec_pods :: "sanswer \<Rightarrow> go_error + pod list" where
  "dec_pods a = (case a of APods x \<Rightarrow> x | _ \<Rightarrow> Inl odd_answer)"
definition dec_output :: "sanswer \<Rightarrow> go_error option \<times> string \<times> string" where
  "dec_output a = (case a of AOutput e out err \<Rightarrow> (e, out, err) | _ \<Rightarrow> (Some odd_answer, [], []))"
definition dec_session :: "sanswer \<Rightarrow> session" where
  "dec_session a = (case a of ASession s \<Rightarrow> s | _ \<Rightarrow> \<lparr>se_values = Map.empty, se_maxAge = 0\<rparr>)"
definition dec_token :: "sanswer \<Rightarrow> go_error + string option" where
  "dec_token a = (case a of AToken x \<Rightarrow> x | _ \<Rightarrow> Inl odd_answer)"
definition dec_claims :: "sanswer \<Rightarrow> go_error + (go_error + claims)" where
  "dec_claims a = (case a of AClaims x \<Rightarrow> x | _ \<Rightarrow> Inl odd_answer)"
definition dec_profile :: "sanswer \<Rightarrow> go_error + slack_profile" where
  "dec_profile a = (case a of AProfile x \<Rightarrow> x | _ \<Rightarrow> Inl odd_answer)"
definition dec_status :: "sanswer \<Rightarrow> go_error + nat" where
  "dec_status a = (case a of AStatus x \<Rightarrow> x | _ \<Rightarrow> Inl odd_answer)"
definition dec_text :: "sanswer \<Rightarrow> go_error + string" where
  "dec_text a = (case a of AText x \<Rightarrow> x | _ \<Rightarrow> Inl odd_answer)"
definition dec_time :: "sanswer \<Rightarrow> int" where
  "dec_time a = (case a of ATime t \<Rightarrow> t | _ \<Rightarrow> 0)"

text \<open>\<^verbatim>\<open>rand.Read(b)\<close> into \<open>n\<close> zero bytes: the bytes that were read, and an error.\<close>

definition dec_rand :: "nat \<Rightarrow> sanswer \<Rightarrow> string \<times> go_error option" where
  "dec_rand n a = (case a of ARand b e \<Rightarrow> (take n (b @ replicate n (CHR 0x00)), e)
                           | _ \<Rightarrow> (replicate n (CHR 0x00), Some odd_answer))"

lemma length_dec_rand [simp]: "length (fst (dec_rand n a)) = n"
  by (auto simp: dec_rand_def split: sanswer.splits)

lemmas decs = dec_userRow_def dec_users_def dec_defaultsRow_def dec_error_def dec_obj_def dec_objs_def
  dec_pods_def dec_output_def dec_session_def dec_token_def dec_claims_def dec_profile_def dec_status_def
  dec_text_def dec_time_def dec_rand_def

section \<open>Libraries\<close>

text \<open>
  The third-party functions the server uses on its data: \<^verbatim>\<open>c.Bind\<close> into the three request
  types, the text of an identifier (\<^verbatim>\<open>pgtype.UUID\<close>'s \<^verbatim>\<open>Value\<close> and \<^verbatim>\<open>Scan\<close>, \<^verbatim>\<open>google/uuid\<close>'s \<^verbatim>\<open>String\<close>
  and \<^verbatim>\<open>Parse\<close>), the provider's \<^verbatim>\<open>AuthCodeURL\<close>, the parsers of \<^verbatim>\<open>slack-go\<close>, \<^verbatim>\<open>json.Unmarshal\<close> into the
  challenge and into the contents of the choices of a chat completion, which text \<^verbatim>\<open>http.NewRequest\<close>
  takes for a URL, HMAC-SHA256, the text of a float and of a JSON error.
\<close>

record create_request =
  ir_gatewayConfigOverride :: string
  ir_placeholderValues :: "string \<rightharpoonup> string"

record ready_request =
  nr_instanceName :: string
  nr_userID :: string

record slash_command =
  sc_command :: string
  sc_text :: string
  sc_userID :: string

datatype slack_event =
  URLVerification
| AppMention string string string
| MessageEvent string string string string
| OtherInner string
| OtherEvent string

record web_lib =
  wl_bindCreate :: "request \<Rightarrow> go_error + create_request"
  wl_bindDefaults :: "request \<Rightarrow> go_error + update_defaults_params"
  wl_bindReady :: "request \<Rightarrow> go_error + ready_request"
  wl_uuidValue :: "string \<Rightarrow> string"
  wl_uuidScan :: "string \<Rightarrow> string option"
  wl_uuidString :: "string \<Rightarrow> string"
  wl_uuidParse :: "string \<Rightarrow> string option"
  wl_authCodeURL :: "string \<Rightarrow> string"
  wl_slashCommand :: "request \<Rightarrow> go_error + slash_command"
  wl_parseEvent :: "string \<Rightarrow> go_error + slack_event"
  wl_decodeChallenge :: "string \<Rightarrow> go_error + string"
  wl_decodeChat :: "string \<Rightarrow> go_error + string list"
  wl_urlOK :: "string \<Rightarrow> bool"
  wl_hmac :: "string \<Rightarrow> string \<Rightarrow> string"
  wl_floatText :: "string \<Rightarrow> string option"
  wl_jsonErrorText :: "string \<Rightarrow> string"

text \<open>
  What is documented of the two UUID libraries: both print the 36-character canonical form of 16
  bytes, and both read it back.
\<close>

definition uuid_laws :: "web_lib \<Rightarrow> bool" where
  "uuid_laws lib \<longleftrightarrow> (\<forall>bs. length bs = 16 \<longrightarrow>
     wl_uuidString lib bs = wl_uuidValue lib bs
     \<and> wl_uuidScan lib (wl_uuidValue lib bs) = Some bs
     \<and> wl_uuidParse lib (wl_uuidValue lib bs) = Some bs)"

text \<open>\<^verbatim>\<open>userID, _ := user.ID.Value(); uid, _ := userID.(string)\<close>: NULL has no text.\<close>

definition user_uid :: "web_lib \<Rightarrow> user \<Rightarrow> string" where
  "user_uid lib u = (if uu_valid (us_id u) then wl_uuidValue lib (uu_bytes (us_id u)) else [])"

section \<open>Handlers\<close>

text \<open>A handler sees the request and the user that middleware put into its context.\<close>

type_synonym handler = "request \<Rightarrow> user option \<Rightarrow> reply sprog"
type_synonym middleware = "handler \<Rightarrow> handler"

text \<open>\<^verbatim>\<open>x, err := call; if err != nil { return r }\<close>, in its three shapes.\<close>

definition orElse :: "('e + 'a) sprog \<Rightarrow> ('e \<Rightarrow> 'b) \<Rightarrow> ('a \<Rightarrow> 'b sprog) \<Rightarrow> 'b sprog" where
  "orElse p r k = bind p (\<lambda>x. case x of Inl e \<Rightarrow> Ret (r e) | Inr a \<Rightarrow> k a)"

definition rowOrElse :: "'a row_result sprog \<Rightarrow> (go_error \<Rightarrow> 'b) \<Rightarrow> ('a \<Rightarrow> 'b sprog) \<Rightarrow> 'b sprog" where
  "rowOrElse p r k = bind p (\<lambda>x. case x of (a, None) \<Rightarrow> k a | (_, Some e) \<Rightarrow> Ret (r e))"

definition doneOrElse :: "go_error option sprog \<Rightarrow> (go_error \<Rightarrow> 'b) \<Rightarrow> 'b sprog \<Rightarrow> 'b sprog" where
  "doneOrElse p r k = bind p (\<lambda>err. case err of Some e \<Rightarrow> Ret (r e) | None \<Rightarrow> k)"

text \<open>\<^verbatim>\<open>user.Role\<close> with a nil user panics.\<close>

definition withUser :: "user option \<Rightarrow> (user \<Rightarrow> reply sprog) \<Rightarrow> reply sprog" where
  "withUser u k = (case u of None \<Rightarrow> Ret (Panic ''nil pointer dereference'') | Some u \<Rightarrow> k u)"

text \<open>\<^verbatim>\<open>io.ReadAll(c.Request().Body)\<close>: from the connection, or again from memory.\<close>

definition readBody :: "request \<Rightarrow> (go_error + string) sprog" where
  "readBody rq = (case rq_body rq of Some b \<Rightarrow> Ret (Inr b) | None \<Rightarrow> ask ReadBody dec_text)"

section \<open>The Kubernetes client\<close>

definition k8s_CreateInstance :: "claw_instance \<Rightarrow> (go_error + claw_instance) sprog" where
  "k8s_CreateInstance i = ask (CreateObj i) dec_obj"

definition k8s_GetInstance :: "string \<Rightarrow> string \<Rightarrow> (go_error + claw_instance) sprog" where
  "k8s_GetInstance namespace name = ask (GetObj namespace name) dec_obj"

definition k8s_ListInstances :: "string \<Rightarrow> (go_error + claw_instance list) sprog" where
  "k8s_ListInstances namespace = ask (ListObjs namespace) dec_objs"

definition k8s_DeleteInstance :: "string \<Rightarrow> string \<Rightarrow> go_error option sprog" where
  "k8s_DeleteInstance namespace name =
     bind (k8s_GetInstance namespace name) (\<lambda>x.
       case x of Inl e \<Rightarrow> Ret (Some e) | Inr i \<Rightarrow> ask (DeleteObj i) dec_error)"

definition k8s_UpdateInstance :: "claw_instance \<Rightarrow> go_error option sprog" where
  "k8s_UpdateInstance i = ask (UpdateObj i) dec_error"

definition ReadInstanceConfig :: "string \<Rightarrow> (go_error + string) sprog" where
  "ReadInstanceConfig instanceNamespace =
     bind (ask (ListPods instanceNamespace [(''app'', ''openclaw'')]) dec_pods) (\<lambda>x.
       case x of
         Inl e \<Rightarrow> Ret (Inl (ErrWrap ''listing pods'' e))
       | Inr [] \<Rightarrow> Ret (Inl (ErrText ''no openclaw pods found''))
       | Inr (pod # _) \<Rightarrow>
           if po_phase pod \<noteq> ''Running''
           then Ret (Inl (ErrText (''pod is not running (phase: '' @ po_phase pod @ '')'')))
           else bind (ask NewClientset dec_error) (\<lambda>err.
             case err of Some e \<Rightarrow> Ret (Inl (ErrWrap ''creating clientset'' e)) | None \<Rightarrow>
           bind (ask (NewExecutor instanceNamespace (po_name pod) ''openclaw''
                        [''cat'', ''/home/node/.openclaw/openclaw.json'']) dec_error) (\<lambda>err.
             case err of Some e \<Rightarrow> Ret (Inl (ErrWrap ''creating executor'' e)) | None \<Rightarrow>
           bind (ask ExecStream dec_output) (\<lambda>(err, stdout, stderr).
             case err of
               Some e \<Rightarrow> Ret (Inl (ErrExternal (''exec failed: '' @ error_text id e @ '' (stderr: '' @ stderr @ '')'')))
             | None \<Rightarrow> Ret (Inr stdout)))))"

section \<open>The database behind the calls\<close>

text \<open>What the tables of theory \<open>Database\<close> answer; \<open>fresh\<close> and \<open>now\<close> are what the server chooses.\<close>

fun serve_query :: "string \<Rightarrow> int \<Rightarrow> query \<Rightarrow> db \<Rightarrow> sanswer \<times> db" where
  "serve_query fresh now (QCreateUser arg) d = (let (r, d') = CreateUser fresh now arg d in (AUserRow r, d'))"
| "serve_query fresh now (QGetUserByEmail email) d = (AUserRow (GetUserByEmail email d), d)"
| "serve_query fresh now (QGetUserByID i) d = (AUserRow (GetUserByID i d), d)"
| "serve_query fresh now (QGetUserByOIDCSubject sub) d = (AUserRow (GetUserByOIDCSubject sub d), d)"
| "serve_query fresh now QListUsers d = (AUsers (Inr (ListUsers d)), d)"
| "serve_query fresh now (QUpdateUser arg) d = (let (r, d') = UpdateUser now arg d in (AUserRow r, d'))"
| "serve_query fresh now QGetDefaults d = (ADefaultsRow (GetDefaults d), d)"
| "serve_query fresh now (QUpdateDefaults arg) d = (let (r, d') = UpdateDefaults now arg d in (ADefaultsRow r, d'))"

lemma serve_query_ok: "db_ok d \<Longrightarrow> db_ok (snd (serve_query fresh now q d))"
  by (cases q)
    (auto simp: case_prod_beta Let_def simp flip: prod.collapse
      intro: CreateUser_ok UpdateUser_ok UpdateDefaults_ok)

section \<open>Health\<close>

definition HealthCheck :: handler where
  "HealthCheck rq u = Ret (JSON StatusOK (JMap [(''status'', ''ok'')]))"

lemmas [prog_def] = orElse_def rowOrElse_def doneOrElse_def withUser_def k8s_CreateInstance_def
  k8s_GetInstance_def k8s_ListInstances_def k8s_DeleteInstance_def k8s_UpdateInstance_def

end
