(* ===== verification/JsonIndent.thy ===== *)
theory JsonIndent
  imports JsonCodec
begin

text \<open>
  \<^verbatim>\<open>json.Indent(buf, src, "", "  ")\<close> of Go's \<^verbatim>\<open>encoding/json\<close>, over the scanner of \<open>JsonScan\<close>: white
  space of the source is dropped (after the value it is kept), a new line and two blanks per level are put after an opening
  bracket, after a comma and before a closing bracket, and a blank after a colon. Then
  \<^verbatim>\<open>prettyJSON\<close> and \<^verbatim>\<open>compactJSON\<close> of \<^verbatim>\<open>internal/handler/pages.go\<close>.
\<close>

definition new_line :: "nat \<Rightarrow> string" where
  "new_line depth = CHR 0x0A # concat (replicate depth ''  '')"

text \<open>\<open>need\<close>: an opening bracket was written and its new line is still due; \<open>depth\<close>: open levels.\<close>

fun indent_from :: "bool \<Rightarrow> nat \<Rightarrow> sconf \<Rightarrow> string \<Rightarrow> string" where
  "indent_from need depth q [] = []"
| "indent_from need depth (st, ps) (c # s) =
     (case jstep st ps c of (op, q) \<Rightarrow>
        if op = SkipSpace then indent_from need depth q s
        else if op = Error then []
        else
          let opening = need \<and> op \<notin> {EndObject, EndArray};
              before = (if opening then new_line (depth + 1) else []);
              depth' = (if opening then depth + 1 else depth);
              need' = (need \<and> \<not> opening)
          in before @
             (if op = Continue then c # indent_from need' depth' q s
              else if c \<in> {CHR ''{'', CHR ''[''} then c # indent_from True depth' q s
              else if c = CHR '','' then c # new_line depth' @ indent_from need' depth' q s
              else if c = CHR '':'' then c # CHR '' '' # indent_from need' depth' q s
              else if c \<in> {CHR ''}'', CHR '']''}
                then (if need' then c # indent_from False depth' q s
                      else new_line (depth' - 1) @ c # indent_from False (depth' - 1) q s)
              else c # indent_from need' depth' q s))"

definition json_indent :: "string \<Rightarrow> string option" where
  "json_indent s = (if json_valid s then Some (indent_from False 0 (BeginValue, []) s) else None)"

definition prettyJSON :: "string \<Rightarrow> string" where
  "prettyJSON s = (case json_indent s of None \<Rightarrow> s | Some t \<Rightarrow> t)"

definition compactJSON :: "string \<Rightarrow> string" where
  "compactJSON s = (case json_compact s of None \<Rightarrow> s | Some t \<Rightarrow> t)"

section \<open>Indented text means the same\<close>

abbreviation after_bracket :: "sstate set" where
  "after_bracket \<equiv> {BeginStringOrEmpty, BeginValueOrEmpty}"

lemma build_space:
  assumes "list_all isSpace w" "st \<in> {BeginValue, BeginString} \<union> after_bracket"
  shows "build (st, ps) b (w @ t) = build (st, ps) b t"
  using assms by (induction w) (auto simp: begin_value_def begin_string_def)

lemma build_space_complete:
  assumes "list_all isSpace w" "w \<noteq> []" "complete ps st" "ps \<noteq> []"
  shows "build (st, ps) b (w @ t) = build (EndValue, ps) b t"
proof -
  have skip: "end_value ps c = (SkipSpace, EndValue, ps)" if "isSpace c" for c
    using that assms(4) by (cases ps) (auto simp: end_value_def)
  have all: "build (EndValue, ps) b (w' @ t) = build (EndValue, ps) b t" if "list_all isSpace w'" for w'
    using that by (induction w') (auto simp: skip)
  obtain c w' where w: "w = c # w'" using assms(2) by (cases w) auto
  have "jstep st ps c = (SkipSpace, EndValue, ps)"
    using complete_jstep [OF assms(3), of c] skip [of c] assms(1) w by (auto simp: isSpace_def is_digit_def)
  with all assms(1) w show ?thesis by simp
qed

lemma new_line_space: "list_all isSpace (new_line n)" "new_line n \<noteq> []"
  by (induction n) (auto simp: new_line_def isSpace_def)

text \<open>What a byte the scanner accepts tells of the state it leads to.\<close>

definition byte_shape :: "scode \<Rightarrow> char \<Rightarrow> sstate \<Rightarrow> bool" where
  "byte_shape op c st' \<longleftrightarrow> (case op of
     BeginObject \<Rightarrow> c = CHR ''{'' \<and> st' = BeginStringOrEmpty
   | BeginArray \<Rightarrow> c = CHR ''['' \<and> st' = BeginValueOrEmpty
   | ObjectKey \<Rightarrow> c = CHR '':'' \<and> st' = BeginValue
   | ObjectValue \<Rightarrow> c = CHR '','' \<and> st' = BeginString
   | ArrayValue \<Rightarrow> c = CHR '','' \<and> st' = BeginValue
   | EndObject \<Rightarrow> c = CHR ''}'' \<and> st' \<notin> after_bracket
   | EndArray \<Rightarrow> c = CHR '']'' \<and> st' \<notin> after_bracket
   | _ \<Rightarrow> st' \<notin> after_bracket \<and> (op = Continue \<or> c \<notin> {CHR ''{'', CHR ''['', CHR ''}'', CHR '']'', CHR '','', CHR '':''}))"

lemma end_value_shape:
  "end_value ps c = (op, st', ps') \<Longrightarrow> st' \<noteq> StError \<Longrightarrow> op \<notin> {SkipSpace, Error} \<Longrightarrow>
   byte_shape op c st' \<and> (op \<in> {EndObject, EndArray} \<longrightarrow> ps \<noteq> [])"
  by (cases ps) (auto simp: byte_shape_def end_value_def end_top_def scan_error_def pop_state_def isSpace_def
      split: if_splits pstate.splits)

lemma begin_value_literal:
  "begin_value ps st c = (op, st', ps') \<Longrightarrow> \<not> isSpace c \<Longrightarrow> c \<notin> {CHR ''{'', CHR ''[''} \<Longrightarrow> st' \<noteq> StError \<Longrightarrow>
   op = BeginLiteral \<and> st' \<notin> after_bracket"
  unfolding begin_value_def scan_error_def by (simp split: if_split_asm)

lemma begin_value_bracket:
  "begin_value ps st (CHR ''{'') = (op, st', ps') \<Longrightarrow> st' \<noteq> StError \<Longrightarrow> op = BeginObject \<and> st' = BeginStringOrEmpty"
  "begin_value ps st (CHR ''['') = (op, st', ps') \<Longrightarrow> st' \<noteq> StError \<Longrightarrow> op = BeginArray \<and> st' = BeginValueOrEmpty"
  by (auto simp: begin_value_def push_state_def scan_error_def isSpace_def split: if_splits)

lemma begin_value_other:
  "begin_value ps st c = (op, st', ps') \<Longrightarrow> c \<in> {CHR ''}'', CHR '']'', CHR '','', CHR '':''} \<Longrightarrow> st' = StError"
  by (auto simp: begin_value_def scan_error_def isSpace_def is_digit_def)

lemma begin_shape:
  assumes "begin_value ps st c = (op, st', ps') \<or> begin_string ps st c = (op, st', ps')"
    "st' \<noteq> StError" "op \<notin> {SkipSpace, Error}"
  shows "byte_shape op c st' \<and> op \<notin> {EndObject, EndArray}"
proof -
  have ns: "\<not> isSpace c" using assms by (auto simp: begin_value_def begin_string_def)
  consider "begin_string ps st c = (op, st', ps')" | "c = CHR ''{''" | "c = CHR ''[''"
    | "begin_value ps st c = (op, st', ps')" "c \<notin> {CHR ''{'', CHR ''[''}"
    using assms(1) by blast
  then show ?thesis
  proof cases
    case 1
    then show ?thesis using assms(2) ns by (auto simp: begin_string_def scan_error_def byte_shape_def split: if_splits)
  next
    case 4
    with begin_value_literal [OF 4(1) ns 4(2) assms(2)] begin_value_other [OF 4(1)] assms(2) show ?thesis
      by (auto simp: byte_shape_def)
  qed (use assms(1,2) in
      \<open>auto simp: byte_shape_def begin_string_def isSpace_def scan_error_def dest: begin_value_bracket\<close>)
qed

lemma jstep_shape:
  assumes "jstep st ps c = (op, st', ps')" "st' \<noteq> StError" "op \<notin> {SkipSpace, Error}"
  shows "byte_shape op c st' \<and> (op \<in> {EndObject, EndArray} \<longrightarrow> st \<in> after_bracket \<or> complete ps st \<and> ps \<noteq> [])"
proof -
  note end' = end_value_shape [OF _ assms(2,3), of _ c ps']
    and begin' = begin_shape [OF _ assms(2,3), of _ _ c ps']
  show ?thesis
  proof (cases "st \<in> {BeginValue, BeginString} \<union> after_bracket")
    case True
    then consider ps'' where "end_value ps'' c = (op, st', ps')" "st \<in> after_bracket"
      | "begin_value ps st c = (op, st', ps')" | "begin_string ps st c = (op, st', ps')"
      using assms(1) by (auto split: if_splits)
    then show ?thesis using end' begin' by cases blast+
  next
    case False
    show ?thesis
    proof (cases "end_value ps c = (op, st', ps') \<and> complete ps st")
      case True
      with end' show ?thesis by blast
    next
      case no: False
      show ?thesis
        using False no assms
        by (cases st) (auto simp: byte_shape_def complete_def expect_def scan_error_def end_top_def state0_def isSpace_def
            split: if_splits)
    qed
  qed
qed

lemma indent_build:
  "same_point q q' \<Longrightarrow> need = (fst q \<in> after_bracket) \<Longrightarrow> build q b s = Some (qe, be) \<Longrightarrow> fst qe \<noteq> StError \<Longrightarrow>
   \<exists>qe'. build q' b (indent_from need depth q s) = Some (qe', be) \<and> same_point qe qe'"
proof (induction q b s arbitrary: q' need depth rule: build.induct)
  case (2 st ps b c s)
  obtain st' ps' where q': "q' = (st', ps')" by (cases q')
  obtain op st1 ps1 where step: "jstep st ps c = (op, st1, ps1)" by (metis prod.exhaust)
  obtain b1 where b1: "act op c b = Some b1" "build (st1, ps1) b1 s = Some (qe, be)"
    using "2.prems"(3) step by (auto split: option.splits)
  have ne: "st1 \<noteq> StError" using build_jscan [OF b1(2)] "2.prems"(4) by (cases qe) auto
  have noerr: "op \<noteq> Error" using b1(1) by auto
  note IH = "2.IH" [OF step [symmetric] b1(1) _ _ b1(2) "2.prems"(4)]
  show ?case
  proof (cases "op = SkipSpace")
    case True
    have top: "st = EndTop \<longrightarrow> ps = []" using "2.prems"(1) by (simp add: same_point_def)
    have skip: "(st1, ps1) = (st, ps) \<or> complete ps st \<and> ((st1, ps1) = (EndValue, ps) \<or> ps = [] \<and> (st1, ps1) = (EndTop, []))"
      using jstep_skip [OF step _ _ top] ne True by simp
    then have "same_point (st1, ps1) q'"
      using "2.prems"(1) unfolding q' by (elim disjE conjE; simp add: same_point_def complete_def; blast)
    moreover have "need = (st1 \<in> after_bracket)"
      using skip "2.prems"(2) by (auto simp: complete_def)
    ultimately show ?thesis using IH [of q' need depth] True b1(1) by (simp add: step del: jstep.simps)
  next
    case False
    note shape = jstep_shape [OF step ne] 
    have stp: "jstep st' ps' c = (op, st1, ps1)"
      using jstep_same_point [OF "2.prems"(1) [unfolded q'] step] ne False noerr by simp
    have sp1: "same_point (st1, ps1) (st1, ps1)"
      using jstep_EndTop [of st ps c op ps1] step by (auto intro: same_point_refl)
    define need1 where "need1 = (st1 \<in> after_bracket)"
    have rest: "\<exists>qe'. build (st1, ps1) b1 (indent_from need1 d (st1, ps1) s) = Some (qe', be) \<and> same_point qe qe'" for d
      using IH [OF sp1] by (simp add: need1_def)
    have shp: "byte_shape op c st1" using shape False noerr by simp
    have go: "build q' b (c # t) = build (st1, ps1) b1 t" for t
      unfolding q' using stp b1(1) by simp
    have spaced: "build (st1, ps1) b1 (w @ t) = build (st1, ps1) b1 t"
      if "list_all isSpace w" "op \<in> {ObjectValue, ArrayValue, ObjectKey}" for w t
      by (rule build_space [OF that(1)]) (use shp that(2) in \<open>auto simp: byte_shape_def\<close>)
    have opened: "build q' b (new_line n @ t) = build q' b t" if need for n t
    proof -
      have "q' = (st, ps)" "st \<in> after_bracket" using that "2.prems"(1,2) by (auto simp: same_point_def)
      then show ?thesis by (simp only:) (rule build_space [OF new_line_space(1)], blast)
    qed
    have closing: "build q' b (new_line n @ c # t) = build (st1, ps1) b1 t"
      if "\<not> need" "op \<in> {EndObject, EndArray}" for n t
    proof -
      have "complete ps st" "ps \<noteq> []" using shape that "2.prems"(2) by auto
      then have c': "complete ps' st'" "ps' \<noteq> []" using "2.prems"(1) unfolding q' by (auto simp: same_point_def)
      have "jstep EndValue ps' c = (op, st1, ps1)"
        using complete_jstep [OF c'(1), of c] stp shp that(2) by (auto simp: byte_shape_def is_digit_def)
      then show ?thesis
        unfolding q' using build_space_complete [OF new_line_space c'] b1(1) by simp
    qed
    have "\<exists>d. build q' b (indent_from need depth (st, ps) (c # s)) = build (st1, ps1) b1 (indent_from need1 d (st1, ps1) s)"
    proof (cases "op \<in> {EndObject, EndArray}")
      case True
      then have c: "c \<in> {CHR ''}'', CHR '']''}" "op \<noteq> Continue" and n1: "\<not> need1"
        using shp by (auto simp: byte_shape_def need1_def)
      have ne: "c \<notin> {CHR ''{'', CHR ''[''}" "c \<noteq> CHR '',''" "c \<noteq> CHR '':''" using c(1) by auto
      have "indent_from need depth (st, ps) (c # s) =
          (if need then c # indent_from False depth (st1, ps1) s
           else new_line (depth - 1) @ c # indent_from False (depth - 1) (st1, ps1) s)"
        using True c ne False noerr by (simp add: step Let_def del: jstep.simps insert_iff)
      then show ?thesis
        using True n1 closing go by (cases need) (auto simp del: jstep.simps indent_from.simps build.simps)
    next
      case notend: False
      have ns: "build q' b ((if need then new_line n else []) @ t) = build q' b t" for n t
        using opened by simp
      have "op = BeginObject \<or> op = BeginArray \<Longrightarrow> c \<in> {CHR ''{'', CHR ''[''} \<and> need1"
        "op = ObjectKey \<Longrightarrow> c = CHR '':'' \<and> \<not> need1"
        "op = ObjectValue \<or> op = ArrayValue \<Longrightarrow> c = CHR '','' \<and> \<not> need1"
        "op \<notin> {BeginObject, BeginArray} \<Longrightarrow> \<not> need1"
        "op \<in> {BeginLiteral, End} \<Longrightarrow> c \<notin> {CHR ''{'', CHR ''['', CHR ''}'', CHR '']'', CHR '','', CHR '':''}"
        using shp notend by (auto simp: byte_shape_def need1_def split: scode.splits)
      moreover have "indent_from need depth (st, ps) (c # s) = (if need then new_line (depth + 1) else []) @
          (let depth' = (if need then depth + 1 else depth) in
           if op = Continue then c # indent_from False depth' (st1, ps1) s
           else if c \<in> {CHR ''{'', CHR ''[''} then c # indent_from True depth' (st1, ps1) s
           else if c = CHR '','' then c # new_line depth' @ indent_from False depth' (st1, ps1) s
           else if c = CHR '':'' then c # '' '' @ indent_from False depth' (st1, ps1) s
           else if c \<in> {CHR ''}'', CHR '']''} then new_line (depth' - 1) @ c # indent_from False (depth' - 1) (st1, ps1) s
           else c # indent_from False depth' (st1, ps1) s)"
        using notend False noerr by (simp add: step Let_def del: jstep.simps)
      ultimately show ?thesis
        using notend False noerr ns go spaced [OF new_line_space(1)] spaced [of "'' ''"]
        by (cases op) (auto simp: Let_def isSpace_def simp del: jstep.simps indent_from.simps build.simps)
    qed
    then show ?thesis using rest by metis
  qed
qed (auto simp: same_point_def)

lemma compactJSON_meaning:
  assumes "json_valid text"
  shows "json_valid (compactJSON text)" "json_decode (compactJSON text) = json_decode text" "compactJSON text \<noteq> []"
proof -
  have t: "json_compact text = Some (compactJSON text)"
    using assms by (simp add: compactJSON_def json_compact_def)
  show v: "json_valid (compactJSON text)" and "json_decode (compactJSON text) = json_decode text"
    using json_compact_meaning [OF t] by simp_all
  have "\<not> json_valid []" by (simp add: json_valid_def at_eof_def begin_value_def isSpace_def)
  with v show "compactJSON text \<noteq> []" by metis
qed

lemma prettyJSON_meaning:
  assumes "json_valid s"
  shows "json_valid (prettyJSON s)" "json_decode (prettyJSON s) = json_decode s"
proof -
  have "prettyJSON s = indent_from False 0 (BeginValue, []) s"
    using assms by (simp add: prettyJSON_def json_indent_def)
  then show "json_valid (prettyJSON s)" "json_decode (prettyJSON s) = json_decode s"
    using same_reading [OF assms, of "prettyJSON s"] indent_build [OF same_point_refl, of "(BeginValue, [])" False]
    by simp_all
qed

text \<open>The edit page shows what is stored: the indented text is valid JSON that decodes to the same
  document, and submitting it unchanged stores, compacted again, that document.\<close>

theorem prettyJSON_roundtrip:
  assumes "json_valid s"
  shows "json_valid (prettyJSON s) \<and> json_decode (prettyJSON s) = json_decode s
    \<and> json_valid (compactJSON (prettyJSON s)) \<and> json_decode (compactJSON (prettyJSON s)) = json_decode s"
  using prettyJSON_meaning [OF assms] compactJSON_meaning [OF prettyJSON_meaning(1) [OF assms]] by simp

lemma prettyJSON_roundtrip_witness:
  "json_decode (prettyJSON ''[1,{}]'') = json_decode ''[1,{}]'' \<and> prettyJSON ''[1]'' = CHR ''['' # CHR 0x0A # ''  1'' @ CHR 0x0A # '']''"
proof -
  have "json_valid ''[1,{}]''" by (simp add: go_std)
  moreover have "prettyJSON ''[1]'' = CHR ''['' # CHR 0x0A # ''  1'' @ CHR 0x0A # '']''"
    by (simp add: prettyJSON_def json_indent_def new_line_def go_std)
  ultimately show ?thesis using prettyJSON_roundtrip by blast
qed

end
