(* ===== verification/Handlers.thy ===== *)
theory Handlers
  imports Server JsonIndent
begin

text \<open>
  \<^verbatim>\<open>internal/handler\<close>: the JSON API (\<^verbatim>\<open>instance.go\<close>, \<^verbatim>\<open>admin.go\<close>, \<^verbatim>\<open>notification.go\<close>) and the pages
  (\<^verbatim>\<open>pages.go\<close>). A handler is a program from the request and the user in its context to a reply.
\<close>

text \<open>\<^verbatim>\<open>Handler\<close>: the configuration, which provider signs users in, whether the Slack bot runs.\<close>

record server =
  sv_lib :: web_lib
  sv_config :: config
  sv_dev :: bool
  sv_bot :: bool

abbreviation sv_namespace :: "server \<Rightarrow> string" where
  "sv_namespace h \<equiv> cf_kubeNamespace (sv_config h)"

section \<open>The gateway configuration of a new instance\<close>

datatype config_error =
  MissingValues "string list"
| SubstituteFailed go_error
| NotJSONAfterSubstitution
| OverrideNotJSON
| MergeFailed go_error
| MergePanics string

text \<open>
  The pipeline of the three ways to create an instance: substitute the template's placeholders,
  if it has any, then merge the override, if there is one.
\<close>

definition apply_override :: "web_lib \<Rightarrow> string \<Rightarrow> string \<Rightarrow> config_error + string" where
  "apply_override lib gatewayConfig override =
     (if override = [] then Inr gatewayConfig
      else if \<not> json_valid override then Inl OverrideNotJSON
      else (case MergeJSON (wl_floatText lib) gatewayConfig override of
              Failed e \<Rightarrow> Inl (MergeFailed e)
            | Panicked m \<Rightarrow> Inl (MergePanics m)
            | Returned result \<Rightarrow> Inr result))"

definition build_config :: "web_lib \<Rightarrow> string \<Rightarrow> (string \<rightharpoonup> string) \<Rightarrow> string \<Rightarrow> config_error + string" where
  "build_config lib gatewayConfig vals override =
     (let placeholders = ExtractPlaceholders gatewayConfig in
      if placeholders = [] then apply_override lib gatewayConfig override
      else
        let missing = filter (\<lambda>n. vals n = None) placeholders in
        if missing \<noteq> [] then Inl (MissingValues missing)
        else (case SubstitutePlaceholders gatewayConfig vals of
                Inl e \<Rightarrow> Inl (SubstituteFailed e)
              | Inr substituted \<Rightarrow>
                  if \<not> json_valid substituted then Inl NotJSONAfterSubstitution
                  else apply_override lib substituted override))"

definition generateToken :: "string sprog" where
  "generateToken = ask (RandRead 32) (\<lambda>a. hex_encode (fst (dec_rand 32 a)))"

definition new_instance ::
  "string \<Rightarrow> string \<Rightarrow> labels \<Rightarrow> instance_default \<Rightarrow> string \<Rightarrow> string \<Rightarrow> claw_instance" where
  "new_instance namespace uid labels defaults token gatewayConfig =
     \<lparr>ci_meta = (named_meta namespace uid)\<lparr>om_labels := labels\<rparr>,
      ci_spec = \<lparr>sp_userId = uid, sp_image = df_image defaults, sp_gatewayToken = token,
        sp_gatewayConfig = gatewayConfig, sp_configGeneration = 0,
        sp_resources = \<lparr>cr_requests = \<lparr>rl_cpu = df_cpuRequest defaults, rl_memory = df_memoryRequest defaults\<rparr>,
                        cr_limits = \<lparr>rl_cpu = df_cpuLimit defaults, rl_memory = df_memoryLimit defaults\<rparr>\<rparr>,
        sp_storage = \<lparr>cs_size = df_storageSize defaults, cs_storageClass = []\<rparr>\<rparr>,
      ci_status = empty_status\<rparr>"

text \<open>\<^verbatim>\<open>user.Role != "admin"\<close> and another user's instance.\<close>

definition hidden :: "server \<Rightarrow> user \<Rightarrow> claw_instance \<Rightarrow> bool" where
  "hidden h user i \<longleftrightarrow> us_role user \<noteq> ''admin'' \<and> sp_userId (ci_spec i) \<noteq> user_uid (sv_lib h) user"

definition not_found :: reply where
  "not_found = HTTPError StatusNotFound ''instance not found''"

section \<open>instance.go\<close>

definition ListInstances :: "server \<Rightarrow> handler" where
  "ListInstances h rq u =
     orElse (k8s_ListInstances (sv_namespace h))
       (\<lambda>_. HTTPError StatusInternalServerError ''failed to list instances'') (\<lambda>instances.
     withUser u (\<lambda>user. Ret (JSON StatusOK (JInstances (
       if us_role user \<noteq> ''admin''
       then filter (\<lambda>i. sp_userId (ci_spec i) = user_uid (sv_lib h) user) instances
       else instances)))))"

definition create_error :: "web_lib \<Rightarrow> config_error \<Rightarrow> reply" where
  "create_error lib e = (case e of
     MissingValues missing \<Rightarrow> HTTPError StatusBadRequest (''missing required placeholder values: '' @ join '', '' missing)
   | SubstituteFailed e \<Rightarrow> HTTPError StatusBadRequest (''failed to substitute placeholders: '' @ error_text (wl_jsonErrorText lib) e)
   | NotJSONAfterSubstitution \<Rightarrow> HTTPError StatusBadRequest ''gateway config is not valid JSON after substitution''
   | OverrideNotJSON \<Rightarrow> HTTPError StatusBadRequest ''gateway config override is not valid JSON''
   | MergeFailed e \<Rightarrow> HTTPError StatusBadRequest (''failed to merge gateway config: '' @ error_text (wl_jsonErrorText lib) e)
   | MergePanics m \<Rightarrow> Panic m)"

definition CreateInstance :: "server \<Rightarrow> handler" where
  "CreateInstance h rq u = withUser u (\<lambda>user.
     let uid = user_uid (sv_lib h) user in
     bind (k8s_GetInstance (sv_namespace h) uid) (\<lambda>found.
     case found of Inr _ \<Rightarrow> Ret (HTTPError StatusConflict ''instance already exists'') | Inl _ \<Rightarrow>
     let req = (if rq_contentLength rq > 0 then wl_bindCreate (sv_lib h) rq
                else Inr \<lparr>ir_gatewayConfigOverride = [], ir_placeholderValues = Map.empty\<rparr>) in
     case req of Inl _ \<Rightarrow> Ret (HTTPError StatusBadRequest ''invalid request body'') | Inr req \<Rightarrow>
     rowOrElse (ask (Query QGetDefaults) dec_defaultsRow)
       (\<lambda>_. HTTPError StatusInternalServerError ''failed to load defaults'') (\<lambda>defaults.
     case build_config (sv_lib h) (df_gatewayConfig defaults) (ir_placeholderValues req) (ir_gatewayConfigOverride req) of
       Inl e \<Rightarrow> Ret (create_error (sv_lib h) e)
     | Inr gatewayConfig \<Rightarrow>
     bind generateToken (\<lambda>token.
     orElse (k8s_CreateInstance (new_instance (sv_namespace h) uid [] defaults token gatewayConfig))
       (\<lambda>e. if isAlreadyExists e then HTTPError StatusConflict ''instance already exists''
            else HTTPError StatusInternalServerError ''failed to create instance'')
       (\<lambda>i. Ret (JSON StatusCreated (JInstance i)))))))"

definition GetInstance :: "server \<Rightarrow> handler" where
  "GetInstance h rq u =
     orElse (k8s_GetInstance (sv_namespace h) (param rq ''id'')) (\<lambda>_. not_found) (\<lambda>i.
     withUser u (\<lambda>user.
       if hidden h user i then Ret not_found else Ret (JSON StatusOK (JInstance i))))"

definition DeleteInstance :: "server \<Rightarrow> handler" where
  "DeleteInstance h rq u =
     orElse (k8s_GetInstance (sv_namespace h) (param rq ''id'')) (\<lambda>_. not_found) (\<lambda>i.
     withUser u (\<lambda>user.
       if hidden h user i then Ret not_found
       else doneOrElse (k8s_DeleteInstance (sv_namespace h) (param rq ''id''))
              (\<lambda>_. HTTPError StatusInternalServerError ''failed to delete instance'')
              (Ret (NoContent StatusNoContent []))))"

section \<open>admin.go\<close>

definition ListUsersHandler :: handler where
  "ListUsersHandler rq u =
     orElse (ask (Query QListUsers) dec_users)
       (\<lambda>_. HTTPError StatusInternalServerError ''failed to list users'')
       (\<lambda>users. Ret (JSON StatusOK (JUsers users)))"

definition GetDefaultsHandler :: handler where
  "GetDefaultsHandler rq u =
     rowOrElse (ask (Query QGetDefaults) dec_defaultsRow)
       (\<lambda>_. HTTPError StatusInternalServerError ''failed to get defaults'')
       (\<lambda>defaults. Ret (JSON StatusOK (JDefaults defaults)))"

text \<open>The check of a new default configuration, as a template or as JSON, in both update handlers.\<close>

definition config_problem :: "web_lib \<Rightarrow> string \<Rightarrow> reply option" where
  "config_problem lib gatewayConfig =
     (if ExtractPlaceholders gatewayConfig \<noteq> []
      then (case ValidateTemplate gatewayConfig of
              Some e \<Rightarrow> Some (HTTPError StatusBadRequest
                (''gateway config template is not valid: '' @ error_text (wl_jsonErrorText lib) e))
            | None \<Rightarrow> None)
      else if \<not> json_valid gatewayConfig
      then Some (HTTPError StatusBadRequest ''gateway config is not valid JSON'')
      else None)"

definition UpdateDefaultsHandler :: "server \<Rightarrow> handler" where
  "UpdateDefaultsHandler h rq u =
     (case wl_bindDefaults (sv_lib h) rq of
        Inl _ \<Rightarrow> Ret (HTTPError StatusBadRequest ''invalid request body'')
      | Inr req \<Rightarrow>
     (case config_problem (sv_lib h) (ud_gatewayConfig req) of
        Some r \<Rightarrow> Ret r
      | None \<Rightarrow>
     rowOrElse (ask (Query (QUpdateDefaults req)) dec_defaultsRow)
       (\<lambda>_. HTTPError StatusInternalServerError ''failed to update defaults'')
       (\<lambda>defaults. Ret (JSON StatusOK (JDefaults defaults)))))"

definition GetDefaultGatewayConfig :: "server \<Rightarrow> handler" where
  "GetDefaultGatewayConfig h rq u =
     Ret (JSON StatusOK (JMap [(''gatewayConfig'', cf_defaultGatewayConfig (sv_config h))]))"

section \<open>notification.go\<close>

definition NotifyInstanceReadyHandler :: "server \<Rightarrow> handler" where
  "NotifyInstanceReadyHandler h rq u =
     (if \<not> sv_bot h then Ret (NoContent StatusOK [])
      else case wl_bindReady (sv_lib h) rq of
        Inl _ \<Rightarrow> Ret (JSON StatusBadRequest (JMap [(''error'', ''invalid request body'')]))
      | Inr req \<Rightarrow>
          if nr_userID req = [] then Ret (JSON StatusBadRequest (JMap [(''error'', ''userId is required'')]))
          else bind (ask (Spawn (NotifyReady (nr_instanceName req) (nr_userID req))) (\<lambda>_. ()))
                 (\<lambda>_. Ret (NoContent StatusOK [])))"

section \<open>pages.go\<close>

definition user_names :: "web_lib \<Rightarrow> user list \<Rightarrow> bindings" where
  "user_names lib users =
     foldl (\<lambda>m u. if uu_valid (us_id u) then put (wl_uuidValue lib (uu_bytes (us_id u))) (us_name u) m else m) [] users"

definition PageDashboard :: "server \<Rightarrow> handler" where
  "PageDashboard h rq u =
     (case u of None \<Rightarrow> Ret (Page StatusOK (if sv_dev h then DevLoginPage else LoginPage)) | Some user \<Rightarrow>
     orElse (k8s_ListInstances (sv_namespace h))
       (\<lambda>_. HTTPError StatusInternalServerError ''failed to list instances'') (\<lambda>instances.
     let uid = user_uid (sv_lib h) user;
         mine = (\<lambda>i. sp_userId (ci_spec i) = uid);
         hasInstance = list_ex mine instances
     in
     bind (if us_role user \<noteq> ''admin'' then Ret (filter mine instances, [])
           else ask (Query QListUsers) (\<lambda>a. (instances,
                  case dec_users a of Inl _ \<Rightarrow> [] | Inr users \<Rightarrow> user_names (sv_lib h) users))) (\<lambda>(instances, userNames).
     rowOrElse (ask (Query QGetDefaults) dec_defaultsRow)
       (\<lambda>_. HTTPError StatusInternalServerError ''failed to load defaults'') (\<lambda>defaults.
     Ret (Page StatusOK (Dashboard instances (us_role user = ''admin'') hasInstance userNames
            (ExtractPlaceholders (df_gatewayConfig defaults))
            (cf_tuiEnabled (sv_config h)) (cf_shellEnabled (sv_config h)) uid))))))"

definition page_create_error :: "web_lib \<Rightarrow> config_error \<Rightarrow> reply" where
  "page_create_error lib e = (case e of
     MissingValues missing \<Rightarrow> HTTPError StatusBadRequest (''missing required values: '' @ join '', '' missing)
   | _ \<Rightarrow> create_error lib e)"

text \<open>A value given for a placeholder is the form value \<^verbatim>\<open>var_\<close> with its name, unless empty.\<close>

definition form_values :: "request \<Rightarrow> string \<rightharpoonup> string" where
  "form_values rq name = (let val = formValue rq (''var_'' @ name) in if val = [] then None else Some val)"

definition PageCreateInstance :: "server \<Rightarrow> handler" where
  "PageCreateInstance h rq u = withUser u (\<lambda>user.
     let uid = user_uid (sv_lib h) user in
     bind (k8s_GetInstance (sv_namespace h) uid) (\<lambda>found.
     case found of Inr _ \<Rightarrow> Ret (Redirect StatusSeeOther ''/'') | Inl _ \<Rightarrow>
     rowOrElse (ask (Query QGetDefaults) dec_defaultsRow)
       (\<lambda>_. HTTPError StatusInternalServerError ''failed to load defaults'') (\<lambda>defaults.
     case build_config (sv_lib h) (df_gatewayConfig defaults) (form_values rq) (formValue rq ''gatewayConfigOverride'') of
       Inl e \<Rightarrow> Ret (page_create_error (sv_lib h) e)
     | Inr gatewayConfig \<Rightarrow>
     bind generateToken (\<lambda>token.
     orElse (k8s_CreateInstance (new_instance (sv_namespace h) uid [] defaults token gatewayConfig))
       (\<lambda>e. if isAlreadyExists e then Redirect StatusSeeOther ''/''
            else HTTPError StatusInternalServerError ''failed to create instance'')
       (\<lambda>_. Ret (NoContent StatusCreated [(''HX-Redirect'', ''/'')]))))))"

definition PageInstanceDetail :: "server \<Rightarrow> handler" where
  "PageInstanceDetail h rq u =
     orElse (k8s_GetInstance (sv_namespace h) (param rq ''id'')) (\<lambda>_. not_found) (\<lambda>i.
     withUser u (\<lambda>user.
       if hidden h user i then Ret not_found
       else Ret (Page StatusOK (InstanceDetail i (us_role user = ''admin'') (cf_tuiEnabled (sv_config h))
                   (cf_shellEnabled (sv_config h)) (sp_userId (ci_spec i) = user_uid (sv_lib h) user)))))"

definition PageInstanceStatus :: "server \<Rightarrow> handler" where
  "PageInstanceStatus h rq u =
     orElse (k8s_GetInstance (sv_namespace h) (param rq ''id'')) (\<lambda>_. not_found) (\<lambda>i.
     withUser u (\<lambda>user.
       if hidden h user i then Ret not_found
       else Ret (Page StatusOK (StatusPollResponse i (cf_tuiEnabled (sv_config h)) (cf_shellEnabled (sv_config h))
                   (sp_userId (ci_spec i) = user_uid (sv_lib h) user)
                   (contains (header rq ''Hx-Current-Url'') ''/ui/instances/'')))))"

definition PageDeleteInstance :: "server \<Rightarrow> handler" where
  "PageDeleteInstance h rq u =
     orElse (k8s_GetInstance (sv_namespace h) (param rq ''id'')) (\<lambda>_. not_found) (\<lambda>i.
     withUser u (\<lambda>user.
       if hidden h user i then Ret not_found
       else doneOrElse (k8s_DeleteInstance (sv_namespace h) (param rq ''id''))
              (\<lambda>_. HTTPError StatusInternalServerError ''failed to delete instance'')
              (Ret (NoContent StatusOK
                (if queryParam rq ''redirect'' = ''true'' then [(''HX-Redirect'', ''/'')] else [])))))"

definition PageAdminUsers :: handler where
  "PageAdminUsers rq u = withUser u (\<lambda>user.
     if us_role user \<noteq> ''admin'' then Ret (Redirect StatusFound ''/'')
     else orElse (ask (Query QListUsers) dec_users)
            (\<lambda>_. HTTPError StatusInternalServerError ''failed to list users'')
            (\<lambda>users. Ret (Page StatusOK (AdminUsers users True))))"

definition PageAdminDefaults :: handler where
  "PageAdminDefaults rq u = withUser u (\<lambda>user.
     if us_role user \<noteq> ''admin'' then Ret (Redirect StatusFound ''/'')
     else rowOrElse (ask (Query QGetDefaults) dec_defaultsRow)
            (\<lambda>_. HTTPError StatusInternalServerError ''failed to get defaults'')
            (\<lambda>defaults. Ret (Page StatusOK (AdminDefaults
               (defaults\<lparr>df_gatewayConfig := prettyJSON (df_gatewayConfig defaults)\<rparr>) True))))"

text \<open>A template is stored as it is; anything else is compacted.\<close>

definition stored_config :: "string \<Rightarrow> string" where
  "stored_config gatewayConfig =
     (if ExtractPlaceholders gatewayConfig = [] then compactJSON gatewayConfig else gatewayConfig)"

definition PageUpdateDefaults :: "server \<Rightarrow> handler" where
  "PageUpdateDefaults h rq u = withUser u (\<lambda>user.
     if us_role user \<noteq> ''admin'' then Ret (Redirect StatusFound ''/'')
     else
       let gatewayConfig = formValue rq ''gatewayConfig'' in
       case config_problem (sv_lib h) gatewayConfig of
         Some r \<Rightarrow> Ret r
       | None \<Rightarrow>
           rowOrElse (ask (Query (QUpdateDefaults \<lparr>ud_image = formValue rq ''image'',
                ud_cpuRequest = formValue rq ''cpuRequest'', ud_memoryRequest = formValue rq ''memoryRequest'',
                ud_cpuLimit = formValue rq ''cpuLimit'', ud_memoryLimit = formValue rq ''memoryLimit'',
                ud_storageSize = formValue rq ''storageSize'',
                ud_gatewayConfig = stored_config gatewayConfig\<rparr>)) dec_defaultsRow)
             (\<lambda>_. HTTPError StatusInternalServerError ''failed to update defaults'')
             (\<lambda>_. Ret (Redirect StatusSeeOther ''/ui/admin/defaults'')))"

definition PageEditInstanceConfig :: "server \<Rightarrow> handler" where
  "PageEditInstanceConfig h rq u =
     orElse (k8s_GetInstance (sv_namespace h) (param rq ''id'')) (\<lambda>_. not_found) (\<lambda>i.
     withUser u (\<lambda>user.
       if hidden h user i then Ret not_found
       else bind (ReadInstanceConfig (''clawbake-'' @ instance_name i)) (\<lambda>read.
         let (configJSON, fromPod) = (case read of Inr c \<Rightarrow> (c, True) | Inl _ \<Rightarrow> (sp_gatewayConfig (ci_spec i), False))
         in Ret (Page StatusOK (InstanceEditConfig i (prettyJSON configJSON) fromPod (us_role user = ''admin''))))))"

definition with_config :: "string \<Rightarrow> claw_instance \<Rightarrow> claw_instance" where
  "with_config gatewayConfig i =
     i\<lparr>ci_spec := (ci_spec i)\<lparr>sp_gatewayConfig := gatewayConfig,
                             sp_configGeneration := sp_configGeneration (ci_spec i) + 1\<rparr>\<rparr>"

definition PageUpdateInstanceConfig :: "server \<Rightarrow> handler" where
  "PageUpdateInstanceConfig h rq u =
     orElse (k8s_GetInstance (sv_namespace h) (param rq ''id'')) (\<lambda>_. not_found) (\<lambda>i.
     withUser u (\<lambda>user.
       if hidden h user i then Ret not_found
       else
         let gatewayConfig = formValue rq ''gatewayConfig'' in
         if \<not> json_valid gatewayConfig
         then Ret (HTTPError StatusBadRequest ''gateway config is not valid JSON'')
         else doneOrElse (k8s_UpdateInstance (with_config (compactJSON gatewayConfig) i))
                (\<lambda>_. HTTPError StatusInternalServerError ''failed to update instance config'')
                (Ret (Redirect StatusSeeOther (''/ui/instances/'' @ param rq ''id'')))))"

lemmas [prog_def] = generateToken_def ListInstances_def CreateInstance_def GetInstance_def DeleteInstance_def
  ListUsersHandler_def GetDefaultsHandler_def UpdateDefaultsHandler_def GetDefaultGatewayConfig_def
  NotifyInstanceReadyHandler_def PageDashboard_def PageCreateInstance_def PageInstanceDetail_def
  PageInstanceStatus_def PageDeleteInstance_def PageAdminUsers_def PageAdminDefaults_def
  PageUpdateDefaults_def PageEditInstanceConfig_def PageUpdateInstanceConfig_def

end
