(* ===== verification/Proxy.thy ===== *)
theory Proxy
  imports Handlers
begin

text \<open>
  \<^verbatim>\<open>internal/handler/proxy.go\<close>: requests and WebSocket upgrades handed on to the signed-in user's
  own instance.
\<close>

section \<open>Paths\<close>

definition proxyPrefixWeb :: string where "proxyPrefixWeb = ''/proxy/web''"
definition proxyPrefixTUI :: string where "proxyPrefixTUI = ''/proxy/tui''"
definition proxyPrefixShell :: string where "proxyPrefixShell = ''/proxy/shell''"
definition portWeb :: nat where "portWeb = 18789"
definition portTUI :: nat where "portTUI = 7681"
definition portShell :: nat where "portShell = 7682"

lemmas proxy_consts = proxyPrefixWeb_def proxyPrefixTUI_def proxyPrefixShell_def portWeb_def portTUI_def portShell_def

record proxy_route =
  pr_port :: nat
  pr_prefix :: string

definition classifyProxyPath :: "string \<Rightarrow> proxy_route" where
  "classifyProxyPath path =
     (if hasPrefix path proxyPrefixShell then \<lparr>pr_port = portShell, pr_prefix = proxyPrefixShell\<rparr>
      else if hasPrefix path proxyPrefixTUI then \<lparr>pr_port = portTUI, pr_prefix = proxyPrefixTUI\<rparr>
      else \<lparr>pr_port = portWeb, pr_prefix = proxyPrefixWeb\<rparr>)"

definition stripRoutePrefix :: "string \<Rightarrow> string \<Rightarrow> string" where
  "stripRoutePrefix path prefix = (if length path > length prefix then drop (length prefix) path else ''/'')"

definition isWebSocketUpgrade :: "request \<Rightarrow> bool" where
  "isWebSocketUpgrade rq \<longleftrightarrow> equalFold (header rq ''Upgrade'') ''websocket''"

section \<open>The target\<close>

text \<open>
  The host of the instance's service. Namespaces are DNS labels, so \<^verbatim>\<open>url.Parse\<close> of the address
  finds this host.
\<close>

definition target_host :: "string \<Rightarrow> nat \<Rightarrow> string" where
  "target_host ns port = ''openclaw.'' @ ns @ ''.svc.cluster.local:'' @ show_nat port"

definition instance_ns :: "string \<Rightarrow> claw_instance \<Rightarrow> string" where
  "instance_ns uid i = (if st_namespace (ci_status i) = [] then ''clawbake-'' @ uid else st_namespace (ci_status i))"

definition route_token :: "proxy_route \<Rightarrow> claw_instance \<Rightarrow> string" where
  "route_token route i = (if pr_port route = portWeb then sp_gatewayToken (ci_spec i) else [])"

definition set_header :: "string \<Rightarrow> string \<Rightarrow> bindings \<Rightarrow> bindings" where
  "set_header k v hs = (k, v) # filter (\<lambda>(k', _). k' \<noteq> k) hs"

definition with_token :: "string \<Rightarrow> bindings \<Rightarrow> bindings" where
  "with_token token hs = (if token \<noteq> [] then set_header ''X-Openclaw-Token'' token hs else hs)"

section \<open>WebSockets\<close>

definition proxyWebSocket :: "request \<Rightarrow> string \<Rightarrow> string \<Rightarrow> string \<Rightarrow> web_lib \<Rightarrow> reply sprog" where
  "proxyWebSocket rq host token prefix lib =
     doneOrElse (ask (Dial host) dec_error) (\<lambda>_. HTTPError StatusBadGateway ''failed to connect to instance'') (
     let path = (if hasPrefix (rq_path rq) prefix then stripRoutePrefix (rq_path rq) prefix else rq_path rq);
         path = (if rq_rawQuery rq \<noteq> [] then path @ ''?'' @ rq_rawQuery rq else path)
     in if \<not> wl_urlOK lib path then Ret (Panic ''nil pointer dereference'')
     else
       let outReq = \<lparr>or_method = rq_method rq, or_url = path, or_host = host,
             or_headers = with_token token (set_header ''Origin'' (''http://'' @ host) (rq_headers rq)), or_body = []\<rparr>
       in
       doneOrElse (ask (SendUpgrade outReq) dec_error)
         (\<lambda>_. HTTPError StatusBadGateway ''failed to send upgrade request'') (
       doneOrElse (ask GetHijacker dec_error) (\<lambda>_. HTTPError StatusInternalServerError ''hijack not supported'') (
       doneOrElse (ask Hijack dec_error) (\<lambda>_. HTTPError StatusInternalServerError ''failed to hijack connection'') (
       ask Pipe (\<lambda>_. Piped)))))"

definition websocketHandler :: "server \<Rightarrow> handler" where
  "websocketHandler h rq u =
     (case u of None \<Rightarrow> Ret (HTTPError StatusUnauthorized ''authentication required'') | Some user \<Rightarrow>
     let uid = user_uid (sv_lib h) user in
     orElse (k8s_GetInstance (sv_namespace h) uid) (\<lambda>_. HTTPError StatusNotFound ''no instance found'') (\<lambda>i.
     if phase i \<noteq> PhaseRunning then Ret (HTTPError StatusServiceUnavailable ''instance is not running'')
     else
       let route = classifyProxyPath (rq_path rq)
       in proxyWebSocket rq (target_host (instance_ns uid i) (pr_port route)) (route_token route i) (pr_prefix route)
            (sv_lib h)))"

definition WebSocketMiddleware :: "server \<Rightarrow> middleware \<Rightarrow> middleware" where
  "WebSocketMiddleware h requireAuth next rq u =
     (if \<not> isWebSocketUpgrade rq then next rq u else requireAuth (websocketHandler h) rq u)"

section \<open>Requests\<close>

definition control_ui_config :: string where
  "control_ui_config = ''/__openclaw/control-ui-config.json''"

text \<open>
  \<^verbatim>\<open>ModifyResponse\<close>: in the configuration of the control UI, \<^verbatim>\<open>basePath\<close> is set; a body that is not
  an object is left alone, but \<^verbatim>\<open>null\<close> decodes to a nil map, which cannot be assigned to.
\<close>

definition modifyResponse :: "web_lib \<Rightarrow> string \<Rightarrow> string \<Rightarrow> string outcome" where
  "modifyResponse lib requestPath body =
     (if requestPath \<noteq> control_ui_config then Returned body
      else case unmarshal_map (wl_floatText lib) body of
        Inl _ \<Rightarrow> Returned body
      | Inr None \<Rightarrow> Panicked ''assignment to entry in nil map''
      | Inr (Some cfg) \<Rightarrow> Returned (json_marshal (JObj (put ''basePath'' (JStr ''/proxy/web'') cfg))))"

definition forward :: "web_lib \<Rightarrow> string \<Rightarrow> out_request \<Rightarrow> reply sprog" where
  "forward lib requestPath out = bind (ask (ForwardHTTP out) dec_text) (\<lambda>x.
     case x of
       Inl _ \<Rightarrow> Ret (Forwarded None)
     | Inr body \<Rightarrow>
         Ret (case modifyResponse lib requestPath body of
                Returned b \<Rightarrow> Forwarded (Some b) | Failed _ \<Rightarrow> Forwarded None | Panicked m \<Rightarrow> Panic m))"

definition ProxyToInstance :: "server \<Rightarrow> handler" where
  "ProxyToInstance h rq u =
     (if rq_path rq = ''/proxy'' \<or> rq_path rq = ''/proxy/'' then Ret (Redirect StatusFound ''/proxy/web/'')
      else withUser u (\<lambda>user.
      let uid = user_uid (sv_lib h) user in
      orElse (k8s_GetInstance (sv_namespace h) uid) (\<lambda>_. HTTPError StatusNotFound ''no instance found'') (\<lambda>i.
      if phase i \<noteq> PhaseRunning then Ret (HTTPError StatusServiceUnavailable ''instance is not running'')
      else
        let route = classifyProxyPath (rq_path rq);
            host = target_host (instance_ns uid i) (pr_port route);
            token = route_token route i
        in if isWebSocketUpgrade rq then proxyWebSocket rq host token (pr_prefix route) (sv_lib h)
        else
          let requestPath = stripRoutePrefix (rq_path rq) (pr_prefix route)
          in if pr_port route = portWeb \<and> requestPath = ''/'' \<and> token \<noteq> [] \<and> queryParam rq ''token'' = []
             then Ret (Redirect StatusFound (''/proxy/web/?token='' @ queryEscape token))
             else forward (sv_lib h) requestPath
               \<lparr>or_method = rq_method rq,
                or_url = requestPath @ (if rq_rawQuery rq \<noteq> [] then ''?'' @ rq_rawQuery rq else []),
                or_host = host, or_headers = with_token token (rq_headers rq),
                or_body = (case rq_body rq of Some b \<Rightarrow> b | None \<Rightarrow> [])\<rparr>)))"

lemmas [prog_def] = proxyWebSocket_def websocketHandler_def WebSocketMiddleware_def forward_def ProxyToInstance_def

end
