(* ===== verification/Auth.thy ===== *)
theory Auth
  imports Server
begin

text \<open>
  \<^verbatim>\<open>internal/auth\<close>: signing in with OpenID Connect (\<^verbatim>\<open>oidc.go\<close>) and the development login
  (\<^verbatim>\<open>dev.go\<close>), and the middleware that puts the user into the context. The session store, the
  identity provider and the database are called.
\<close>

definition sessionKeyUserID :: string where "sessionKeyUserID = ''user_id''"
definition sessionKeyState :: string where "sessionKeyState = ''oauth_state''"
definition sessionKeyRedirect :: string where "sessionKeyRedirect = ''redirect_url''"
definition devSessionKeyRole :: string where "devSessionKeyRole = ''dev_role''"

lemma session_keys [simp]:
  "sessionKeyUserID \<noteq> sessionKeyState" "sessionKeyState \<noteq> sessionKeyUserID"
  "sessionKeyUserID \<noteq> sessionKeyRedirect" "sessionKeyRedirect \<noteq> sessionKeyUserID"
  "sessionKeyState \<noteq> sessionKeyRedirect" "sessionKeyRedirect \<noteq> sessionKeyState"
  by (simp_all add: sessionKeyUserID_def sessionKeyState_def sessionKeyRedirect_def)

section \<open>Shared functions\<close>

definition randomState :: "(go_error + string) sprog" where
  "randomState = bind (ask (RandRead 16) (dec_rand 16)) (\<lambda>(b, err).
     case err of Some e \<Rightarrow> Ret (Inl e) | None \<Rightarrow> Ret (Inr (hex_encode b)))"

definition isBrowserRequest :: "request \<Rightarrow> bool" where
  "isBrowserRequest rq \<longleftrightarrow> contains (header rq ''Accept'') ''text/html''"

definition safeRedirectPath :: "string \<Rightarrow> string" where
  "safeRedirectPath u = (if u = [] \<or> \<not> hasPrefix u ''/'' \<or> hasPrefix u ''//'' then ''/'' else u)"

abbreviation set_value :: "string \<Rightarrow> session_value \<Rightarrow> session \<Rightarrow> session" where
  "set_value k v s \<equiv> s\<lparr>se_values := (se_values s)(k \<mapsto> v)\<rparr>"

definition delete_value :: "string \<Rightarrow> session \<Rightarrow> session" where
  "delete_value k s = s\<lparr>se_values := (se_values s)(k := None)\<rparr>"

definition string_value :: "session \<Rightarrow> string \<Rightarrow> string option" where
  "string_value s k = (case se_values s k of Some (SString v) \<Rightarrow> Some v | _ \<Rightarrow> None)"

text \<open>\<^verbatim>\<open>LogoutHandler\<close>, the same in both files: the cookie is made to expire.\<close>

definition LogoutHandler :: handler where
  "LogoutHandler rq u = bind (ask SessionGet dec_session) (\<lambda>session.
     bind (ask (SessionSave (session\<lparr>se_maxAge := - 1\<rparr>)) dec_error) (\<lambda>_.
       Ret (Redirect StatusFound ''/'')))"

text \<open>\<^verbatim>\<open>RequireAdmin\<close>, the same in both files.\<close>

definition RequireAdmin :: middleware where
  "RequireAdmin next rq u =
     (case u of
        Some v \<Rightarrow> if us_role v \<noteq> ''admin'' then Ret (HTTPError StatusForbidden ''admin access required'') else next rq u
      | None \<Rightarrow> Ret (HTTPError StatusForbidden ''admin access required''))"

section \<open>OpenID Connect\<close>

definition LoginHandler :: "web_lib \<Rightarrow> handler" where
  "LoginHandler lib rq u =
     orElse randomState (\<lambda>_. HTTPError StatusInternalServerError ''failed to generate state'') (\<lambda>state.
     bind (ask SessionGet dec_session) (\<lambda>session.
     let session = set_value sessionKeyState (SString state) session;
         redirect = queryParam rq ''redirect'';
         session = (if redirect \<noteq> [] then set_value sessionKeyRedirect (SString redirect) session else session)
     in doneOrElse (ask (SessionSave session) dec_error)
          (\<lambda>_. HTTPError StatusInternalServerError ''failed to save session'')
          (Ret (Redirect StatusFound (wl_authCodeURL lib state)))))"

text \<open>
  The user for the claims of a verified token: by OIDC subject; else by email, whose subject is
  then set; else a new one.
\<close>

definition find_user :: "claims \<Rightarrow> (user \<Rightarrow> reply sprog) \<Rightarrow> reply sprog" where
  "find_user claims k =
     bind (ask (Query (QGetUserByOIDCSubject (cl_sub claims))) dec_userRow) (\<lambda>row.
       case row of
         (user, None) \<Rightarrow> k user
       | (_, Some _) \<Rightarrow>
     bind (ask (Query (QGetUserByEmail (cl_email claims))) dec_userRow) (\<lambda>row.
       case row of
         (user, None) \<Rightarrow>
           rowOrElse (ask (Query (QUpdateUser \<lparr>up_id = us_id user, up_email = None, up_name = None,
                        up_picture = None, up_role = None, up_oidcSubject = Some (cl_sub claims),
                        up_slackUserID = None\<rparr>)) dec_userRow)
             (\<lambda>_. HTTPError StatusInternalServerError ''failed to link user'') k
       | (_, Some _) \<Rightarrow>
           rowOrElse (ask (Query (QCreateUser \<lparr>cu_email = cl_email claims, cu_name = cl_name claims,
                        cu_picture = (if cl_picture claims \<noteq> [] then Some (cl_picture claims) else None),
                        cu_role = ''user'', cu_oidcSubject = cl_sub claims, cu_slackUserID = None\<rparr>)) dec_userRow)
             (\<lambda>_. HTTPError StatusInternalServerError ''failed to create user'') k))"

text \<open>\<^verbatim>\<open>userID, _ := user.ID.Value()\<close>, put into the session as it is.\<close>

definition id_value :: "web_lib \<Rightarrow> uuid \<Rightarrow> session_value" where
  "id_value lib i = (if uu_valid i then SString (wl_uuidValue lib (uu_bytes i)) else SNil)"

definition finish_sign_in :: "web_lib \<Rightarrow> session \<Rightarrow> user \<Rightarrow> reply sprog" where
  "finish_sign_in lib session user =
     (let session = set_value sessionKeyUserID (id_value lib (us_id user)) session;
          r = string_value session sessionKeyRedirect;
          redirect = (case r of Some r \<Rightarrow> safeRedirectPath r | None \<Rightarrow> ''/'');
          session = (if r \<noteq> None then delete_value sessionKeyRedirect session else session)
      in doneOrElse (ask (SessionSave session) dec_error)
           (\<lambda>_. HTTPError StatusInternalServerError ''failed to save session'')
           (Ret (Redirect StatusFound redirect)))"

definition CallbackHandler :: "web_lib \<Rightarrow> handler" where
  "CallbackHandler lib rq u =
     bind (ask SessionGet dec_session) (\<lambda>session.
     let savedState = string_value session sessionKeyState in
     if savedState = None \<or> savedState = Some [] \<or> savedState \<noteq> Some (queryParam rq ''state'')
     then Ret (HTTPError StatusBadRequest ''invalid oauth state'')
     else
       let session = delete_value sessionKeyState session in
       orElse (ask (OAuthExchange (queryParam rq ''code'')) dec_token)
         (\<lambda>_. HTTPError StatusUnauthorized ''failed to exchange code'') (\<lambda>rawIDToken.
       case rawIDToken of
         None \<Rightarrow> Ret (HTTPError StatusUnauthorized ''missing id_token'')
       | Some raw \<Rightarrow>
       orElse (ask (VerifyIDToken raw) dec_claims)
         (\<lambda>_. HTTPError StatusUnauthorized ''invalid id_token'') (\<lambda>parsed.
       case parsed of
         Inl _ \<Rightarrow> Ret (HTTPError StatusInternalServerError ''failed to parse claims'')
       | Inr claims \<Rightarrow>
       find_user claims (finish_sign_in lib session))))"

definition RequireAuth :: "web_lib \<Rightarrow> middleware" where
  "RequireAuth lib next rq u =
     bind (ask SessionGet dec_session) (\<lambda>session.
       case se_values session sessionKeyUserID of
         None \<Rightarrow>
           if isBrowserRequest rq
           then Ret (Redirect StatusFound (''/auth/login?redirect='' @ queryEscape (rq_requestURI rq)))
           else Ret (HTTPError StatusUnauthorized ''authentication required'')
       | Some SNil \<Rightarrow> Ret (HTTPError StatusUnauthorized ''invalid session'')
       | Some (SString userIDStr) \<Rightarrow>
           (case wl_uuidScan lib userIDStr of
              None \<Rightarrow> Ret (HTTPError StatusUnauthorized ''invalid session'')
            | Some b \<Rightarrow>
                rowOrElse (ask (Query (QGetUserByID \<lparr>uu_bytes = b, uu_valid = True\<rparr>)) dec_userRow)
                  (\<lambda>_. HTTPError StatusUnauthorized ''user not found'')
                  (\<lambda>user. next rq (Some user))))"

definition OptionalAuth :: "web_lib \<Rightarrow> middleware" where
  "OptionalAuth lib next rq u =
     bind (ask SessionGet dec_session) (\<lambda>session.
       case string_value session sessionKeyUserID of
         None \<Rightarrow> next rq u
       | Some userIDStr \<Rightarrow>
           (case wl_uuidScan lib userIDStr of
              None \<Rightarrow> next rq u
            | Some b \<Rightarrow>
                bind (ask (Query (QGetUserByID \<lparr>uu_bytes = b, uu_valid = True\<rparr>)) dec_userRow) (\<lambda>row.
                  case row of (user, None) \<Rightarrow> next rq (Some user) | (_, Some _) \<Rightarrow> next rq u)))"

section \<open>Development login\<close>

record dev_spec =
  ds_email :: string
  ds_name :: string
  ds_role :: string
  ds_oidcSubject :: string

definition devSpecForRole :: "string \<Rightarrow> dev_spec" where
  "devSpecForRole role =
     (if role = ''admin''
      then \<lparr>ds_email = ''dev-admin@localhost'', ds_name = ''Dev Admin'', ds_role = ''admin'', ds_oidcSubject = ''dev:admin''\<rparr>
      else \<lparr>ds_email = ''dev-user@localhost'', ds_name = ''Dev User'', ds_role = ''user'', ds_oidcSubject = ''dev:user''\<rparr>)"

definition dev_params :: "string \<Rightarrow> create_user_params" where
  "dev_params role = (let spec = devSpecForRole role in
     \<lparr>cu_email = ds_email spec, cu_name = ds_name spec, cu_picture = None, cu_role = ds_role spec,
      cu_oidcSubject = ds_oidcSubject spec, cu_slackUserID = None\<rparr>)"

definition ensureDevUser :: "string \<Rightarrow> (go_error + user) sprog" where
  "ensureDevUser role =
     bind (ask (Query (QGetUserByEmail (ds_email (devSpecForRole role)))) dec_userRow) (\<lambda>row.
       case row of
         (user, None) \<Rightarrow> Ret (Inr user)
       | (_, Some e) \<Rightarrow>
           if \<not> is_no_rows e then Ret (Inl e)
           else bind (ask (Query (QCreateUser (dev_params role))) dec_userRow) (\<lambda>row.
             case row of (user, None) \<Rightarrow> Ret (Inr user) | (_, Some e) \<Rightarrow> Ret (Inl e)))"

definition dev_user_id :: uuid where
  "dev_user_id = \<lparr>uu_bytes = [CHR 0xDE, CHR 0xF0] @ replicate 13 (CHR 0x00) @ [CHR 0x01], uu_valid = True\<rparr>"

definition getDevUser :: "string \<Rightarrow> user sprog" where
  "getDevUser role =
     (let spec = devSpecForRole role in
      bind (ask (Query (QGetUserByEmail (ds_email spec))) dec_userRow) (\<lambda>row.
        case row of
          (user, None) \<Rightarrow> Ret user
        | (_, Some _) \<Rightarrow> Ret (zero_user\<lparr>us_id := dev_user_id, us_email := ds_email spec,
                              us_name := ds_name spec, us_role := ds_role spec\<rparr>)))"

definition DevLoginHandler :: handler where
  "DevLoginHandler rq u =
     (let role = (if queryParam rq ''role'' \<noteq> ''admin'' \<and> queryParam rq ''role'' \<noteq> ''user'' then ''user''
                  else queryParam rq ''role'') in
      bind (ensureDevUser role) (\<lambda>_.
      bind (ask SessionGet dec_session) (\<lambda>session.
      doneOrElse (ask (SessionSave (set_value devSessionKeyRole (SString role) session)) dec_error)
        (\<lambda>_. HTTPError StatusInternalServerError ''failed to save session'')
        (Ret (Redirect StatusFound (safeRedirectPath (queryParam rq ''redirect'')))))))"

definition DevRequireAuth :: middleware where
  "DevRequireAuth next rq u =
     bind (ask SessionGet dec_session) (\<lambda>session.
       case string_value session devSessionKeyRole of
         None \<Rightarrow>
           if isBrowserRequest rq
           then Ret (Redirect StatusFound (''/auth/dev-login?redirect='' @ queryEscape (rq_requestURI rq)))
           else Ret (HTTPError StatusUnauthorized ''authentication required'')
       | Some role \<Rightarrow> bind (getDevUser role) (\<lambda>user. next rq (Some user)))"

definition DevOptionalAuth :: middleware where
  "DevOptionalAuth next rq u =
     bind (ask SessionGet dec_session) (\<lambda>session.
       case string_value session devSessionKeyRole of
         None \<Rightarrow> next rq u
       | Some role \<Rightarrow> bind (getDevUser role) (\<lambda>user. next rq (Some user)))"

lemmas [prog_def] = randomState_def LogoutHandler_def RequireAdmin_def LoginHandler_def find_user_def
  finish_sign_in_def CallbackHandler_def RequireAuth_def OptionalAuth_def ensureDevUser_def getDevUser_def
  DevLoginHandler_def DevRequireAuth_def DevOptionalAuth_def

end
