(* ===== verification/AuthSafety.thy ===== *)
theory AuthSafety
  imports Auth
begin

text \<open>
  What signing in guarantees: the order of the checks of the OpenID callback for any answers of
  the outside, the round trip from a callback to the user a later request is handled for, and
  the contract of the middleware, which both providers meet.
\<close>

section \<open>Reading answers\<close>

text \<open>A successful answer has the kind its call has.\<close>

lemma dec_success [simp]:
  "dec_userRow a = (u, None) \<longleftrightarrow> a = AUserRow (u, None)"
  "dec_users a = Inr us \<longleftrightarrow> a = AUsers (Inr us)"
  "dec_defaultsRow a = (d, None) \<longleftrightarrow> a = ADefaultsRow (d, None)"
  "dec_error a = None \<longleftrightarrow> a = AError None"
  "dec_obj a = Inr i \<longleftrightarrow> a = AObj (Inr i)"
  "dec_objs a = Inr is \<longleftrightarrow> a = AObjs (Inr is)"
  "dec_pods a = Inr ps \<longleftrightarrow> a = APods (Inr ps)"
  "dec_token a = Inr t \<longleftrightarrow> a = AToken (Inr t)"
  "dec_claims a = Inr c \<longleftrightarrow> a = AClaims (Inr c)"
  "dec_profile a = Inr p \<longleftrightarrow> a = AProfile (Inr p)"
  "dec_status a = Inr n \<longleftrightarrow> a = AStatus (Inr n)"
  "dec_text a = Inr s \<longleftrightarrow> a = AText (Inr s)"
  by (auto simp: decs split: sanswer.splits)

lemma dec_same [simp]:
  "dec_userRow (AUserRow x) = x" "dec_users (AUsers y) = y" "dec_defaultsRow (ADefaultsRow z) = z"
  "dec_error (AError e) = e" "dec_obj (AObj i) = i" "dec_objs (AObjs is) = is" "dec_pods (APods ps) = ps"
  "dec_session (ASession se) = se" "dec_token (AToken t) = t" "dec_claims (AClaims c) = c"
  "dec_profile (AProfile p) = p" "dec_status (AStatus n) = n" "dec_text (AText s) = s" "dec_time (ATime m) = m"
  by (simp_all add: decs)

section \<open>Redirects\<close>

definition local_path :: "string \<Rightarrow> bool" where
  "local_path p \<longleftrightarrow> hasPrefix p ''/'' \<and> \<not> hasPrefix p ''//''"


section \<open>The callback\<close>

definition verified :: "(scall, sanswer) history \<Rightarrow> claims \<Rightarrow> bool" where
  "verified h claims \<longleftrightarrow> (\<exists>raw. (VerifyIDToken raw, AClaims (Inr (Inr claims))) \<in> set h
      \<and> (\<exists>code. (OAuthExchange code, AToken (Inr (Some raw))) \<in> set h))"

text \<open>
  The calls a callback may make after the calls before it: the code is exchanged only if the
  state of the request is the non-empty one of the session; the database is asked only about
  the subject and email of a token that was verified; only that subject is written, and only to
  the row found by that email or a new one with the role user; the session gets the id of
  a row the database returned for it, and loses its state.
\<close>

definition callback_allowed :: "web_lib \<Rightarrow> request \<Rightarrow> (scall, sanswer) history \<Rightarrow> scall \<Rightarrow> bool" where
  "callback_allowed lib rq h c =
     (case c of
        SessionGet \<Rightarrow> h = []
      | OAuthExchange code \<Rightarrow>
          (\<exists>session. map fst h = [SessionGet] \<and> dec_session (snd (hd h)) = session
             \<and> string_value session sessionKeyState = Some (queryParam rq ''state'') \<and> queryParam rq ''state'' \<noteq> [])
      | VerifyIDToken raw \<Rightarrow> (\<exists>code. (OAuthExchange code, AToken (Inr (Some raw))) \<in> set h)
      | Query (QGetUserByOIDCSubject sub) \<Rightarrow> (\<exists>claims. verified h claims \<and> sub = cl_sub claims)
      | Query (QGetUserByEmail email) \<Rightarrow> (\<exists>claims. verified h claims \<and> email = cl_email claims)
      | Query (QUpdateUser arg) \<Rightarrow> (\<exists>claims user. verified h claims
          \<and> (Query (QGetUserByEmail (cl_email claims)), AUserRow (user, None)) \<in> set h
          \<and> up_id arg = us_id user \<and> up_oidcSubject arg = Some (cl_sub claims)
          \<and> up_role arg = None \<and> up_email arg = None)
      | Query (QCreateUser arg) \<Rightarrow> (\<exists>claims. verified h claims \<and> cu_role arg = ''user''
          \<and> cu_email arg = cl_email claims \<and> cu_oidcSubject arg = cl_sub claims)
      | SessionSave s \<Rightarrow> (\<exists>q user. (Query q, AUserRow (user, None)) = last h
          \<and> se_values s sessionKeyUserID = Some (id_value lib (us_id user))
          \<and> se_values s sessionKeyState = None)
      | _ \<Rightarrow> False)"

lemma find_user_rg:
  assumes v: "verified h claims"
    and k: "\<And>h' q user. verified h' claims \<Longrightarrow> last h' = (Query q, AUserRow (user, None)) \<Longrightarrow>
              rg R (callback_allowed lib rq) h' (k user) Q"
    and Q: "\<And>h' m. Q h' (HTTPError StatusInternalServerError m)"
  shows "rg R (callback_allowed lib rq) h (find_user claims k) Q"
proof -
  have mono: "verified (h' @ t) claims" if "verified h' claims" for h' t
    using that by (auto simp: verified_def)
  show ?thesis
    unfolding find_user_def rowOrElse_def
    by (auto simp: callback_allowed_def v Q mono intro: k split: prod.splits option.splits)
       (auto simp: v mono intro!: exI [of _ claims])+
qed

definition callback_ends :: "web_lib \<Rightarrow> (scall, sanswer) history \<Rightarrow> reply \<Rightarrow> bool" where
  "callback_ends lib h r \<longleftrightarrow>
     (\<exists>url s q user. r = Redirect StatusFound url \<and> last h = (SessionSave s, AError None)
        \<and> se_values s sessionKeyUserID = Some (id_value lib (us_id user))
        \<and> (Query q, AUserRow (user, None)) \<in> set h
        \<and> local_path url)
     \<or> (\<exists>code m. r = HTTPError code m)"

lemma callback_ends_error [simp]: "callback_ends lib h (HTTPError code m)"
  by (simp add: callback_ends_def)

lemma local_path_simps [simp]: "local_path (safeRedirectPath p)" "local_path ''/''"
  by (auto simp: local_path_def safeRedirectPath_def hasPrefix_def)

lemma finish_sign_in_rg:
  assumes "last h = (Query q, AUserRow (user, None))" "h \<noteq> []"
  shows "rg (\<lambda>_ _. True) (callback_allowed lib rq) h
     (finish_sign_in lib (delete_value sessionKeyState session) user) (callback_ends lib)"
proof -
  have m: "(Query q, AUserRow (user, None)) \<in> set h" using assms last_in_set by metis
  have ends: "callback_ends lib (h @ [(SessionSave s, AError None)]) (Redirect StatusFound url)"
    if "se_values s sessionKeyUserID = Some (id_value lib (us_id user))"
      "local_path url" for s url
    using m that by (auto simp: callback_ends_def)
  show ?thesis
    using assms(1)
    by (auto simp: finish_sign_in_def Let_def doneOrElse_def callback_allowed_def delete_value_def intro!: ends split: option.splits)
qed

text \<open>
  Property C9. Whatever the session store, the identity provider and the database answer, a
  callback makes only allowed calls, in that order; it redirects only after a session with a
  user was saved, and then to a path of this server; otherwise it ends in an HTTP error.
\<close>

theorem CallbackHandler_safe:
  "rg (\<lambda>_ _. True) (callback_allowed lib rq) [] (CallbackHandler lib rq u) (callback_ends lib)"
  unfolding CallbackHandler_def orElse_def
  by (auto simp: Let_def callback_allowed_def verified_def
      intro!: find_user_rg finish_sign_in_rg split: sum.splits option.splits)

section \<open>From the callback to the next request\<close>

record auth_world =
  aw_db :: db
  aw_session :: session
  aw_claims :: claims
  aw_fresh :: string
  aw_now :: int

text \<open>A session store that keeps what was saved, a provider that vouches for \<open>aw_claims\<close>, the tables.\<close>

definition serve_auth :: "scall \<Rightarrow> auth_world \<Rightarrow> sanswer \<times> auth_world" where
  "serve_auth c w = (case c of
     SessionGet \<Rightarrow> (ASession (aw_session w), w)
   | SessionSave s \<Rightarrow> (AError None, w\<lparr>aw_session := s\<rparr>)
   | OAuthExchange code \<Rightarrow> (AToken (Inr (Some ''id-token'')), w)
   | VerifyIDToken raw \<Rightarrow> (AClaims (Inr (Inr (aw_claims w))), w)
   | Query q \<Rightarrow> (let (a, d) = serve_query (aw_fresh w) (aw_now w) q (aw_db w) in (a, w\<lparr>aw_db := d\<rparr>))
   | _ \<Rightarrow> (AError (Some odd_answer), w))"

lemma serve_auth_simps [simp]:
  "serve_auth SessionGet w = (ASession (aw_session w), w)"
  "serve_auth (SessionSave s) w = (AError None, w\<lparr>aw_session := s\<rparr>)"
  "serve_auth (OAuthExchange code) w = (AToken (Inr (Some ''id-token'')), w)"
  "serve_auth (VerifyIDToken raw) w = (AClaims (Inr (Inr (aw_claims w))), w)"
  "serve_auth (Query (QCreateUser arg)) w = (let (r, d) = CreateUser (aw_fresh w) (aw_now w) arg (aw_db w) in (AUserRow r, w\<lparr>aw_db := d\<rparr>))"
  "serve_auth (Query (QUpdateUser arg')) w = (let (r, d) = UpdateUser (aw_now w) arg' (aw_db w) in (AUserRow r, w\<lparr>aw_db := d\<rparr>))"
  "serve_auth (Query (QGetUserByEmail email)) w = (AUserRow (GetUserByEmail email (aw_db w)), w)"
  "serve_auth (Query (QGetUserByOIDCSubject sub)) w = (AUserRow (GetUserByOIDCSubject sub (aw_db w)), w)"
  "serve_auth (Query (QGetUserByID i)) w = (AUserRow (GetUserByID i (aw_db w)), w)"
  by (simp_all add: serve_auth_def split: prod.splits)

definition ids_ok :: "db \<Rightarrow> bool" where
  "ids_ok d \<longleftrightarrow> (\<forall>u \<in> set (db_users d). length (uu_bytes (us_id u)) = 16)"

definition linked :: "claims \<Rightarrow> db \<Rightarrow> user \<Rightarrow> db \<Rightarrow> bool" where
  "linked claims d user d' \<longleftrightarrow> db_ok d' \<and> user \<in> set (db_users d') \<and> us_oidcSubject user = cl_sub claims
     \<and> length (uu_bytes (us_id user)) = 16
     \<and> (\<forall>old \<in> set (db_users d). us_id old = us_id user \<longrightarrow> us_role user = us_role old)
     \<and> (us_id user \<in> us_id ` set (db_users d) \<or> us_role user = ''user'')"

lemma scan_row_error: "(\<exists>e. snd (scan_row z (filter P rows)) = Some e) \<longleftrightarrow> (\<forall>r \<in> set rows. \<not> P r)"
  by (cases "filter P rows") (auto simp: filter_empty_conv filter_eq_Cons_iff)

lemma GetUserBy_None:
  "snd (GetUserByOIDCSubject sub d) \<noteq> None \<longleftrightarrow> sub \<notin> us_oidcSubject ` set (db_users d)"
  "snd (GetUserByEmail email d) \<noteq> None \<longleftrightarrow> email \<notin> us_email ` set (db_users d)"
  by (auto simp: GetUserByOIDCSubject_def GetUserByEmail_def scan_row_error)

lemma link_user:
  assumes d: "db_ok d" and u: "u \<in> set (db_users d)" and new: "sub \<notin> us_oidcSubject ` set (db_users d)"
  shows "\<exists>u' d'. UpdateUser now \<lparr>up_id = us_id u, up_email = None, up_name = None, up_picture = None,
      up_role = None, up_oidcSubject = Some sub, up_slackUserID = None\<rparr> d = ((u', None), d')
    \<and> db_ok d' \<and> u' \<in> set (db_users d') \<and> us_oidcSubject u' = sub \<and> us_id u' = us_id u \<and> us_role u' = us_role u"
    (is "\<exists>u' d'. UpdateUser now ?arg d = _ \<and> _")
proof -
  let ?u = "updated_user now ?arg u"
  have us: "users_ok (db_users d)" using d by (simp add: db_ok_def)
  have f: "filter (has_id (us_id u)) (db_users d) = [u]" by (rule filter_has_id [OF us u])
  have "unique_violation (filter (\<lambda>v. \<not> has_id (us_id u) v) (db_users d)) ?u = None"
    using us u new by (auto simp: unique_violation_None updated_user_def has_id_def users_ok_def
        intro: users_ok_key dest: users_ok_key [OF us u])
  then obtain d' where up: "UpdateUser now ?arg d = ((?u, None), d')"
    and d': "db_users d' = map (\<lambda>v. if has_id (us_id u) v then updated_user now ?arg v else v) (db_users d)"
    using f by (simp add: UpdateUser_def Let_def)
  have "has_id (us_id u) u" using us u by (simp add: has_id_def users_ok_def)
  then have "?u \<in> set (db_users d')" using u unfolding d' by force
  moreover have "db_ok d'" using UpdateUser_ok [OF d, of now ?arg] up by simp
  ultimately show ?thesis using up by (intro exI [of _ ?u] exI [of _ d']) (simp add: updated_user_def)
qed

lemma find_user_run:
  assumes d: "db_ok (aw_db w)" "ids_ok (aw_db w)" and f: "length (aw_fresh w) = 16"
    "\<lparr>uu_bytes = aw_fresh w, uu_valid = True\<rparr> \<notin> us_id ` set (db_users (aw_db w))"
  shows "\<exists>user d'. run serve_auth (find_user claims k) w = run serve_auth (k user) (w\<lparr>aw_db := d'\<rparr>)
    \<and> linked claims (aw_db w) user d'"
proof -
  let ?d = "aw_db w"
  have us: "users_ok (db_users ?d)" using d by (simp add: db_ok_def)
  obtain u1 e1 where r1: "GetUserByOIDCSubject (cl_sub claims) ?d = (u1, e1)" by fastforce
  obtain u2 e2 where r2: "GetUserByEmail (cl_email claims) ?d = (u2, e2)" by fastforce
  show ?thesis
  proof (cases e1)
    case None
    with r1 us have "u1 \<in> set (db_users ?d)" "us_oidcSubject u1 = cl_sub claims" by (auto simp: GetUserByOIDCSubject_iff)
    with None r1 d show ?thesis
      by (intro exI [of _ u1] exI [of _ ?d])
        (auto simp: find_user_def linked_def ids_ok_def dest: users_ok_key [OF us])
  next
    case (Some x)
    then have no_sub: "cl_sub claims \<notin> us_oidcSubject ` set (db_users ?d)"
      using r1 GetUserBy_None(1) [of "cl_sub claims" ?d] by simp
    show ?thesis
    proof (cases e2)
      case None
      with r2 us have u2: "u2 \<in> set (db_users ?d)" by (auto simp: GetUserByEmail_iff)
      from link_user [OF d(1) u2 no_sub, of "aw_now w"] obtain u' d' where up:
        "UpdateUser (aw_now w) \<lparr>up_id = us_id u2, up_email = None, up_name = None, up_picture = None,
          up_role = None, up_oidcSubject = Some (cl_sub claims), up_slackUserID = None\<rparr> ?d = ((u', None), d')"
        "db_ok d'" "u' \<in> set (db_users d')" "us_oidcSubject u' = cl_sub claims" "us_id u' = us_id u2"
        "us_role u' = us_role u2" by blast
      with Some None r1 r2 u2 d show ?thesis
        by (intro exI [of _ u'] exI [of _ d'])
          (auto simp: find_user_def rowOrElse_def linked_def ids_ok_def dest: users_ok_key [OF us u2])
    next
      case (Some y)
      then have no_email: "cl_email claims \<notin> us_email ` set (db_users ?d)"
        using r2 GetUserBy_None(2) [of "cl_email claims" ?d] by simp
      let ?arg = "\<lparr>cu_email = cl_email claims, cu_name = cl_name claims,
                   cu_picture = (if cl_picture claims \<noteq> [] then Some (cl_picture claims) else None),
                   cu_role = ''user'', cu_oidcSubject = cl_sub claims, cu_slackUserID = None\<rparr>"
      obtain u' d' where c: "CreateUser (aw_fresh w) (aw_now w) ?arg ?d = ((u', None), d')"
        using no_sub no_email f(2) by (simp add: CreateUser_Inr unique_violation_None)
      then have "db_ok d'" using CreateUser_ok [OF d(1), of "aw_fresh w" "aw_now w" ?arg] by simp
      moreover have "us_id u' = \<lparr>uu_bytes = aw_fresh w, uu_valid = True\<rparr>" "us_role u' = ''user''"
        "us_oidcSubject u' = cl_sub claims" using c by (auto simp: CreateUser_Inr)
      ultimately show ?thesis
        using Some \<open>e1 = Some x\<close> r1 r2 c f CreateUser_member [OF c]
        by (intro exI [of _ u'] exI [of _ d'])
          (auto simp: find_user_def rowOrElse_def linked_def image_iff)
    qed
  qed
qed

lemma RequireAuth_run:
  assumes "uuid_laws lib" "db_ok (aw_db w)" "user \<in> set (db_users (aw_db w))" "length (uu_bytes (us_id user)) = 16"
    "se_values (aw_session w) sessionKeyUserID = Some (id_value lib (us_id user))"
  shows "run serve_auth (RequireAuth lib next rq u) w = run serve_auth (next rq (Some user)) w"
proof -
  have us: "users_ok (db_users (aw_db w))" using assms by (simp add: db_ok_def)
  then have v: "uu_valid (us_id user)" using assms(3) by (simp add: users_ok_def)
  have scan: "wl_uuidScan lib (wl_uuidValue lib (uu_bytes (us_id user))) = Some (uu_bytes (us_id user))"
    using assms(1,4) by (simp add: uuid_laws_def)
  have eq: "\<lparr>uu_bytes = uu_bytes (us_id user), uu_valid = True\<rparr> = us_id user" using v by (simp add: uuid.equality)
  have "GetUserByID (us_id user) (aw_db w) = (user, None)" using us assms(3) by (simp add: GetUserByID_iff)
  then show ?thesis using assms(5) v scan by (simp add: RequireAuth_def rowOrElse_def id_value_def eq)
qed

text \<open>
  Property C10. With a session store that keeps sessions, a provider that vouches for some
  claims and the tables consistent, a callback whose state is the one of the session succeeds:
  it redirects to a path of this server, links the subject to a user, keeps that user's role
  (a new user gets the role user), and every later request with that session is handled for that user.
\<close>

theorem sign_in_roundtrip:
  assumes "uuid_laws lib" "db_ok (aw_db w)" "ids_ok (aw_db w)" "length (aw_fresh w) = 16"
    and "\<lparr>uu_bytes = aw_fresh w, uu_valid = True\<rparr> \<notin> us_id ` set (db_users (aw_db w))"
    and "string_value (aw_session w) sessionKeyState = Some (queryParam rq ''state'')" "queryParam rq ''state'' \<noteq> []"
  shows "\<exists>url w' user. run serve_auth (CallbackHandler lib rq u) w = (Redirect StatusFound url, w')
    \<and> local_path url \<and> linked (aw_claims w) (aw_db w) user (aw_db w')
    \<and> (\<forall>next rq' u'. run serve_auth (RequireAuth lib next rq' u') w' = run serve_auth (next rq' (Some user)) w')"
proof -
  let ?s = "delete_value sessionKeyState (aw_session w)"
  obtain user d' where step: "run serve_auth (find_user (aw_claims w) (finish_sign_in lib ?s)) w
       = run serve_auth (finish_sign_in lib ?s user) (w\<lparr>aw_db := d'\<rparr>)" and l: "linked (aw_claims w) (aw_db w) user d'"
    using find_user_run [OF assms(2-5)] by blast
  obtain url s' where fin: "run serve_auth (finish_sign_in lib ?s user) (w\<lparr>aw_db := d'\<rparr>)
       = (Redirect StatusFound url, w\<lparr>aw_db := d', aw_session := s'\<rparr>)"
     "local_path url" "se_values s' sessionKeyUserID = Some (id_value lib (us_id user))"
    by (auto simp: finish_sign_in_def Let_def doneOrElse_def delete_value_def split: option.splits)
  let ?w = "w\<lparr>aw_db := d', aw_session := s'\<rparr>"
  have "run serve_auth (CallbackHandler lib rq u) w = (Redirect StatusFound url, ?w)"
    using step fin(1) assms(6,7) by (simp add: CallbackHandler_def orElse_def)
  moreover have "run serve_auth (RequireAuth lib nx rq' u') ?w = run serve_auth (nx rq' (Some user)) ?w" for nx rq' u'
    using l fin(3) by (intro RequireAuth_run [OF assms(1)]) (auto simp: linked_def)
  ultimately show ?thesis using fin(2) l by (intro exI [of _ url] exI [of _ ?w] exI [of _ user]) simp
qed

definition sample_web_lib :: web_lib where
  "sample_web_lib = \<lparr>wl_bindCreate = (\<lambda>_. Inr \<lparr>ir_gatewayConfigOverride = [], ir_placeholderValues = Map.empty\<rparr>),
     wl_bindDefaults = (\<lambda>_. Inl odd_answer), wl_bindReady = (\<lambda>_. Inr \<lparr>nr_instanceName = [], nr_userID = []\<rparr>),
     wl_uuidValue = (\<lambda>b. b), wl_uuidScan = Some, wl_uuidString = (\<lambda>b. b), wl_uuidParse = Some,
     wl_authCodeURL = (\<lambda>s. s), wl_slashCommand = (\<lambda>_. Inl odd_answer), wl_parseEvent = (\<lambda>_. Inl odd_answer),
     wl_decodeChallenge = (\<lambda>_. Inl odd_answer), wl_decodeChat = (\<lambda>_. Inl odd_answer), wl_urlOK = (\<lambda>_. True),
     wl_hmac = (\<lambda>k m. k @ m), wl_floatText = tiny_float, wl_jsonErrorText = (\<lambda>s. s)\<rparr>"

lemma sample_web_lib_laws: "uuid_laws sample_web_lib"
  by (simp add: uuid_laws_def sample_web_lib_def)

definition sample_request :: request where
  "sample_request = \<lparr>rq_method = ''GET'', rq_path = ''/'', rq_requestURI = ''/'', rq_rawQuery = [],
     rq_query = [(''state'', ''s1'')], rq_form = [], rq_params = [], rq_headers = [],
     rq_contentLength = 0, rq_body = None\<rparr>"

definition sample_auth_world :: auth_world where
  "sample_auth_world = \<lparr>aw_db = sample_db,
     aw_session = \<lparr>se_values = [sessionKeyState \<mapsto> SString ''s1''], se_maxAge = 0\<rparr>,
     aw_claims = \<lparr>cl_email = ''a@x'', cl_name = ''A'', cl_picture = [], cl_sub = ''oidc-a''\<rparr>,
     aw_fresh = ''fedcba9876543210'', aw_now = 7\<rparr>"

lemma sign_in_roundtrip_witness:
  "\<exists>url w'. run serve_auth (CallbackHandler sample_web_lib sample_request None) sample_auth_world = (Redirect StatusFound url, w')
     \<and> local_path url"
proof -
  have "db_ok (aw_db sample_auth_world)" by (simp add: sample_auth_world_def sample_db_ok)
  moreover have "ids_ok (aw_db sample_auth_world)" "length (aw_fresh sample_auth_world) = 16"
    "\<lparr>uu_bytes = aw_fresh sample_auth_world, uu_valid = True\<rparr> \<notin> us_id ` set (db_users (aw_db sample_auth_world))"
    "string_value (aw_session sample_auth_world) sessionKeyState = Some (queryParam sample_request ''state'')"
    "queryParam sample_request ''state'' \<noteq> []"
    by (simp_all add: sample_auth_world_def sample_db_def sample_request_def ids_ok_def string_value_def value_of_def)
  ultimately show ?thesis
    using sign_in_roundtrip [OF sample_web_lib_laws, of sample_auth_world sample_request] by blast
qed

section \<open>The development login\<close>

lemma ensureDevUser_run:
  "run serve_auth (ensureDevUser role) w =
     (let ((user, err), d) = by_email.find_or_create (dev_params role) (aw_fresh w) (aw_now w) (aw_db w)
      in (case err of None \<Rightarrow> Inr user | Some e \<Rightarrow> Inl e, w\<lparr>aw_db := d\<rparr>))"
proof -
  have params: "cu_email (dev_params role) = ds_email (devSpecForRole role)" by (simp add: dev_params_def Let_def)
  obtain u e where r: "GetUserByEmail (ds_email (devSpecForRole role)) (aw_db w) = (u, e)" by fastforce
  then have "e = None \<or> e = Some ErrNoRows"
    by (auto simp: GetUserByEmail_def dest: scan_row_None)
  then show ?thesis
    using r by (auto simp: ensureDevUser_def params by_email.find_or_create_def [of "dev_params role", unfolded params]
        split: prod.splits option.splits)
qed

text \<open>
  Signing in for development makes the user at most once: what it finds or creates is
  found again by the next sign-in and by every request, with nothing written; the two roles get
  different users, and only the role admin gives an administrator who was not there before.
\<close>

theorem dev_login_once:
  assumes "db_ok (aw_db w)" "run serve_auth (ensureDevUser role) w = (Inr user, w')"
  shows "run serve_auth (ensureDevUser role) w' = (Inr user, w') \<and> run serve_auth (getDevUser role) w' = (user, w')
    \<and> db_ok (aw_db w')
    \<and> (user \<in> set (db_users (aw_db w)) \<or> us_role user = (if role = ''admin'' then ''admin'' else ''user''))"
proof -
  let ?foc = "by_email.find_or_create (dev_params role) (aw_fresh w) (aw_now w)"
  from assms(2) obtain d' where foc: "?foc (aw_db w) = ((user, None), d')" and w': "w' = w\<lparr>aw_db := d'\<rparr>"
    by (auto simp: ensureDevUser_run Let_def split: prod.splits option.splits)
  have again: "?foc d' = ((user, None), d')" using assms(1) foc by (rule by_email.find_or_create_again)
  have "GetUserByEmail (cu_email (dev_params role)) d' = (user, None)"
    using assms(1) foc by (rule by_email.find_or_create_found)
  then have get: "GetUserByEmail (ds_email (devSpecForRole role)) d' = (user, None)"
    by (simp add: dev_params_def Let_def)
  have ok: "db_ok d'" using by_email.find_or_create_ok [OF assms(1)] foc by (metis snd_conv)
  have "user \<in> set (db_users (aw_db w)) \<or> us_role user = cu_role (dev_params role)"
    using foc assms(1)
    by (auto simp: by_email.find_or_create_def CreateUser_Inr db_ok_def GetUserByEmail_iff split: prod.splits option.splits)
  then have "user \<in> set (db_users (aw_db w)) \<or> us_role user = (if role = ''admin'' then ''admin'' else ''user'')"
    by (auto simp: dev_params_def devSpecForRole_def Let_def)
  with again get ok show ?thesis by (simp add: ensureDevUser_run getDevUser_def Let_def w')
qed

lemma dev_login_once_witness:
  "\<exists>user w'. run serve_auth (ensureDevUser ''admin'') sample_auth_world = (Inr user, w')
     \<and> run serve_auth (getDevUser ''admin'') w' = (user, w')"
proof -
  have ok: "db_ok (aw_db sample_auth_world)" by (simp add: sample_auth_world_def sample_db_ok)
  obtain user w' where r: "run serve_auth (ensureDevUser ''admin'') sample_auth_world = (Inr user, w')"
    unfolding ensureDevUser_run by_email.find_or_create_def
    by (simp add: GetUserByEmail_def CreateUser_def
        unique_violation_def sample_auth_world_def sample_db_def dev_params_def devSpecForRole_def Let_def)
  from dev_login_once [OF ok r] r show ?thesis by blast
qed

section \<open>The contract of the middleware\<close>

text \<open>
  What the routes rely on: \<open>require\<close> either replies itself or goes on with a user, \<open>optional\<close> goes
  on in any case, \<open>admin\<close> goes on for an administrator only; to find the user they look at
  the session and read users, nothing else.
\<close>

definition identity_call :: "scall \<Rightarrow> bool" where
  "identity_call c \<longleftrightarrow> c = SessionGet \<or> (\<exists>i. c = Query (QGetUserByID i)) \<or> (\<exists>e. c = Query (QGetUserByEmail e))"

definition denied :: "reply \<Rightarrow> bool" where
  "denied r \<longleftrightarrow> (\<exists>url. r = Redirect StatusFound url) \<or> (\<exists>m. r = HTTPError StatusUnauthorized m)"

locale auth_provider =
  fixes require :: middleware and optional :: middleware and admin :: middleware
    and authenticate :: "request \<Rightarrow> (reply + user) sprog"
    and identify :: "request \<Rightarrow> user option sprog"
    and known :: "(scall, sanswer) history \<Rightarrow> user \<Rightarrow> bool"
  assumes require_eq: "require nx rq u = bind (authenticate rq) (\<lambda>x. case x of Inl r \<Rightarrow> Ret r | Inr v \<Rightarrow> nx rq (Some v))"
    and optional_eq: "optional nx rq u = bind (identify rq) (\<lambda>x. case x of None \<Rightarrow> nx rq u | Some v \<Rightarrow> nx rq (Some v))"
    and admin_eq: "admin nx rq u = (if \<exists>v. u = Some v \<and> us_role v = ''admin'' then nx rq u
                     else Ret (HTTPError StatusForbidden ''admin access required''))"
    and authenticate_calls: "rg R (\<lambda>_. identity_call) h (authenticate rq) (\<lambda>h' x. case x of Inl r \<Rightarrow> denied r | Inr v \<Rightarrow> known h' v)"
    and identify_calls: "rg R (\<lambda>_. identity_call) h (identify rq) (\<lambda>h' x. case x of None \<Rightarrow> True | Some v \<Rightarrow> known h' v)"
    and known_later: "known h v \<Longrightarrow> known (h @ t) v"
begin

lemma behind_require:
  assumes "\<And>h' v. known h' v \<Longrightarrow> rg R G h' (nx rq (Some v)) Q" "\<And>h' c. identity_call c \<Longrightarrow> G h' c" "\<And>h' r. denied r \<Longrightarrow> Q h' r"
  shows "rg R G h (require nx rq u) Q"
  unfolding require_eq rg_bind
  by (rule rg_conseq [OF authenticate_calls [of R]]) (auto simp: assms split: sum.splits)

lemma behind_optional:
  assumes "\<And>h' v. known h' v \<Longrightarrow> rg R G h' (nx rq (Some v)) Q" "\<And>h'. rg R G h' (nx rq u) Q" "\<And>h' c. identity_call c \<Longrightarrow> G h' c"
  shows "rg R G h (optional nx rq u) Q"
  unfolding optional_eq rg_bind
  by (rule rg_conseq [OF identify_calls [of R]]) (auto simp: assms split: option.splits)

lemma behind_admin:
  assumes "\<And>h' v. known h' v \<Longrightarrow> us_role v = ''admin'' \<Longrightarrow> rg R G h' (nx rq (Some v)) Q" "\<And>h' c. identity_call c \<Longrightarrow> G h' c"
    "\<And>h' r. denied r \<Longrightarrow> Q h' r" "\<And>h'. Q h' (HTTPError StatusForbidden ''admin access required'')"
  shows "rg R G h (require (admin nx) rq u) Q"
  by (rule behind_require) (auto simp: admin_eq assms)

end

definition oidc_authenticate :: "web_lib \<Rightarrow> request \<Rightarrow> (reply + user) sprog" where
  "oidc_authenticate lib rq = bind (ask SessionGet dec_session) (\<lambda>session.
     case se_values session sessionKeyUserID of
       None \<Rightarrow> Ret (Inl (if isBrowserRequest rq
                 then Redirect StatusFound (''/auth/login?redirect='' @ queryEscape (rq_requestURI rq))
                 else HTTPError StatusUnauthorized ''authentication required''))
     | Some SNil \<Rightarrow> Ret (Inl (HTTPError StatusUnauthorized ''invalid session''))
     | Some (SString s) \<Rightarrow>
         (case wl_uuidScan lib s of
            None \<Rightarrow> Ret (Inl (HTTPError StatusUnauthorized ''invalid session''))
          | Some b \<Rightarrow> ask (Query (QGetUserByID \<lparr>uu_bytes = b, uu_valid = True\<rparr>)) (\<lambda>a.
              case dec_userRow a of (user, None) \<Rightarrow> Inr user
              | (_, Some _) \<Rightarrow> Inl (HTTPError StatusUnauthorized ''user not found''))))"

definition oidc_identify :: "web_lib \<Rightarrow> request \<Rightarrow> user option sprog" where
  "oidc_identify lib rq = bind (ask SessionGet dec_session) (\<lambda>session.
     case string_value session sessionKeyUserID of
       None \<Rightarrow> Ret None
     | Some s \<Rightarrow>
         (case wl_uuidScan lib s of
            None \<Rightarrow> Ret None
          | Some b \<Rightarrow> ask (Query (QGetUserByID \<lparr>uu_bytes = b, uu_valid = True\<rparr>)) (\<lambda>a.
              case dec_userRow a of (user, None) \<Rightarrow> Some user | (_, Some _) \<Rightarrow> None)))"

text \<open>The user is the row that the database gave for the id in the session.\<close>

definition oidc_known :: "web_lib \<Rightarrow> (scall, sanswer) history \<Rightarrow> user \<Rightarrow> bool" where
  "oidc_known lib h v \<longleftrightarrow> (\<exists>a s b. (SessionGet, a) \<in> set h \<and> string_value (dec_session a) sessionKeyUserID = Some s
     \<and> wl_uuidScan lib s = Some b \<and> (Query (QGetUserByID \<lparr>uu_bytes = b, uu_valid = True\<rparr>), AUserRow (v, None)) \<in> set h)"

interpretation oidc: auth_provider "RequireAuth lib" "OptionalAuth lib" RequireAdmin
  "oidc_authenticate lib" "oidc_identify lib" "oidc_known lib" for lib
proof
  fix nx :: handler and rq u R h
  show "RequireAuth lib nx rq u = bind (oidc_authenticate lib rq) (\<lambda>x. case x of Inl r \<Rightarrow> Ret r | Inr v \<Rightarrow> nx rq (Some v))"
    by (auto simp: RequireAuth_def oidc_authenticate_def rowOrElse_def fun_eq_iff
        split: option.splits session_value.splits prod.splits)
  show "OptionalAuth lib nx rq u = bind (oidc_identify lib rq) (\<lambda>x. case x of None \<Rightarrow> nx rq u | Some v \<Rightarrow> nx rq (Some v))"
    by (auto simp: OptionalAuth_def oidc_identify_def fun_eq_iff split: option.splits prod.splits)
  show "RequireAdmin nx rq u = (if \<exists>v. u = Some v \<and> us_role v = ''admin'' then nx rq u
          else Ret (HTTPError StatusForbidden ''admin access required''))"
    by (auto simp: RequireAdmin_def split: option.splits)
  show "rg R (\<lambda>_. identity_call) h (oidc_authenticate lib rq) (\<lambda>h' x. case x of Inl r \<Rightarrow> denied r | Inr v \<Rightarrow> oidc_known lib h' v)"
    by (auto simp: oidc_authenticate_def ask_def identity_call_def denied_def oidc_known_def string_value_def
        split: option.splits session_value.splits prod.splits sum.splits)
  show "rg R (\<lambda>_. identity_call) h (oidc_identify lib rq) (\<lambda>h' x. case x of None \<Rightarrow> True | Some v \<Rightarrow> oidc_known lib h' v)"
    by (auto simp: oidc_identify_def ask_def identity_call_def oidc_known_def split: option.splits prod.splits)
  show "oidc_known lib h v \<Longrightarrow> oidc_known lib (h @ t) v" for h v t
    by (auto simp: oidc_known_def)
qed

definition dev_authenticate :: "request \<Rightarrow> (reply + user) sprog" where
  "dev_authenticate rq = bind (ask SessionGet dec_session) (\<lambda>session.
     case string_value session devSessionKeyRole of
       None \<Rightarrow> Ret (Inl (if isBrowserRequest rq
                 then Redirect StatusFound (''/auth/dev-login?redirect='' @ queryEscape (rq_requestURI rq))
                 else HTTPError StatusUnauthorized ''authentication required''))
     | Some role \<Rightarrow> bind (getDevUser role) (\<lambda>user. Ret (Inr user)))"

definition dev_identify :: "request \<Rightarrow> user option sprog" where
  "dev_identify rq = bind (ask SessionGet dec_session) (\<lambda>session.
     case string_value session devSessionKeyRole of
       None \<Rightarrow> Ret None
     | Some role \<Rightarrow> bind (getDevUser role) (\<lambda>user. Ret (Some user)))"

text \<open>The user is the row that the database gave for the role in the session, or made up for that role.\<close>

definition dev_known :: "(scall, sanswer) history \<Rightarrow> user \<Rightarrow> bool" where
  "dev_known h v \<longleftrightarrow> (\<exists>a role. (SessionGet, a) \<in> set h \<and> string_value (dec_session a) devSessionKeyRole = Some role
     \<and> ((Query (QGetUserByEmail (ds_email (devSpecForRole role))), AUserRow (v, None)) \<in> set h
        \<or> us_id v = dev_user_id \<and> us_role v = ds_role (devSpecForRole role)))"

interpretation dev: auth_provider DevRequireAuth DevOptionalAuth RequireAdmin dev_authenticate dev_identify dev_known
proof
  fix nx :: handler and rq u R h
  show "DevRequireAuth nx rq u = bind (dev_authenticate rq) (\<lambda>x. case x of Inl r \<Rightarrow> Ret r | Inr v \<Rightarrow> nx rq (Some v))"
    by (auto simp: DevRequireAuth_def dev_authenticate_def fun_eq_iff bind_assoc split: option.splits)
  show "DevOptionalAuth nx rq u = bind (dev_identify rq) (\<lambda>x. case x of None \<Rightarrow> nx rq u | Some v \<Rightarrow> nx rq (Some v))"
    by (auto simp: DevOptionalAuth_def dev_identify_def fun_eq_iff bind_assoc split: option.splits)
  show "RequireAdmin nx rq u = (if \<exists>v. u = Some v \<and> us_role v = ''admin'' then nx rq u
          else Ret (HTTPError StatusForbidden ''admin access required''))"
    by (rule oidc.admin_eq)
  show "rg R (\<lambda>_. identity_call) h (dev_authenticate rq) (\<lambda>h' x. case x of Inl r \<Rightarrow> denied r | Inr v \<Rightarrow> dev_known h' v)"
    by (auto simp: dev_authenticate_def getDevUser_def Let_def identity_call_def denied_def dev_known_def
        split: option.splits prod.splits)
  show "rg R (\<lambda>_. identity_call) h (dev_identify rq) (\<lambda>h' x. case x of None \<Rightarrow> True | Some v \<Rightarrow> dev_known h' v)"
    by (auto simp: dev_identify_def getDevUser_def Let_def identity_call_def dev_known_def
        split: option.splits prod.splits)
  show "dev_known h v \<Longrightarrow> dev_known (h @ t) v" for h v t
    by (auto simp: dev_known_def)
qed

end
