(* ===== verification/HandlerSafety.thy ===== *)
theory HandlerSafety
  imports Proxy AuthSafety
begin

text \<open>
  Authorisation: what a handler may ask the outside to do for a user, and what its reply may
  show that user, for any answers of the outside. \<open>may\<close> and \<open>reveals\<close> are the specification; each
  handler meets it, administrators' handlers under the condition that the user is one.
\<close>

section \<open>The specification\<close>

definition admin :: "user \<Rightarrow> bool" where
  "admin v \<longleftrightarrow> us_role v = ''admin''"

text \<open>An instance the code has read under some name, and that this user may see.\<close>

definition fetched :: "server \<Rightarrow> (scall, sanswer) history \<Rightarrow> string \<Rightarrow> claw_instance \<Rightarrow> bool" where
  "fetched sv hist n i \<longleftrightarrow> (GetObj (sv_namespace sv) n, AObj (Inr i)) \<in> set hist"

definition visible :: "server \<Rightarrow> user \<Rightarrow> claw_instance \<Rightarrow> bool" where
  "visible sv v i \<longleftrightarrow> admin v \<or> sp_userId (ci_spec i) = user_uid (sv_lib sv) v"

text \<open>
  A request handed on: to the host of the running instance that bears the user's id as its
  name; the instance's token goes only to the web port.
\<close>

definition proxied :: "server \<Rightarrow> user \<Rightarrow> request \<Rightarrow> (scall, sanswer) history \<Rightarrow> out_request \<Rightarrow> bool" where
  "proxied sv v rq hist out \<longleftrightarrow> (\<exists>i route. fetched sv hist (user_uid (sv_lib sv) v) i \<and> phase i = PhaseRunning
     \<and> route = classifyProxyPath (rq_path rq)
     \<and> or_host out = target_host (instance_ns (user_uid (sv_lib sv) v) i) (pr_port route)
     \<and> or_method out = rq_method rq
     \<and> map_of (or_headers out) ''X-Openclaw-Token'' =
         (if pr_port route = portWeb \<and> sp_gatewayToken (ci_spec i) \<noteq> [] then Some (sp_gatewayToken (ci_spec i))
          else map_of (rq_headers rq) ''X-Openclaw-Token''))"

definition may :: "server \<Rightarrow> user \<Rightarrow> request \<Rightarrow> (scall, sanswer) history \<Rightarrow> scall \<Rightarrow> bool" where
  "may sv v rq hist c = (case c of
     GetObj ns n \<Rightarrow> ns = sv_namespace sv
   | ListObjs ns \<Rightarrow> ns = sv_namespace sv
   | CreateObj i \<Rightarrow> instance_name i = user_uid (sv_lib sv) v \<and> sp_userId (ci_spec i) = user_uid (sv_lib sv) v
       \<and> om_namespace (ci_meta i) = sv_namespace sv \<and> sp_configGeneration (ci_spec i) = 0
       \<and> (\<exists>d. (Query QGetDefaults, ADefaultsRow (d, None)) \<in> set hist \<and> sp_image (ci_spec i) = df_image d)
   | UpdateObj i \<Rightarrow> (\<exists>n old c. fetched sv hist n old \<and> visible sv v old \<and> json_valid c
       \<and> i = with_config (compactJSON c) old)
   | DeleteObj i \<Rightarrow> (\<exists>n old. fetched sv hist n old \<and> visible sv v old \<and> fetched sv hist n i)
   | Query QGetDefaults \<Rightarrow> True
   | Query QListUsers \<Rightarrow> admin v
   | Query (QUpdateDefaults arg) \<Rightarrow> admin v \<and> (\<exists>c. config_problem (sv_lib sv) c = None
       \<and> (ud_gatewayConfig arg = c \<or> ud_gatewayConfig arg = stored_config c))
   | RandRead n \<Rightarrow> n = 32
   | ListPods ns sel \<Rightarrow> (\<exists>n i. fetched sv hist n i \<and> visible sv v i \<and> ns = ''clawbake-'' @ instance_name i)
   | NewClientset \<Rightarrow> True
   | NewExecutor ns pod cont cmd \<Rightarrow> cmd = [''cat'', ''/home/node/.openclaw/openclaw.json'']
       \<and> (\<exists>n i. fetched sv hist n i \<and> visible sv v i \<and> ns = ''clawbake-'' @ instance_name i)
   | ExecStream \<Rightarrow> True
   | Dial host \<Rightarrow> (\<exists>i. fetched sv hist (user_uid (sv_lib sv) v) i \<and> phase i = PhaseRunning
       \<and> host = target_host (instance_ns (user_uid (sv_lib sv) v) i) (pr_port (classifyProxyPath (rq_path rq))))
   | SendUpgrade out \<Rightarrow> proxied sv v rq hist out
   | ForwardHTTP out \<Rightarrow> proxied sv v rq hist out
   | GetHijacker \<Rightarrow> True | Hijack \<Rightarrow> True | Pipe \<Rightarrow> True
   | _ \<Rightarrow> False)"

text \<open>What a reply shows: another user's instance, the users and the defaults only to administrators.\<close>

definition reveals_body :: "server \<Rightarrow> user \<Rightarrow> json_body \<Rightarrow> bool" where
  "reveals_body sv v b = (case b of
     JInstances items \<Rightarrow> (\<forall>i \<in> set items. visible sv v i)
   | JInstance i \<Rightarrow> visible sv v i
   | JUsers users \<Rightarrow> admin v
   | JDefaults d \<Rightarrow> admin v
   | JMap m \<Rightarrow> True)"

definition reveals_page :: "server \<Rightarrow> user \<Rightarrow> page \<Rightarrow> bool" where
  "reveals_page sv v p = (case p of
     DevLoginPage \<Rightarrow> False
   | LoginPage \<Rightarrow> False
   | Dashboard items isAdmin hasInstance names placeholders tui shell uid \<Rightarrow>
       isAdmin = admin v \<and> (\<forall>i \<in> set items. visible sv v i) \<and> (admin v \<or> names = [])
       \<and> uid = user_uid (sv_lib sv) v
   | InstanceDetail i isAdmin tui shell own \<Rightarrow> visible sv v i \<and> isAdmin = admin v
       \<and> own = (sp_userId (ci_spec i) = user_uid (sv_lib sv) v)
   | StatusPollResponse i tui shell own detail \<Rightarrow> visible sv v i
       \<and> own = (sp_userId (ci_spec i) = user_uid (sv_lib sv) v)
   | AdminUsers users isAdmin \<Rightarrow> admin v
   | AdminDefaults d isAdmin \<Rightarrow> admin v
   | InstanceEditConfig i c fromPod isAdmin \<Rightarrow> visible sv v i \<and> isAdmin = admin v)"

definition reveals :: "server \<Rightarrow> user \<Rightarrow> reply \<Rightarrow> bool" where
  "reveals sv v r = (case r of JSON status b \<Rightarrow> reveals_body sv v b | Page status p \<Rightarrow> reveals_page sv v p | _ \<Rightarrow> True)"

lemma reveals_simps [simp]:
  "reveals sv v (JSON status b) = reveals_body sv v b" "reveals sv v (Page status p) = reveals_page sv v p"
  "reveals sv v (NoContent status hs)" "reveals sv v (Redirect status url)" "reveals sv v (HTTPError status m)"
  "reveals sv v (Forwarded x)" "reveals sv v Piped" "reveals sv v (Panic m)" "reveals sv v not_found"
  by (simp_all add: reveals_def not_found_def)

text \<open>The one thing relied on: creating an object answers with the specification it was given.\<close>

definition keeps_spec :: "scall \<Rightarrow> sanswer \<Rightarrow> bool" where
  "keeps_spec c a \<longleftrightarrow> (\<forall>i i'. c = CreateObj i \<and> a = AObj (Inr i') \<longrightarrow> ci_spec i' = ci_spec i)"

lemma keeps_spec_create [simp]: "keeps_spec (CreateObj i) (AObj (Inr i')) = (ci_spec i' = ci_spec i)"
  by (simp add: keeps_spec_def)

definition handler_safe :: "server \<Rightarrow> (user \<Rightarrow> bool) \<Rightarrow> handler \<Rightarrow> bool" where
  "handler_safe sv P nx \<longleftrightarrow>
     (\<forall>hist rq v. P v \<longrightarrow> rg keeps_spec (may sv v rq) hist (nx rq (Some v)) (\<lambda>_ r. reveals sv v r))"

lemma handler_safeI:
  "(\<And>hist rq v. P v \<Longrightarrow> rg keeps_spec (may sv v rq) hist (nx rq (Some v)) (\<lambda>_ r. reveals sv v r)) \<Longrightarrow> handler_safe sv P nx"
  by (simp add: handler_safe_def)

lemma handler_safe_mono: "handler_safe sv P nx \<Longrightarrow> (\<And>v. P' v \<Longrightarrow> P v) \<Longrightarrow> handler_safe sv P' nx"
  by (simp add: handler_safe_def)

section \<open>The handlers\<close>

lemma hidden_visible: "hidden sv v i = (\<not> visible sv v i)"
  by (simp add: hidden_def visible_def admin_def)

text \<open>What was just fetched, and what was fetched one or three calls ago.\<close>

lemma fetched_steps [simp]:
  "fetched sv (hist @ [(GetObj (sv_namespace sv) n, AObj (Inr i))]) n i"
  "fetched sv (hist @ [(GetObj (sv_namespace sv) n, AObj (Inr i)), x]) n i"
  "fetched sv (hist @ [(GetObj (sv_namespace sv) n, AObj (Inr i)), x, y]) n i"
  "fetched sv (hist @ [x, (GetObj (sv_namespace sv) n, AObj (Inr i))]) n i"
  by (simp_all add: fetched_def)

lemma config_problem_reply: "config_problem lib c = Some r \<Longrightarrow> reveals sv v r"
  by (auto simp: config_problem_def split: if_splits option.splits)

lemma visible_own [simp]: "sp_userId (ci_spec i) = user_uid (sv_lib sv) v \<Longrightarrow> visible sv v i"
  by (simp add: visible_def)

lemma visible_spec: "ci_spec i' = ci_spec i \<Longrightarrow> visible sv v i' = visible sv v i"
  by (simp add: visible_def)

lemma new_instance_simps [simp]:
  "instance_name (new_instance ns uid ls d t c) = uid" "sp_userId (ci_spec (new_instance ns uid ls d t c)) = uid"
  "om_namespace (ci_meta (new_instance ns uid ls d t c)) = ns"
  "sp_configGeneration (ci_spec (new_instance ns uid ls d t c)) = 0"
  "sp_image (ci_spec (new_instance ns uid ls d t c)) = df_image d"
  "sp_gatewayConfig (ci_spec (new_instance ns uid ls d t c)) = c"
  by (simp_all add: new_instance_def named_meta_def)

lemmas reveals_defs = reveals_body_def reveals_page_def

lemma ListInstances_safe: "handler_safe sv (\<lambda>_. True) (ListInstances sv)"
  by (rule handler_safeI)
    (auto simp: prog_def may_def reveals_defs visible_def admin_def split: sum.splits)

lemma CreateInstance_safe: "handler_safe sv (\<lambda>_. True) (CreateInstance sv)"
  by (rule handler_safeI)
    (auto simp: prog_def Let_def may_def reveals_body_def create_error_def ask_def
      split: sum.splits option.splits prod.splits config_error.splits intro!: visible_own)

lemma GetInstance_safe: "handler_safe sv (\<lambda>_. True) (GetInstance sv)"
  by (rule handler_safeI) (auto simp: prog_def may_def reveals_body_def hidden_visible split: sum.splits)

lemma DeleteInstance_safe: "handler_safe sv (\<lambda>_. True) (DeleteInstance sv)"
  by (rule handler_safeI)
    (auto simp: prog_def may_def hidden_visible split: sum.splits option.splits; blast intro: fetched_steps)

lemma PageDashboard_safe: "handler_safe sv (\<lambda>_. True) (PageDashboard sv)"
  by (rule handler_safeI)
    (auto simp: prog_def Let_def may_def reveals_page_def visible_def admin_def ask_def
      split: sum.splits option.splits prod.splits)

lemma PageCreateInstance_safe: "handler_safe sv (\<lambda>_. True) (PageCreateInstance sv)"
  by (rule handler_safeI)
    (auto simp: prog_def Let_def may_def page_create_error_def create_error_def ask_def
      split: sum.splits option.splits prod.splits config_error.splits)

lemma PageInstanceDetail_safe: "handler_safe sv (\<lambda>_. True) (PageInstanceDetail sv)"
  by (rule handler_safeI) (auto simp: prog_def may_def reveals_page_def hidden_visible admin_def split: sum.splits)

lemma PageInstanceStatus_safe: "handler_safe sv (\<lambda>_. True) (PageInstanceStatus sv)"
  by (rule handler_safeI) (auto simp: prog_def may_def reveals_page_def hidden_visible split: sum.splits)

lemma PageDeleteInstance_safe: "handler_safe sv (\<lambda>_. True) (PageDeleteInstance sv)"
  by (rule handler_safeI)
    (auto simp: prog_def may_def hidden_visible split: sum.splits option.splits; blast intro: fetched_steps)

lemma PageUpdateInstanceConfig_safe: "handler_safe sv (\<lambda>_. True) (PageUpdateInstanceConfig sv)"
  by (rule handler_safeI)
    (auto simp: prog_def Let_def may_def hidden_visible split: sum.splits option.splits; blast intro: fetched_steps)

lemma PageEditInstanceConfig_safe: "handler_safe sv (\<lambda>_. True) (PageEditInstanceConfig sv)"
  by (rule handler_safeI)
    (auto simp: prog_def Let_def ReadInstanceConfig_def may_def reveals_page_def hidden_visible admin_def
      split: sum.splits option.splits list.splits prod.splits; blast intro: fetched_steps)

lemma PageAdminUsers_safe: "handler_safe sv (\<lambda>_. True) PageAdminUsers"
  by (rule handler_safeI) (auto simp: prog_def may_def reveals_page_def admin_def split: sum.splits)

lemma PageAdminDefaults_safe: "handler_safe sv (\<lambda>_. True) PageAdminDefaults"
  by (rule handler_safeI)
    (auto simp: prog_def may_def reveals_page_def admin_def split: option.splits prod.splits)

lemma PageUpdateDefaults_safe: "handler_safe sv (\<lambda>_. True) (PageUpdateDefaults sv)"
  by (rule handler_safeI)
    (auto simp: prog_def Let_def may_def admin_def config_problem_reply split: option.splits prod.splits)

lemma ListUsersHandler_safe: "handler_safe sv admin ListUsersHandler"
  by (rule handler_safeI) (auto simp: prog_def may_def reveals_body_def split: sum.splits)

lemma GetDefaultsHandler_safe: "handler_safe sv admin GetDefaultsHandler"
  by (rule handler_safeI) (auto simp: prog_def may_def reveals_body_def split: option.splits prod.splits)

lemma UpdateDefaultsHandler_safe: "handler_safe sv admin (UpdateDefaultsHandler sv)"
  by (rule handler_safeI)
    (auto simp: prog_def may_def reveals_body_def config_problem_reply split: sum.splits option.splits prod.splits)

lemma GetDefaultGatewayConfig_safe: "handler_safe sv (\<lambda>_. True) (GetDefaultGatewayConfig sv)"
  by (rule handler_safeI) (simp add: prog_def reveals_body_def)

section \<open>The proxy\<close>

lemma map_of_set_header: "map_of (set_header k v hs) k' = (if k' = k then Some v else map_of hs k')"
  by (induction hs) (auto simp: set_header_def)

lemma map_of_with_token:
  "map_of (with_token t hs) k = (if t \<noteq> [] \<and> k = ''X-Openclaw-Token'' then Some t else map_of hs k)"
  by (simp add: with_token_def map_of_set_header)

lemma fetched_append: "fetched sv hist n i \<Longrightarrow> fetched sv (hist @ t) n i"
  by (simp add: fetched_def)

lemma proxied_append: "proxied sv v rq hist out \<Longrightarrow> proxied sv v rq (hist @ t) out"
  unfolding proxied_def by (blast intro: fetched_append)

lemma proxiedI:
  assumes "fetched sv hist (user_uid (sv_lib sv) v) i" "phase i = PhaseRunning"
    and "or_host out = target_host (instance_ns (user_uid (sv_lib sv) v) i) (pr_port (classifyProxyPath (rq_path rq)))"
    and "or_method out = rq_method rq"
    and "or_headers out = with_token (route_token (classifyProxyPath (rq_path rq)) i) hs"
    and "map_of hs ''X-Openclaw-Token'' = map_of (rq_headers rq) ''X-Openclaw-Token''"
  shows "proxied sv v rq hist out"
  unfolding proxied_def using assms
  by (intro exI [of _ i] exI [of _ "classifyProxyPath (rq_path rq)"]) (auto simp: map_of_with_token route_token_def)

lemma proxyWebSocket_safe:
  assumes f: "fetched sv hist (user_uid (sv_lib sv) v) i" "phase i = PhaseRunning"
    and host: "host = target_host (instance_ns (user_uid (sv_lib sv) v) i) (pr_port (classifyProxyPath (rq_path rq)))"
    and token: "token = route_token (classifyProxyPath (rq_path rq)) i"
  shows "rg keeps_spec (may sv v rq) hist (proxyWebSocket rq host token prefix lib) (\<lambda>_ r. reveals sv v r)"
proof -
  have d: "may sv v rq hist (Dial host)" using f host by (auto simp: may_def)
  have p: "may sv v rq (hist @ t) (SendUpgrade \<lparr>or_method = rq_method rq, or_url = path, or_host = host,
      or_headers = with_token token (set_header ''Origin'' (''http://'' @ host) (rq_headers rq)), or_body = []\<rparr>)" for t path
    unfolding may_def token host scall.case
    by (rule proxiedI [OF fetched_append [OF f(1)] f(2),
          where hs = "set_header ''Origin'' (''http://'' @ host) (rq_headers rq)", unfolded token host])
      (auto simp: map_of_set_header)
  have o: "may sv v rq h' GetHijacker" "may sv v rq h' Hijack" "may sv v rq h' Pipe" for h'
    by (simp_all add: may_def)
  show ?thesis
    unfolding proxyWebSocket_def doneOrElse_def Let_def
    by (auto simp: d p [simplified] o ask_def split: option.splits)
qed

lemma websocketHandler_safe: "handler_safe sv (\<lambda>_. True) (websocketHandler sv)"
proof (rule handler_safeI)
  fix hist rq v
  have g: "may sv v rq hist (GetObj (sv_namespace sv) n)" for n by (simp add: may_def)
  show "rg keeps_spec (may sv v rq) hist (websocketHandler sv rq (Some v)) (\<lambda>_ r. reveals sv v r)"
    unfolding websocketHandler_def Let_def orElse_def k8s_GetInstance_def
    by (auto simp: g split: sum.splits intro!: proxyWebSocket_safe fetched_steps)
qed

lemma ProxyToInstance_safe: "handler_safe sv (\<lambda>_. True) (ProxyToInstance sv)"
proof (rule handler_safeI)
  fix hist rq v
  have g: "may sv v rq hist (GetObj (sv_namespace sv) n)" for n by (simp add: may_def)
  have f: "rg keeps_spec (may sv v rq) h' (forward lib requestPath out) (\<lambda>_ r. reveals sv v r)"
    if "proxied sv v rq h' out" for h' lib requestPath out
    using that by (auto simp: forward_def may_def split: sum.splits outcome.splits)
  show "rg keeps_spec (may sv v rq) hist (ProxyToInstance sv rq (Some v)) (\<lambda>_ r. reveals sv v r)"
    unfolding ProxyToInstance_def Let_def orElse_def k8s_GetInstance_def withUser_def
    by (auto simp: g split: sum.splits intro!: proxyWebSocket_safe fetched_steps f
        proxiedI [OF fetched_steps(1), where hs = "rq_headers rq"])
qed

lemma hasPrefix_routes:
  "hasPrefix (proxyPrefixShell @ rest) proxyPrefixShell"
  "hasPrefix (proxyPrefixTUI @ rest) proxyPrefixTUI" "\<not> hasPrefix (proxyPrefixTUI @ rest) proxyPrefixShell"
  "\<not> hasPrefix (proxyPrefixWeb @ rest) proxyPrefixShell" "\<not> hasPrefix (proxyPrefixWeb @ rest) proxyPrefixTUI"
  by (simp_all add: hasPrefix_def proxy_consts)

text \<open>
  Property C27. Where a proxied path leads. A path that is a route's prefix, or continues it with a
  slash, goes to that route's port with the prefix removed, an empty rest becoming \<open>/\<close>; in
  this order shell, terminal, web. But a path is cut by length:
  \<open>/proxy/dashboard\<close>, which has none of the prefixes, goes to the web port as \<open>hboard\<close>.
\<close>

theorem proxy_routes:
  "classifyProxyPath (proxyPrefixShell @ rest) = \<lparr>pr_port = 7682, pr_prefix = proxyPrefixShell\<rparr>
   \<and> classifyProxyPath (proxyPrefixTUI @ rest) = \<lparr>pr_port = 7681, pr_prefix = proxyPrefixTUI\<rparr>
   \<and> classifyProxyPath (proxyPrefixWeb @ rest) = \<lparr>pr_port = 18789, pr_prefix = proxyPrefixWeb\<rparr>
   \<and> stripRoutePrefix (prefix @ rest) prefix = (if rest = [] then ''/'' else rest)
   \<and> classifyProxyPath ''/proxy/dashboard'' = \<lparr>pr_port = 18789, pr_prefix = proxyPrefixWeb\<rparr>
   \<and> stripRoutePrefix ''/proxy/dashboard'' proxyPrefixWeb = ''hboard''"
  by (auto simp: classifyProxyPath_def hasPrefix_routes stripRoutePrefix_def)
     (simp_all add: hasPrefix_def proxy_consts)

text \<open>
  Property C28. The response to a request for the control UI's configuration: an object comes back
  with \<^verbatim>\<open>basePath\<close> set and every other member as it was; the body \<open>null\<close> makes the handler panic;
  any other body, and every response to another path, comes back unchanged.
\<close>

theorem modifyResponse_spec:
  assumes "float_text (wl_floatText lib)"
  shows "(case unmarshal_map (wl_floatText lib) body of
       Inl _ \<Rightarrow> modifyResponse lib control_ui_config body = Returned body
     | Inr None \<Rightarrow> (\<exists>m. modifyResponse lib control_ui_config body = Panicked m)
     | Inr (Some cfg) \<Rightarrow> (\<exists>body' cfg'. modifyResponse lib control_ui_config body = Returned body' \<and> json_valid body'
         \<and> unmarshal_map (wl_floatText lib) body' = Inr (Some cfg')
         \<and> map_of cfg' = (map_of cfg)(''basePath'' \<mapsto> JStr ''/proxy/web'')))
   \<and> (requestPath = control_ui_config \<or> modifyResponse lib requestPath body = Returned body)"
proof -
  have "json_valid (json_marshal (JObj (put ''basePath'' (JStr ''/proxy/web'') cfg)))
      \<and> unmarshal_map (wl_floatText lib) (json_marshal (JObj (put ''basePath'' (JStr ''/proxy/web'') cfg)))
        = Inr (Some (put ''basePath'' (JStr ''/proxy/web'') cfg))"
    if "unmarshal_map (wl_floatText lib) body = Inr (Some cfg)" for cfg
  proof -
    note w = unmarshal_map_wf [OF assms that]
    have u: "valid_utf8 ''basePath''" "valid_utf8 ''/proxy/web''" by (simp_all add: rune_len_def)
    have "jdepth (JObj (put ''basePath'' (JStr ''/proxy/web'') cfg)) \<le> maxNestingDepth"
      using w(2) fields_depth_put [of "''basePath''" "JStr ''/proxy/web''" cfg] by simp
    with unmarshal_marshal [OF wf_object_put [OF w(1) u(1)]] u(2) show ?thesis by (simp del: json_marshal.simps)
  qed
  then show ?thesis
    by (auto simp: modifyResponse_def simp del: json_marshal.simps split: sum.splits option.splits)
qed

definition sample_cfg :: string where
  "sample_cfg = [CHR ''{'', dq, CHR ''a'', dq, CHR '':'', CHR ''t'', CHR ''r'', CHR ''u'', CHR ''e'', CHR ''}'']"

lemma sample_cfg_read: "unmarshal_map tiny_float sample_cfg = Inr (Some [(''a'', JBool True)])"
  by code_simp

lemma modifyResponse_spec_witness:
  "\<exists>body' cfg'. modifyResponse sample_web_lib control_ui_config sample_cfg = Returned body'
     \<and> map_of cfg' = [''a'' \<mapsto> JBool True, ''basePath'' \<mapsto> JStr ''/proxy/web'']
     \<and> unmarshal_map tiny_float body' = Inr (Some cfg')"
proof -
  have lib: "wl_floatText sample_web_lib = tiny_float" by (simp add: sample_web_lib_def)
  have "float_text (wl_floatText sample_web_lib)" by (simp add: lib tiny_float_text)
  from modifyResponse_spec [OF this, of sample_cfg] show ?thesis
    by (simp add: lib sample_cfg_read) metis
qed

end
