(* ===== verification/Bot.thy ===== *)
theory Bot
  imports Handlers
begin

text \<open>
  \<^verbatim>\<open>internal/bot\<close>: the Slack bot. Requests are accepted only with Slack's signature
  (\<^verbatim>\<open>verify.go\<close>); slash commands (\<^verbatim>\<open>commands.go\<close>) manage the user's instance, messages (\<^verbatim>\<open>events.go\<close>)
  are forwarded to it (\<^verbatim>\<open>bot.go\<close>).
\<close>

record bot =
  bt_lib :: web_lib
  bt_signingSecret :: string
  bt_namespace :: string
  bt_baseURL :: string
  bt_tuiEnabled :: bool
  bt_shellEnabled :: bool
  bt_version :: string

definition err_text :: "bot \<Rightarrow> go_error \<Rightarrow> string" where
  "err_text b e = error_text (wl_jsonErrorText (bt_lib b)) e"

section \<open>verify.go\<close>

definition map_reply :: "nat \<Rightarrow> string \<Rightarrow> string \<Rightarrow> reply" where
  "map_reply status key text = JSON status (JMap [(key, text)])"

definition ComputeSignature :: "web_lib \<Rightarrow> string \<Rightarrow> string \<Rightarrow> string \<Rightarrow> string" where
  "ComputeSignature lib signingSecret timestamp body =
     (let baseString = ''v0:'' @ timestamp @ '':'' @ body
      in ''v0='' @ hex_encode (wl_hmac lib signingSecret baseString))"

text \<open>\<^verbatim>\<open>time.Now().Unix() - ts\<close> in 64 bits; \<^verbatim>\<open>math.Abs(float64(age)) > 300\<close> is exact at this size.\<close>

definition age_of :: "int \<Rightarrow> int \<Rightarrow> 64 word" where
  "age_of now ts = word_of_int now - word_of_int ts"

definition too_old :: "64 word \<Rightarrow> bool" where
  "too_old age \<longleftrightarrow> abs (sint age) > 300"

definition verifySignature :: "bot \<Rightarrow> middleware" where
  "verifySignature b next rq u =
     (let timestamp = header rq ''X-Slack-Request-Timestamp'';
          signature = header rq ''X-Slack-Signature'' in
      if timestamp = [] \<or> signature = [] then Ret (map_reply StatusUnauthorized ''error'' ''missing signature headers'')
      else case parse_int64 timestamp of
        None \<Rightarrow> Ret (map_reply StatusUnauthorized ''error'' ''invalid timestamp'')
      | Some ts \<Rightarrow>
          bind (ask Now dec_time) (\<lambda>now.
          if too_old (age_of now ts) then Ret (map_reply StatusUnauthorized ''error'' ''request too old'')
          else orElse (readBody rq) (\<lambda>_. map_reply StatusInternalServerError ''error'' ''failed to read body'') (\<lambda>body.
            let rq' = rq\<lparr>rq_body := Some body\<rparr>;
                baseString = ''v0:'' @ timestamp @ '':'' @ body;
                expected = ''v0='' @ hex_encode (wl_hmac (bt_lib b) (bt_signingSecret b) baseString)
            in if expected \<noteq> signature then Ret (map_reply StatusUnauthorized ''error'' ''invalid signature'')
               else next rq' u)))"

section \<open>bot.go\<close>

text \<open>
  \<^verbatim>\<open>resolveUser\<close>. The error of \<^verbatim>\<open>UpdateUser\<close> is dropped (\<^verbatim>\<open>user, _ =\<close>), so its row is used even
  when it is the zero value.
\<close>

definition resolveUser :: "string \<Rightarrow> (go_error + user) sprog" where
  "resolveUser slackUserID =
     bind (ask (SlackUserInfo slackUserID) dec_profile) (\<lambda>p.
     case p of Inl e \<Rightarrow> Ret (Inl (ErrWrap ''getting Slack user info'' e)) | Inr profile \<Rightarrow>
     if sl_email profile = [] then Ret (Inl (ErrText ''Slack user has no email configured''))
     else bind (ask (Query (QGetUserByEmail (sl_email profile))) dec_userRow) (\<lambda>row.
       case row of
         (user, None) \<Rightarrow>
           if us_slackUserID user = None
           then bind (ask (Query (QUpdateUser \<lparr>up_id = us_id user, up_email = None, up_name = None,
                        up_picture = None, up_role = None, up_oidcSubject = None,
                        up_slackUserID = Some slackUserID\<rparr>)) dec_userRow) (\<lambda>(user, _). Ret (Inr user))
           else Ret (Inr user)
       | (_, Some _) \<Rightarrow>
           bind (ask (Query (QCreateUser \<lparr>cu_email = sl_email profile, cu_name = sl_realName profile,
                        cu_picture = None, cu_role = ''user'', cu_oidcSubject = ''slack:'' @ slackUserID,
                        cu_slackUserID = Some slackUserID\<rparr>)) dec_userRow) (\<lambda>row.
             case row of (user, None) \<Rightarrow> Ret (Inr user) | (_, Some e) \<Rightarrow> Ret (Inl e))))"

text \<open>16 bytes always make a UUID, so the fallback of \<^verbatim>\<open>formatUUID\<close> is not reached.\<close>

definition formatUUID :: "bot \<Rightarrow> uuid \<Rightarrow> string" where
  "formatUUID b i = wl_uuidString (bt_lib b) (uu_bytes i)"

definition getUserInstance :: "bot \<Rightarrow> uuid \<Rightarrow> (go_error + claw_instance) sprog" where
  "getUserInstance b userID =
     bind (ask (ListObjs (bt_namespace b)) dec_objs) (\<lambda>x.
       case x of
         Inl e \<Rightarrow> Ret (Inl (ErrWrap ''listing instances'' e))
       | Inr items \<Rightarrow>
           (case find (\<lambda>i. sp_userId (ci_spec i) = formatUUID b userID) items of
              Some i \<Rightarrow> Ret (Inr i)
            | None \<Rightarrow> Ret (Inl (ErrText (''no instance found for user '' @ formatUUID b userID)))))"

text \<open>\<^verbatim>\<open>json.Marshal\<close> of the chat completion request; map keys in order.\<close>

definition chat_payload :: "string \<Rightarrow> string" where
  "chat_payload message =
     ''{'' @ json_quote ''messages'' @ '':[{'' @ json_quote ''role'' @ '':'' @ json_quote ''user'' @ '',''
       @ json_quote ''content'' @ '':'' @ json_quote message @ ''}],''
       @ json_quote ''model'' @ '':'' @ json_quote ''openclaw'' @ ''}''"

definition forwardToInstance :: "bot \<Rightarrow> claw_instance \<Rightarrow> string \<Rightarrow> (go_error + string) sprog" where
  "forwardToInstance b i message =
     (let ns = (if st_namespace (ci_status i) = [] then ''clawbake-'' @ sp_userId (ci_spec i)
                else st_namespace (ci_status i));
          url = ''http://openclaw.'' @ ns @ ''.svc.cluster.local:18789/v1/chat/completions''
      in if \<not> wl_urlOK (bt_lib b) url then Ret (Inl (ErrWrap ''creating request'' (ErrExternal ''invalid URL'')))
      else
        bind (ask (HTTPDo \<lparr>or_method = ''POST'', or_url = url, or_host = ''openclaw.'' @ ns @ ''.svc.cluster.local:18789'',
                 or_headers = [(''Content-Type'', ''application/json''),
                               (''Authorization'', ''Bearer '' @ sp_gatewayToken (ci_spec i))],
                 or_body = chat_payload message\<rparr>) dec_status) (\<lambda>x.
        case x of Inl e \<Rightarrow> Ret (Inl (ErrWrap ''forwarding to instance'' e)) | Inr status \<Rightarrow>
        bind (ask ReadResponse dec_text) (\<lambda>x.
        case x of Inl e \<Rightarrow> Ret (Inl (ErrWrap ''reading response'' e)) | Inr body \<Rightarrow>
        if status \<noteq> StatusOK
        then Ret (Inl (ErrText (''instance returned status '' @ show_nat status @ '': '' @ body)))
        else Ret (Inr (case wl_decodeChat (bt_lib b) body of Inr (content # _) \<Rightarrow> content | _ \<Rightarrow> body)))))"

definition newline_char :: string where
  "newline_char = [CHR 0x0A]"

definition ready_message :: "bot \<Rightarrow> string \<Rightarrow> string" where
  "ready_message b instanceName =
     ''Your openclaw instance *'' @ instanceName @ ''* is now running! :tada:'' @ newline_char @ newline_char
     @ ''You can interact with it by:'' @ newline_char
     @ ''- Sending me a DM with your message'' @ newline_char
     @ ''- @mentioning me in a channel'' @ newline_char
     @ ''- Using the web UI at '' @ bt_baseURL b"

definition bot_NotifyInstanceReady :: "bot \<Rightarrow> string \<Rightarrow> string \<Rightarrow> unit sprog" where
  "bot_NotifyInstanceReady b instanceName userID =
     (case wl_uuidParse (bt_lib b) userID of
        None \<Rightarrow> Ret ()
      | Some parsedID \<Rightarrow>
          bind (ask (Query (QGetUserByID \<lparr>uu_bytes = parsedID, uu_valid = True\<rparr>)) dec_userRow) (\<lambda>row.
            case row of
              (_, Some _) \<Rightarrow> Ret ()
            | (user, None) \<Rightarrow>
                (case us_slackUserID user of
                   None \<Rightarrow> Ret ()
                 | Some slackUserID \<Rightarrow> ask (SlackPost slackUserID (ready_message b instanceName)) (\<lambda>_. ()))))"

section \<open>commands.go\<close>

definition respondSlack :: "string \<Rightarrow> reply" where
  "respondSlack text = JSON StatusOK (JMap [(''response_type'', ''ephemeral''), (''text'', text)])"

text \<open>The loop of \<^verbatim>\<open>parseCreateArgs\<close> over the fields that are left.\<close>

fun parse_fields :: "(string \<rightharpoonup> string) \<Rightarrow> string list \<Rightarrow> (string \<rightharpoonup> string) \<times> string" where
  "parse_fields vals [] = (vals, [])"
| "parse_fields vals (part # rest) =
     (if hasPrefix part ''json=''
      then (vals, if rest \<noteq> [] then trimPrefix part ''json='' @ '' '' @ join '' '' rest else trimPrefix part ''json='')
      else case indexByte part (CHR ''='') of
        Some (Suc i) \<Rightarrow> parse_fields (vals(take (Suc i) part \<mapsto> drop (Suc (Suc i)) part)) rest
      | _ \<Rightarrow> if hasPrefix part ''{'' then (vals, join '' '' (part # rest)) else parse_fields vals rest)"

definition parseCreateArgs :: "string \<Rightarrow> (string \<rightharpoonup> string) \<times> string" where
  "parseCreateArgs text =
     (let args = trimSpace (trimPrefix (trimSpace text) ''create'')
      in if args = [] then (Map.empty, []) else parse_fields Map.empty (GoStrings.fields args))"

definition bot_create_error :: "bot \<Rightarrow> string \<Rightarrow> string list \<Rightarrow> config_error \<Rightarrow> reply" where
  "bot_create_error b command placeholders e = (case e of
     MissingValues missing \<Rightarrow> respondSlack (''Missing required values: '' @ join '', '' missing @ newline_char
       @ ''Usage: `'' @ command @ '' create'' @ concat (map (\<lambda>p. '' '' @ p @ ''=value'') placeholders) @ ''`'')
   | SubstituteFailed e \<Rightarrow> respondSlack (''Failed to substitute placeholders: '' @ err_text b e)
   | NotJSONAfterSubstitution \<Rightarrow> respondSlack ''Gateway config is not valid JSON after substitution.''
   | OverrideNotJSON \<Rightarrow> respondSlack (''Invalid JSON override. Usage: `'' @ command @ '' create json={''
       @ [dq] @ ''key'' @ [dq] @ '':'' @ [dq] @ ''value'' @ [dq] @ ''}`'')
   | MergeFailed e \<Rightarrow> respondSlack (''Failed to merge config override: '' @ err_text b e)
   | MergePanics m \<Rightarrow> Panic m)"

definition bot_labels :: "string \<Rightarrow> labels" where
  "bot_labels uid = [(''clawbake.io/source'', ''slack-bot''), (''clawbake.io/user-id'', uid)]"

definition withResolved :: "bot \<Rightarrow> slash_command \<Rightarrow> (user \<Rightarrow> reply sprog) \<Rightarrow> reply sprog" where
  "withResolved b cmd k =
     orElse (resolveUser (sc_userID cmd))
       (\<lambda>e. respondSlack (''Failed to look up your account: '' @ err_text b e)) k"

definition handleCreate :: "bot \<Rightarrow> slash_command \<Rightarrow> reply sprog" where
  "handleCreate b cmd = withResolved b cmd (\<lambda>user.
     let uid = formatUUID b (us_id user) in
     bind (getUserInstance b (us_id user)) (\<lambda>existing.
     case existing of
       Inr i \<Rightarrow> Ret (respondSlack (''You already have an instance (status: '' @ phase i @ '').''))
     | Inl _ \<Rightarrow>
     rowOrElse (ask (Query QGetDefaults) dec_defaultsRow)
       (\<lambda>_. respondSlack ''Failed to get instance defaults. Please contact an admin.'') (\<lambda>defaults.
     let (placeholderValues, jsonOverride) = parseCreateArgs (sc_text cmd) in
     case build_config (bt_lib b) (df_gatewayConfig defaults) placeholderValues jsonOverride of
       Inl e \<Rightarrow> Ret (bot_create_error b (sc_command cmd) (ExtractPlaceholders (df_gatewayConfig defaults)) e)
     | Inr gatewayConfig \<Rightarrow>
     bind generateToken (\<lambda>token.
     orElse (ask (CreateObj (new_instance (bt_namespace b) uid (bot_labels uid) defaults token gatewayConfig)) dec_obj)
       (\<lambda>e. respondSlack (''Failed to create instance: '' @ err_text b e))
       (\<lambda>_. Ret (respondSlack (''Creating your openclaw instance! Access it via the web app once ready.''
          @ newline_char @ ''Use `'' @ sc_command cmd @ '' status` to check progress.'')))))))"

definition bullet :: string where
  "bullet = [CHR 0xE2, CHR 0x80, CHR 0xA2] @ '' ''"

definition no_instance_message :: "string \<Rightarrow> string" where
  "no_instance_message command = ''You don'' @ [CHR 0x27] @ ''t have an openclaw instance. Use `'' @ command @ '' create` to create one.''"

definition handleStatus :: "bot \<Rightarrow> slash_command \<Rightarrow> reply sprog" where
  "handleStatus b cmd = withResolved b cmd (\<lambda>user.
     orElse (getUserInstance b (us_id user)) (\<lambda>_. respondSlack (no_instance_message (sc_command cmd))) (\<lambda>i.
     Ret (respondSlack (''*Instance Status*'' @ newline_char @ bullet @ ''Phase: '' @ phase i @ newline_char
        @ bullet @ ''Namespace: '' @ st_namespace (ci_status i)))))"

definition handleDelete :: "bot \<Rightarrow> slash_command \<Rightarrow> reply sprog" where
  "handleDelete b cmd = withResolved b cmd (\<lambda>user.
     orElse (getUserInstance b (us_id user))
       (\<lambda>_. respondSlack (''You don'' @ [CHR 0x27] @ ''t have an openclaw instance.'')) (\<lambda>i.
     doneOrElse (ask (DeleteObj i) dec_error)
       (\<lambda>e. respondSlack (''Failed to delete instance: '' @ err_text b e))
       (Ret (respondSlack ''Your openclaw instance is being deleted.''))))"

definition handleOpen :: "bot \<Rightarrow> slash_command \<Rightarrow> reply sprog" where
  "handleOpen b cmd = withResolved b cmd (\<lambda>user.
     orElse (getUserInstance b (us_id user)) (\<lambda>_. respondSlack (no_instance_message (sc_command cmd))) (\<lambda>i.
     if phase i \<noteq> ''Running''
     then Ret (respondSlack (''Your instance isn'' @ [CHR 0x27] @ ''t ready yet (status: '' @ phase i @ ''). Try again shortly.''))
     else
       let parts = GoStrings.fields (sc_text cmd);
           arg = (if length parts \<ge> 2 then parts ! 1 else []) in
       if arg = ''tui'' \<and> \<not> bt_tuiEnabled b then Ret (respondSlack ''Terminal access is not enabled.'')
       else if arg = ''shell'' \<and> \<not> bt_shellEnabled b then Ret (respondSlack ''Shell access is not enabled.'')
       else
         let mode = (if arg = ''tui'' then ''tui'' else if arg = ''shell'' then ''shell'' else ''web'')
         in Ret (respondSlack (''Open your instance: '' @ bt_baseURL b @ ''/proxy/'' @ mode @ ''/''))))"

text \<open>\<^verbatim>\<open>strings.ToUpper(name[:1]) + name[1:]\<close>: a byte that is no rune by itself becomes U+FFFD.\<close>

definition capitalised :: "string \<Rightarrow> string" where
  "capitalised name = (if byte (hd name) < 128 then [upper_char (hd name)] else replacement) @ tl name"

definition code_line :: "string \<Rightarrow> string \<Rightarrow> string" where
  "code_line command rest = bullet @ ''`'' @ command @ '' '' @ rest"

definition json_example :: "string \<Rightarrow> string" where
  "json_example suffix = ''{'' @ [dq] @ ''key'' @ [dq] @ '':'' @ [dq] @ ''value'' @ [dq] @ ''}` - '' @ suffix"

definition create_usage :: "string \<Rightarrow> string list \<Rightarrow> string" where
  "create_usage command placeholders =
     (case placeholders of
        [] \<Rightarrow> code_line command ''create` - Provision a new openclaw instance'' @ newline_char
             @ code_line command ''create '' @ json_example ''Create with gateway config overrides (merged over admin defaults)''
      | p # _ \<Rightarrow> code_line command ''create'' @ concat (map (\<lambda>p. '' '' @ p @ ''=value'') placeholders)
             @ ''` - Provision with required config values'' @ newline_char
             @ code_line command ''create '' @ p @ ''=value json='' @ json_example ''With config values and override'')"

definition help_text :: "bot \<Rightarrow> string \<Rightarrow> string \<Rightarrow> string \<Rightarrow> string" where
  "help_text b command title createUsage =
     ''*'' @ title @ '' Bot* ('' @ bt_version b @ '')'' @ newline_char
     @ ''Manage your openclaw instance from Slack.'' @ newline_char @ newline_char
     @ ''*Slash Commands*'' @ newline_char
     @ createUsage @ newline_char
     @ code_line command ''status` - Show your instance status'' @ newline_char
     @ code_line command ''open` - Get a link to your instance web UI'' @ newline_char
     @ (if bt_tuiEnabled b then code_line command ''open tui` - Get a link to your instance terminal'' @ newline_char else [])
     @ (if bt_shellEnabled b then code_line command ''open shell` - Get a link to your instance shell'' @ newline_char else [])
     @ code_line command ''delete` - Delete your instance'' @ newline_char
     @ code_line command ''help` - Show this help message'' @ newline_char @ newline_char
     @ ''*Chat with your instance*'' @ newline_char
     @ ''You can also send messages directly to your running openclaw instance by sending a DM to <@'' @ title
     @ ''> or @mentioning <@'' @ title @ ''> in a channel the bot has been added to. ''
     @ ''Your message will be forwarded to the instance and the response posted back to you.''"

text \<open>\<^verbatim>\<open>name[:1]\<close> of an empty name panics. The bot is always built with a database.\<close>

definition handleHelp :: "bot \<Rightarrow> string \<Rightarrow> reply sprog" where
  "handleHelp b command =
     bind (ask (Query QGetDefaults) dec_defaultsRow) (\<lambda>row.
       let placeholders = (case row of (d, None) \<Rightarrow> ExtractPlaceholders (df_gatewayConfig d) | (_, Some _) \<Rightarrow> []);
           createUsage = create_usage command placeholders;
           name = trimPrefix command ''/''
       in if name = [] then Ret (Panic ''slice bounds out of range'')
          else Ret (respondSlack (help_text b command (capitalised name) createUsage)))"

definition HandleCommands :: "bot \<Rightarrow> handler" where
  "HandleCommands b rq u =
     (case wl_slashCommand (bt_lib b) rq of
        Inl _ \<Rightarrow> Ret (map_reply StatusBadRequest ''error'' ''failed to parse command'')
      | Inr cmd \<Rightarrow>
          let parts = GoStrings.fields (sc_text cmd);
              verb = (if parts = [] then ''help'' else hd parts)
          in if verb = ''create'' then handleCreate b cmd
             else if verb = ''status'' then handleStatus b cmd
             else if verb = ''delete'' then handleDelete b cmd
             else if verb = ''open'' then handleOpen b cmd
             else handleHelp b (sc_command cmd))"

section \<open>events.go\<close>

definition post :: "string \<Rightarrow> string \<Rightarrow> unit sprog" where
  "post channel text = ask (SlackPost channel text) (\<lambda>_. ())"

definition handleMessage :: "bot \<Rightarrow> string \<Rightarrow> string \<Rightarrow> string \<Rightarrow> unit sprog" where
  "handleMessage b channel slackUserID text =
     bind (resolveUser slackUserID) (\<lambda>x.
     case x of Inl e \<Rightarrow> post channel (''Failed to look up your account: '' @ err_text b e) | Inr user \<Rightarrow>
     bind (getUserInstance b (us_id user)) (\<lambda>x.
     case x of
       Inl e \<Rightarrow> post channel (''You don'' @ [CHR 0x27] @ ''t have an openclaw instance yet. Use `/clawbake create` to create one.'')
     | Inr i \<Rightarrow>
     if phase i \<noteq> PhaseRunning
     then post channel (''Your instance is currently '' @ phase i @ ''. Please wait for it to be Running.'')
     else bind (forwardToInstance b i text) (\<lambda>x.
       case x of
         Inl e \<Rightarrow> post channel (''Failed to forward message to your instance: '' @ err_text b e)
       | Inr response \<Rightarrow> post channel response)))"

definition HandleEvents :: "bot \<Rightarrow> handler" where
  "HandleEvents b rq u =
     orElse (readBody rq) (\<lambda>_. map_reply StatusInternalServerError ''error'' ''failed to read body'') (\<lambda>body.
     case wl_parseEvent (bt_lib b) body of
       Inl _ \<Rightarrow> Ret (map_reply StatusBadRequest ''error'' ''failed to parse event'')
     | Inr URLVerification \<Rightarrow>
         (case wl_decodeChallenge (bt_lib b) body of
            Inl _ \<Rightarrow> Ret (map_reply StatusBadRequest ''error'' ''failed to parse challenge'')
          | Inr challenge \<Rightarrow> Ret (map_reply StatusOK ''challenge'' challenge))
     | Inr (AppMention channel user text) \<Rightarrow>
         bind (ask (Spawn (HandleMessage channel user text)) (\<lambda>_. ())) (\<lambda>_. Ret (NoContent StatusOK []))
     | Inr (MessageEvent channel user text botID) \<Rightarrow>
         if botID \<noteq> [] then Ret (NoContent StatusOK [])
         else bind (ask (Spawn (HandleMessage channel user text)) (\<lambda>_. ())) (\<lambda>_. Ret (NoContent StatusOK []))
     | Inr (OtherInner _) \<Rightarrow> Ret (NoContent StatusOK [])
     | Inr (OtherEvent _) \<Rightarrow> Ret (NoContent StatusOK []))"

text \<open>What a spawned goroutine runs.\<close>

fun run_task :: "bot \<Rightarrow> task \<Rightarrow> unit sprog" where
  "run_task b (HandleMessage channel user text) = handleMessage b channel user text"
| "run_task b (NotifyReady name uid) = bot_NotifyInstanceReady b name uid"

lemmas [prog_def] = verifySignature_def resolveUser_def getUserInstance_def forwardToInstance_def
  bot_NotifyInstanceReady_def withResolved_def handleCreate_def handleStatus_def handleDelete_def
  handleOpen_def handleHelp_def HandleCommands_def post_def handleMessage_def HandleEvents_def readBody_def

end
