(* ===== verification/Routes.thy ===== *)
theory Routes
  imports HandlerSafety Bot
begin

text \<open>
  \<^verbatim>\<open>internal/handler/routes.go\<close> and \<^verbatim>\<open>internal/bot/routes.go\<close>: the table of routes, each with its
  middleware, and the authorisation of the whole server. Which route a request takes is the
  router's business: \<open>serve_request\<close> is given the route.
\<close>

section \<open>The table\<close>

record route =
  rt_method :: string
  rt_path :: string
  rt_handler :: handler

abbreviation entry :: "string \<Rightarrow> string \<Rightarrow> handler \<Rightarrow> route" where
  "entry m p f \<equiv> \<lparr>rt_method = m, rt_path = p, rt_handler = f\<rparr>"

definition requireAuthUI :: middleware where
  "requireAuthUI next rq u =
     (case u of
        None \<Rightarrow> if header rq ''Hx-Request'' = ''true'' then Ret (NoContent StatusOK [(''HX-Redirect'', ''/'')])
               else Ret (Redirect StatusFound ''/'')
      | Some _ \<Rightarrow> next rq u)"

text \<open>\<^verbatim>\<open>bot.RegisterRoutes\<close> on the group \<^verbatim>\<open>/slack\<close>.\<close>

definition slackRoutes :: "bot \<Rightarrow> route list" where
  "slackRoutes b = [
     entry ''POST'' ''/slack/events'' (verifySignature b (HandleEvents b)),
     entry ''POST'' ''/slack/commands'' (verifySignature b (HandleCommands b))]"

definition publicRoutes :: "server \<Rightarrow> route list" where
  "publicRoutes h = [
     entry ''GET'' ''/healthz'' HealthCheck,
     entry ''POST'' ''/internal/notifications/instance-ready'' (NotifyInstanceReadyHandler h)]"

text \<open>The routes that the two branches of \<^verbatim>\<open>RegisterRoutes\<close> have in common, for a provider's middleware.\<close>

definition protectedRoutes :: "server \<Rightarrow> middleware \<Rightarrow> middleware \<Rightarrow> middleware \<Rightarrow> route list" where
  "protectedRoutes h require optional requireAdmin =
     (let api = require; adminAPI = (\<lambda>f. require (requireAdmin f)); ui = (\<lambda>f. optional (requireAuthUI f)) in [
     entry ''GET'' ''/api/instances'' (api (ListInstances h)),
     entry ''POST'' ''/api/instances'' (api (CreateInstance h)),
     entry ''GET'' ''/api/instances/:id'' (api (GetInstance h)),
     entry ''DELETE'' ''/api/instances/:id'' (api (DeleteInstance h)),
     entry ''GET'' ''/api/admin/users'' (adminAPI ListUsersHandler),
     entry ''GET'' ''/api/admin/defaults'' (adminAPI GetDefaultsHandler),
     entry ''PUT'' ''/api/admin/defaults'' (adminAPI (UpdateDefaultsHandler h)),
     entry ''GET'' ''/api/admin/defaults/gateway-config/default'' (adminAPI (GetDefaultGatewayConfig h)),
     entry ''ANY'' ''/proxy/*'' (require (ProxyToInstance h)),
     entry ''GET'' ''/'' (optional (PageDashboard h)),
     entry ''POST'' ''/ui/instances'' (ui (PageCreateInstance h)),
     entry ''GET'' ''/ui/instances/:id'' (ui (PageInstanceDetail h)),
     entry ''GET'' ''/ui/instances/:id/status'' (ui (PageInstanceStatus h)),
     entry ''GET'' ''/ui/instances/:id/edit-config'' (ui (PageEditInstanceConfig h)),
     entry ''POST'' ''/ui/instances/:id/edit-config'' (ui (PageUpdateInstanceConfig h)),
     entry ''DELETE'' ''/ui/instances/:id'' (ui (PageDeleteInstance h)),
     entry ''GET'' ''/ui/admin/users'' (ui PageAdminUsers),
     entry ''GET'' ''/ui/admin/defaults'' (ui PageAdminDefaults),
     entry ''POST'' ''/ui/admin/defaults'' (ui (PageUpdateDefaults h))])"

definition oidcRoutes :: "server \<Rightarrow> route list" where
  "oidcRoutes h = [
     entry ''GET'' ''/auth/login'' (LoginHandler (sv_lib h)),
     entry ''GET'' ''/auth/callback'' (CallbackHandler (sv_lib h)),
     entry ''GET'' ''/auth/logout'' LogoutHandler]"

definition devRoutes :: "route list" where
  "devRoutes = [
     entry ''GET'' ''/auth/dev-login'' DevLoginHandler,
     entry ''GET'' ''/auth/logout'' LogoutHandler]"

definition loginRoutes :: "server \<Rightarrow> route list" where
  "loginRoutes h = (if \<not> sv_dev h then oidcRoutes h else devRoutes)"

definition guardedRoutes :: "server \<Rightarrow> route list" where
  "guardedRoutes h =
     (if \<not> sv_dev h then protectedRoutes h (RequireAuth (sv_lib h)) (OptionalAuth (sv_lib h)) RequireAdmin
      else protectedRoutes h DevRequireAuth DevOptionalAuth RequireAdmin)"

definition RegisterRoutes :: "server \<Rightarrow> bot option \<Rightarrow> route list" where
  "RegisterRoutes h b =
     publicRoutes h @ (case b of Some b \<Rightarrow> slackRoutes b | None \<Rightarrow> []) @ loginRoutes h @ guardedRoutes h"

text \<open>
  The middleware that \<^verbatim>\<open>e.Use\<close> puts before every route; a request no route fits is answered 404,
  behind it too.
\<close>

definition serve_request :: "server \<Rightarrow> route option \<Rightarrow> request \<Rightarrow> reply sprog" where
  "serve_request h r rq =
     WebSocketMiddleware h (if \<not> sv_dev h then RequireAuth (sv_lib h) else DevRequireAuth)
       (case r of Some r \<Rightarrow> rt_handler r | None \<Rightarrow> (\<lambda>_ _. Ret (HTTPError StatusNotFound ''Not Found''))) rq None"

section \<open>Authorisation\<close>

text \<open>
  What a protected route may do, given who the history shows to have signed in: find out who it
  is, and what that user may do. Its reply is a refusal, a login page, or something that user may see.
\<close>

definition authorised ::
  "server \<Rightarrow> ((scall, sanswer) history \<Rightarrow> user \<Rightarrow> bool) \<Rightarrow> request \<Rightarrow> (scall, sanswer) history \<Rightarrow> scall \<Rightarrow> bool" where
  "authorised sv known rq hist c \<longleftrightarrow> identity_call c \<or> (\<exists>v. known hist v \<and> may sv v rq hist c)"

definition login_page :: "reply \<Rightarrow> bool" where
  "login_page r \<longleftrightarrow> r \<in> {Page StatusOK DevLoginPage, Page StatusOK LoginPage,
     NoContent StatusOK [(''HX-Redirect'', ''/'')]}"

definition authorised_reply ::
  "server \<Rightarrow> ((scall, sanswer) history \<Rightarrow> user \<Rightarrow> bool) \<Rightarrow> (scall, sanswer) history \<Rightarrow> reply \<Rightarrow> bool" where
  "authorised_reply sv known hist r \<longleftrightarrow> denied r \<or> login_page r
     \<or> (\<exists>m. r = HTTPError StatusForbidden m) \<or> (\<exists>m. r = HTTPError StatusNotFound m)
     \<or> (\<exists>v. known hist v \<and> reveals sv v r)"

definition route_safe ::
  "server \<Rightarrow> ((scall, sanswer) history \<Rightarrow> user \<Rightarrow> bool) \<Rightarrow> handler \<Rightarrow> bool" where
  "route_safe sv known f \<longleftrightarrow>
     (\<forall>hist rq. rg keeps_spec (authorised sv known rq) hist (f rq None) (authorised_reply sv known))"

context auth_provider
begin

lemma handler_authorised:
  assumes "handler_safe sv P nx" "P v" "known hist v"
  shows "rg keeps_spec (authorised sv known rq) hist (nx rq (Some v)) (authorised_reply sv known)"
proof (rule rg_extend)
  show "rg keeps_spec (may sv v rq) hist (nx rq (Some v)) (\<lambda>_ r. reveals sv v r)"
    using assms(1,2) by (simp add: handler_safe_def)
  show "authorised_reply sv known (hist @ t) r" if "reveals sv v r" for t r
    using known_later [OF assms(3)] that by (auto simp: authorised_reply_def)
  show "authorised sv known rq (hist @ t) c" if "may sv v rq (hist @ t) c" for t c
    using known_later [OF assms(3)] that by (auto simp: authorised_def)
qed

lemma require_safe:
  assumes "handler_safe sv (\<lambda>_. True) nx"
  shows "route_safe sv known (require nx)"
  unfolding route_safe_def
  by (intro allI, rule behind_require)
    (erule handler_authorised [OF assms TrueI], auto simp: authorised_def authorised_reply_def)

lemma admin_safe:
  assumes "handler_safe sv HandlerSafety.admin nx"
  shows "route_safe sv known (require (admin nx))"
  unfolding route_safe_def
  by (intro allI, rule behind_admin)
    (rule handler_authorised [OF assms],
      auto simp: authorised_def authorised_reply_def HandlerSafety.admin_def)

lemma optional_safe:
  assumes "handler_safe sv (\<lambda>_. True) nx"
    and "\<And>hist rq. rg keeps_spec (authorised sv known rq) hist (nx rq None) (authorised_reply sv known)"
  shows "route_safe sv known (optional nx)"
  unfolding route_safe_def
  by (intro allI, rule behind_optional)
    (erule handler_authorised [OF assms(1) TrueI], auto simp: authorised_def assms(2))

lemma ui_safe:
  assumes "handler_safe sv (\<lambda>_. True) nx"
  shows "route_safe sv known (optional (requireAuthUI nx))"
proof (rule optional_safe)
  show "handler_safe sv (\<lambda>_. True) (requireAuthUI nx)"
    using assms by (simp add: handler_safe_def requireAuthUI_def)
  show "rg keeps_spec (authorised sv known rq) hist (requireAuthUI nx rq None) (authorised_reply sv known)" for hist rq
    by (auto simp: requireAuthUI_def authorised_reply_def login_page_def denied_def)
qed

lemma protected_safe:
  "r \<in> set (protectedRoutes sv require optional admin) \<Longrightarrow> route_safe sv known (rt_handler r)"
proof -
  have "rg keeps_spec (authorised sv known rq) hist (PageDashboard sv rq None) (authorised_reply sv known)" for hist rq
    by (simp add: PageDashboard_def authorised_reply_def login_page_def)
  note dash = optional_safe [OF PageDashboard_safe this]
  have gateway: "handler_safe sv HandlerSafety.admin (GetDefaultGatewayConfig sv)"
    by (rule handler_safe_mono [OF GetDefaultGatewayConfig_safe]) simp
  show "r \<in> set (protectedRoutes sv require optional admin) \<Longrightarrow> route_safe sv known (rt_handler r)"
    unfolding protectedRoutes_def Let_def set_simps
    by (elim insertE emptyE; simp only: route.simps)
      (rule dash admin_safe [OF gateway] admin_safe [OF ListUsersHandler_safe] admin_safe [OF GetDefaultsHandler_safe]
        admin_safe [OF UpdateDefaultsHandler_safe] require_safe [OF ListInstances_safe] require_safe [OF CreateInstance_safe]
        require_safe [OF GetInstance_safe] require_safe [OF DeleteInstance_safe] require_safe [OF ProxyToInstance_safe]
        ui_safe [OF PageCreateInstance_safe] ui_safe [OF PageInstanceDetail_safe] ui_safe [OF PageInstanceStatus_safe]
        ui_safe [OF PageEditInstanceConfig_safe] ui_safe [OF PageUpdateInstanceConfig_safe]
        ui_safe [OF PageDeleteInstance_safe] ui_safe [OF PageAdminUsers_safe] ui_safe [OF PageAdminDefaults_safe]
        ui_safe [OF PageUpdateDefaults_safe])+
qed

end

text \<open>Who is signed in, for the provider in use.\<close>

definition signed_in :: "server \<Rightarrow> (scall, sanswer) history \<Rightarrow> user \<Rightarrow> bool" where
  "signed_in h = (if \<not> sv_dev h then oidc_known (sv_lib h) else dev_known)"

lemma guarded_safe: "r \<in> set (guardedRoutes sv) \<Longrightarrow> route_safe sv (signed_in sv) (rt_handler r)"
  by (auto simp: guardedRoutes_def signed_in_def split: if_splits dest: oidc.protected_safe dev.protected_safe)

lemma serve_request_safe:
  assumes "\<And>r'. r = Some r' \<Longrightarrow> route_safe sv (signed_in sv) (rt_handler r')"
  shows "rg keeps_spec (authorised sv (signed_in sv) rq) hist (serve_request sv r rq) (authorised_reply sv (signed_in sv))"
proof (cases "isWebSocketUpgrade rq")
  case True
  have "route_safe sv (signed_in sv)
      ((if \<not> sv_dev sv then RequireAuth (sv_lib sv) else DevRequireAuth) (websocketHandler sv))"
    by (simp add: signed_in_def oidc.require_safe dev.require_safe websocketHandler_safe)
  with True show ?thesis
    by (simp add: serve_request_def WebSocketMiddleware_def route_safe_def)
next
  case False
  with assms show ?thesis
    by (cases r) (auto simp: serve_request_def WebSocketMiddleware_def route_safe_def authorised_reply_def)
qed


section \<open>Without a session\<close>

definition anonymous :: "scall \<Rightarrow> sanswer \<Rightarrow> bool" where
  "anonymous c a \<longleftrightarrow> (c = SessionGet \<longrightarrow> se_values (dec_session a) sessionKeyUserID = None
      \<and> se_values (dec_session a) devSessionKeyRole = None)"

lemma anonymous_session [simp]:
  "anonymous SessionGet a \<longleftrightarrow> se_values (dec_session a) sessionKeyUserID = None
     \<and> se_values (dec_session a) devSessionKeyRole = None"
  by (simp add: anonymous_def)

lemma anonymous_require:
  "rg anonymous (\<lambda>_ c. c = SessionGet) hist (RequireAuth lib nx rq u) (\<lambda>_ r. denied r)"
  "rg anonymous (\<lambda>_ c. c = SessionGet) hist (DevRequireAuth nx rq u) (\<lambda>_ r. denied r)"
  by (auto simp: RequireAuth_def DevRequireAuth_def string_value_def denied_def)

lemma anonymous_optional:
  assumes "\<And>h'. rg anonymous (\<lambda>_ c. c = SessionGet) h' (nx rq u) Q"
  shows "rg anonymous (\<lambda>_ c. c = SessionGet) hist (OptionalAuth lib nx rq u) Q"
    "rg anonymous (\<lambda>_ c. c = SessionGet) hist (DevOptionalAuth nx rq u) Q"
  using assms by (auto simp: OptionalAuth_def DevOptionalAuth_def string_value_def)

text \<open>
  Property C8. A request whose session nobody signed in to gets nothing done: on a guarded route it makes
  no call but the look at the session, and the reply is a refusal or a login page.
\<close>

theorem anonymous_refused:
  "list_all (\<lambda>r. rg anonymous (\<lambda>_ c. c = SessionGet) [] (serve_request sv (Some r) rq)
                   (\<lambda>_ reply. denied reply \<or> login_page reply)) (guardedRoutes sv)"
proof -
  have ui: "rg anonymous (\<lambda>_ c. c = SessionGet) h (requireAuthUI f rq None) (\<lambda>_ reply. denied reply \<or> login_page reply)" for f h
    by (auto simp: requireAuthUI_def denied_def login_page_def)
  have dash: "rg anonymous (\<lambda>_ c. c = SessionGet) h (PageDashboard sv rq None) (\<lambda>_ reply. denied reply \<or> login_page reply)" for h
    by (auto simp: PageDashboard_def login_page_def)
  have req: "rg anonymous (\<lambda>_ c. c = SessionGet) h (RequireAuth lib nx rq None) (\<lambda>_ reply. denied reply \<or> login_page reply)"
    "rg anonymous (\<lambda>_ c. c = SessionGet) h (DevRequireAuth nx rq None) (\<lambda>_ reply. denied reply \<or> login_page reply)" for lib nx h
    by (auto intro: rg_post [OF anonymous_require(1)] rg_post [OF anonymous_require(2)])
  show ?thesis
    by (auto simp: list_all_iff serve_request_def WebSocketMiddleware_def guardedRoutes_def protectedRoutes_def Let_def
        intro!: req anonymous_optional ui dash split: if_splits)
qed

end
