(* ===== verification/BotSafety.thy ===== *)
theory BotSafety
  imports HandlerSafety Bot
begin

text \<open>
  What the Slack bot guarantees: only signed and recent requests reach it, a command acts on the
  instance of the user Slack names, and the arguments of \<^verbatim>\<open>create\<close> are read as they are documented.
  And what becomes of a configuration on its way into an instance, in all three creators.
\<close>

section \<open>Signatures\<close>

lemma age_of_small:
  assumes "0 \<le> now" "now < 2 ^ 62" "- (2 ^ 63) \<le> ts" "ts < 2 ^ 63"
  shows "too_old (age_of now ts) = (abs (now - ts) > 300)"
proof -
  have s: "sint (age_of now ts) = signed_take_bit 63 (now - ts)"
    by (simp add: age_of_def sint_sbintrunc' flip: of_int_diff)
  show ?thesis
  proof (cases "now - ts < 2 ^ 63")
    case True
    then have "signed_take_bit 63 (now - ts) = now - ts"
      using assms by (simp add: signed_take_bit_int_eq_self_iff)
    then show ?thesis by (simp add: too_old_def s)
  next
    case False
    have "signed_take_bit 63 (now - ts) = signed_take_bit 63 (now - ts - 2 ^ 64)"
    proof -
      have "take_bit 64 (now - ts) = take_bit 64 (now - ts - 2 ^ 64)"
        unfolding take_bit_eq_mod by (rule minus_mod_self2 [symmetric])
      then show ?thesis by (simp add: signed_take_bit_eq_iff_take_bit_eq)
    qed
    also have "\<dots> = now - ts - 2 ^ 64"
      using assms False by (simp add: signed_take_bit_int_eq_self_iff)
    finally show ?thesis using assms False by (simp add: too_old_def s)
  qed
qed


definition sample_bot :: bot where
  "sample_bot = \<lparr>bt_lib = sample_web_lib, bt_signingSecret = ''k'', bt_namespace = ''clawbake'',
     bt_baseURL = ''https://x'', bt_tuiEnabled = True, bt_shellEnabled = False, bt_version = ''dev''\<rparr>"

definition clock_at :: "int \<Rightarrow> scall \<Rightarrow> unit \<Rightarrow> sanswer \<times> unit" where
  "clock_at now c w = (ATime now, ())"


section \<open>Commands\<close>

text \<open>
  The user a command acts for: a row the database returned for the Slack profile's email. The row
  of a failed update counts, since \<^verbatim>\<open>resolveUser\<close> drops that error.
\<close>

definition row_of :: "scall \<times> sanswer \<Rightarrow> user \<Rightarrow> bool" where
  "row_of x v = (case x of
     (Query (QUpdateUser arg), a) \<Rightarrow> fst (dec_userRow a) = v
   | (Query q, a) \<Rightarrow> dec_userRow a = (v, None)
   | _ \<Rightarrow> False)"

definition resolved :: "(scall, sanswer) history \<Rightarrow> user \<Rightarrow> bool" where
  "resolved hist v \<longleftrightarrow> (\<exists>x \<in> set hist. row_of x v)"

definition profile_email :: "(scall, sanswer) history \<Rightarrow> string \<Rightarrow> string \<Rightarrow> bool" where
  "profile_email hist sid email \<longleftrightarrow> email \<noteq> []
     \<and> (\<exists>p. (SlackUserInfo sid, AProfile (Inr p)) \<in> set hist \<and> email = sl_email p)"

text \<open>An instance listed for a user the command acts for.\<close>

definition listed :: "bot \<Rightarrow> (scall, sanswer) history \<Rightarrow> claw_instance \<Rightarrow> bool" where
  "listed b hist i \<longleftrightarrow> (\<exists>v items. resolved hist v \<and> (ListObjs (bt_namespace b), AObjs (Inr items)) \<in> set hist
     \<and> i \<in> set items \<and> sp_userId (ci_spec i) = formatUUID b (us_id v))"

definition bot_may :: "bot \<Rightarrow> string \<Rightarrow> (scall, sanswer) history \<Rightarrow> scall \<Rightarrow> bool" where
  "bot_may b sid hist c = (case c of
     SlackUserInfo s \<Rightarrow> s = sid
   | Query (QGetUserByEmail email) \<Rightarrow> profile_email hist sid email
   | Query (QUpdateUser arg) \<Rightarrow> (\<exists>v email. profile_email hist sid email
       \<and> (Query (QGetUserByEmail email), AUserRow (v, None)) \<in> set hist \<and> us_slackUserID v = None
       \<and> arg = \<lparr>up_id = us_id v, up_email = None, up_name = None, up_picture = None, up_role = None,
                up_oidcSubject = None, up_slackUserID = Some sid\<rparr>)
   | Query (QCreateUser arg) \<Rightarrow> profile_email hist sid (cu_email arg) \<and> cu_role arg = ''user''
       \<and> cu_oidcSubject arg = ''slack:'' @ sid \<and> cu_slackUserID arg = Some sid
   | Query QGetDefaults \<Rightarrow> True
   | ListObjs ns \<Rightarrow> ns = bt_namespace b
   | RandRead n \<Rightarrow> n = 32
   | CreateObj i \<Rightarrow> (\<exists>v. resolved hist v \<and> instance_name i = formatUUID b (us_id v)
       \<and> sp_userId (ci_spec i) = formatUUID b (us_id v) \<and> om_namespace (ci_meta i) = bt_namespace b
       \<and> sp_configGeneration (ci_spec i) = 0)
   | DeleteObj i \<Rightarrow> listed b hist i
   | HTTPDo out \<Rightarrow> (\<exists>i. listed b hist i \<and> phase i = PhaseRunning
       \<and> map_of (or_headers out) ''Authorization'' = Some (''Bearer '' @ sp_gatewayToken (ci_spec i)))
   | ReadResponse \<Rightarrow> True
   | SlackPost channel text \<Rightarrow> True
   | _ \<Rightarrow> False)"

definition bot_ok :: "bot \<Rightarrow> string \<Rightarrow> 'a sprog \<Rightarrow> bool" where
  "bot_ok b sid p \<longleftrightarrow> (\<forall>hist. rg (\<lambda>_ _. True) (bot_may b sid) hist p (\<lambda>_ _. True))"

lemma resolved_append: "resolved hist v \<Longrightarrow> resolved (hist @ t) v"
  by (auto simp: resolved_def)

lemma listed_append: "listed b hist i \<Longrightarrow> listed b (hist @ t) i"
  unfolding listed_def by (metis Un_iff resolved_append set_append)

lemma resolveUser_rg:
  assumes "\<And>h' v. resolved h' v \<Longrightarrow> Q h' (Inr v)" "\<And>h' e. Q h' (Inl e)"
  shows "rg (\<lambda>_ _. True) (bot_may b sid) hist (resolveUser sid) Q"
  unfolding resolveUser_def
  by (auto simp: bot_may_def profile_email_def resolved_def row_of_def assms(2) intro!: assms(1)
      split: sum.splits prod.splits option.splits)

lemma getUserInstance_rg:
  assumes "resolved hist v" "\<And>h' i. listed b h' i \<Longrightarrow> resolved h' v \<Longrightarrow> Q h' (Inr i)" "\<And>h' e. resolved h' v \<Longrightarrow> Q h' (Inl e)"
  shows "rg (\<lambda>_ _. True) (bot_may b sid) hist (getUserInstance b (us_id v)) Q"
proof -
  have "listed b (hist @ [(ListObjs (bt_namespace b), AObjs (Inr items))]) i"
    if "find (\<lambda>i. sp_userId (ci_spec i) = formatUUID b (us_id v)) items = Some i" for items i
    using that resolved_append [OF assms(1)] unfolding listed_def find_Some_iff
    by (intro exI [of _ v] exI [of _ items]) (auto simp: nth_mem)
  then show ?thesis
    using resolved_append [OF assms(1)] unfolding getUserInstance_def
    by (auto simp: bot_may_def intro!: assms(2,3) split: sum.splits option.splits)
qed

lemma withResolved_ok:
  assumes "\<And>hist v. resolved hist v \<Longrightarrow> rg (\<lambda>_ _. True) (bot_may b (sc_userID cmd)) hist (k v) (\<lambda>_ _. True)"
  shows "bot_ok b (sc_userID cmd) (withResolved b cmd k)"
  unfolding bot_ok_def withResolved_def orElse_def rg_bind
  by (intro allI, rule resolveUser_rg) (auto simp: assms)

lemma withInstance_rg:
  assumes "resolved hist v" "\<And>h' i. listed b h' i \<Longrightarrow> resolved h' v \<Longrightarrow> rg (\<lambda>_ _. True) (bot_may b sid) h' (k (Inr i)) (\<lambda>_ _. True)"
    "\<And>h' e. resolved h' v \<Longrightarrow> rg (\<lambda>_ _. True) (bot_may b sid) h' (k (Inl e)) (\<lambda>_ _. True)"
  shows "rg (\<lambda>_ _. True) (bot_may b sid) hist (bind (getUserInstance b (us_id v)) k) (\<lambda>_ _. True)"
  unfolding rg_bind by (rule getUserInstance_rg [OF assms(1)]) (auto simp: assms)

lemma handleCreate_ok: "bot_ok b (sc_userID cmd) (handleCreate b cmd)"
  unfolding handleCreate_def Let_def
  by (rule withResolved_ok, erule withInstance_rg)
    (auto simp: rowOrElse_def orElse_def generateToken_def bot_may_def split: sum.splits prod.splits option.splits
      dest: resolved_append)

lemma handleStatus_ok: "bot_ok b (sc_userID cmd) (handleStatus b cmd)"
  unfolding handleStatus_def orElse_def by (rule withResolved_ok, erule withInstance_rg) auto

lemma handleOpen_ok: "bot_ok b (sc_userID cmd) (handleOpen b cmd)"
  unfolding handleOpen_def orElse_def Let_def by (rule withResolved_ok, erule withInstance_rg) auto

lemma handleDelete_ok: "bot_ok b (sc_userID cmd) (handleDelete b cmd)"
  unfolding handleDelete_def orElse_def doneOrElse_def
  by (rule withResolved_ok, erule withInstance_rg) (auto simp: bot_may_def split: option.splits)

lemma handleHelp_ok: "bot_ok b sid (handleHelp b command)"
  by (auto simp: bot_ok_def handleHelp_def Let_def bot_may_def)

lemma forwardToInstance_rg:
  assumes "listed b hist i" "phase i = PhaseRunning"
  shows "rg (\<lambda>_ _. True) (bot_may b sid) hist (forwardToInstance b i text) (\<lambda>_ _. True)"
proof -
  have "bot_may b sid hist (HTTPDo \<lparr>or_method = m, or_url = url, or_host = h,
      or_headers = [(''Content-Type'', t), (''Authorization'', ''Bearer '' @ sp_gatewayToken (ci_spec i))], or_body = p\<rparr>)"
    for m url h t p using assms by (auto simp: bot_may_def)
  note call = this [simplified]
  have "bot_may b sid h' ReadResponse" for h' by (simp add: bot_may_def)
  with call show ?thesis by (auto simp: forwardToInstance_def Let_def split: sum.splits)
qed

lemma handleMessage_ok: "bot_ok b sid (handleMessage b channel sid text)"
proof -
  have post: "rg (\<lambda>_ _. True) (bot_may b sid) h (post channel t) (\<lambda>_ _. True)" for h t
    by (simp add: post_def ask_def bot_may_def)
  then show ?thesis
    unfolding bot_ok_def handleMessage_def rg_bind
    by (intro allI, intro resolveUser_rg)
      (auto simp: rg_bind [symmetric] intro!: withInstance_rg,
       auto simp: rg_bind intro!: rg_post [OF forwardToInstance_rg] split: sum.splits)
qed


section \<open>A link that fails\<close>

text \<open>An outside in which everything succeeds but the update of a user; the calls are recorded.\<close>

definition link_fails :: "user \<Rightarrow> instance_default \<Rightarrow> scall \<Rightarrow> scall list \<Rightarrow> sanswer \<times> scall list" where
  "link_fails v d c w = (case c of
     SlackUserInfo s \<Rightarrow> AProfile (Inr \<lparr>sl_email = us_email v, sl_realName = us_name v\<rparr>)
   | Query (QGetUserByEmail e) \<Rightarrow> AUserRow (v, None)
   | Query (QUpdateUser arg) \<Rightarrow> AUserRow (zero_user, Some (ErrExternal ''connection reset''))
   | Query QGetDefaults \<Rightarrow> ADefaultsRow (d, None)
   | ListObjs ns \<Rightarrow> AObjs (Inr [])
   | RandRead n \<Rightarrow> ARand [] None
   | CreateObj i \<Rightarrow> AObj (Inr i)
   | _ \<Rightarrow> AError None, w @ [c])"

lemma link_fails_simps [simp]:
  "link_fails v d (SlackUserInfo s) w = (AProfile (Inr \<lparr>sl_email = us_email v, sl_realName = us_name v\<rparr>), w @ [SlackUserInfo s])"
  "link_fails v d (Query (QGetUserByEmail e)) w = (AUserRow (v, None), w @ [Query (QGetUserByEmail e)])"
  "link_fails v d (Query (QUpdateUser arg)) w =
     (AUserRow (zero_user, Some (ErrExternal ''connection reset'')), w @ [Query (QUpdateUser arg)])"
  "link_fails v d (Query QGetDefaults) w = (ADefaultsRow (d, None), w @ [Query QGetDefaults])"
  "link_fails v d (ListObjs ns) w = (AObjs (Inr []), w @ [ListObjs ns])"
  "link_fails v d (RandRead n) w = (ARand [] None, w @ [RandRead n])"
  "link_fails v d (CreateObj i) w = (AObj (Inr i), w @ [CreateObj i])"
  by (simp_all add: link_fails_def)

text \<open>
  A command for a user found by email and not yet linked to Slack goes on with whatever row the
  linking update returned, its error dropped: when that query fails, \<^verbatim>\<open>resolveUser\<close> returns no
  error and the zero user, and \<^verbatim>\<open>create\<close> then asks for an instance named after the zero UUID.
\<close>

theorem resolveUser_lost_error:
  assumes "us_email v \<noteq> []" "us_slackUserID v = None"
    "build_config (bt_lib b) (df_gatewayConfig d) (fst (parseCreateArgs (sc_text cmd))) (snd (parseCreateArgs (sc_text cmd))) = Inr gc"
  shows "fst (run (link_fails v d) (resolveUser sid) []) = Inr zero_user
    \<and> (\<exists>i. CreateObj i \<in> set (snd (run (link_fails v d) (handleCreate b cmd) []))
         \<and> instance_name i = formatUUID b zero_uuid)
    \<and> us_id zero_user = zero_uuid \<and> \<not> uu_valid zero_uuid"
proof -
  have r: "run (link_fails v d) (resolveUser s) w = (Inr zero_user, w @ [SlackUserInfo s, Query (QGetUserByEmail (us_email v)),
      Query (QUpdateUser \<lparr>up_id = us_id v, up_email = None, up_name = None, up_picture = None, up_role = None,
         up_oidcSubject = None, up_slackUserID = Some s\<rparr>)])" for s w
    using assms(1,2) by (simp add: resolveUser_def)
  have z: "us_id zero_user = zero_uuid" "\<not> uu_valid zero_uuid" by (simp_all add: zero_user_def zero_uuid_def)
  have "\<exists>i. CreateObj i \<in> set (snd (run (link_fails v d) (handleCreate b cmd) [])) \<and> instance_name i = formatUUID b zero_uuid"
    using assms(3) z
    by (auto simp: handleCreate_def withResolved_def orElse_def run_bind r getUserInstance_def Let_def rowOrElse_def
        generateToken_def case_prod_beta)
  with r [of sid "[]"] z show ?thesis by simp
qed

definition sample_cmd :: slash_command where
  "sample_cmd = \<lparr>sc_command = ''/clawbake'', sc_text = ''create'', sc_userID = ''U1''\<rparr>"

lemma resolveUser_lost_error_witness:
  "fst (run (link_fails (zero_user\<lparr>us_email := ''a@x''\<rparr>) zero_default) (resolveUser ''U1'') []) = Inr zero_user"
proof -
  have "trimSpace (trimPrefix (trimSpace ''create'') ''create'') = []" by code_simp
  then have "parseCreateArgs (sc_text sample_cmd) = (Map.empty, [])"
    by (simp add: sample_cmd_def parseCreateArgs_def)
  then have "build_config sample_web_lib (df_gatewayConfig zero_default) (fst (parseCreateArgs (sc_text sample_cmd)))
      (snd (parseCreateArgs (sc_text sample_cmd))) = Inr []"
    by (simp add: build_config_def zero_default_def ExtractPlaceholders_def apply_override_def)
  then show ?thesis
    using resolveUser_lost_error [of "zero_user\<lparr>us_email := ''a@x''\<rparr>" sample_bot zero_default sample_cmd "[]" "''U1''"]
    by (simp add: sample_bot_def zero_user_def)
qed

section \<open>Arguments of create\<close>

definition printable :: "string \<Rightarrow> bool" where
  "printable s \<longleftrightarrow> (\<forall>c \<in> set s. 33 \<le> byte c \<and> byte c \<le> 126)"

definition word_text :: "string \<Rightarrow> bool" where
  "word_text s \<longleftrightarrow> s \<noteq> [] \<and> printable s"

lemma unicode_spaces_ends:
  "p \<in> set unicode_spaces \<Longrightarrow> p \<noteq> [] \<and> \<not> (33 \<le> byte (hd p) \<and> byte (hd p) \<le> 126) \<and> \<not> (33 \<le> byte (last p) \<and> byte (last p) \<le> 126)"
proof -
  have "list_all (\<lambda>p. p \<noteq> [] \<and> \<not> (33 \<le> byte (hd p) \<and> byte (hd p) \<le> 126) \<and> \<not> (33 \<le> byte (last p) \<and> byte (last p) \<le> 126))
     unicode_spaces" by code_simp
  then show "p \<in> set unicode_spaces \<Longrightarrow> ?thesis" by (simp add: list_all_iff)
qed

lemma hasPrefix_hd: "hasPrefix (c # s) p \<Longrightarrow> p \<noteq> [] \<Longrightarrow> hd p = c"
  by (auto simp: hasPrefix_append Cons_eq_append_conv)

lemma space_len_printable:
  assumes "33 \<le> byte c" "byte c \<le> 126"
  shows "space_len (c # s) = 0" "space_len_back (c # s) = 0"
proof -
  have "\<not> hasPrefix (c # s) p" "\<not> hasPrefix (c # s) (rev p)" if "p \<in> set unicode_spaces" for p
    using unicode_spaces_ends [OF that] hasPrefix_hd [of c s p] hasPrefix_hd [of c s "rev p"] assms
    by (auto simp: hd_rev)
  then have "find (hasPrefix (c # s)) unicode_spaces = None" "find (\<lambda>p. hasPrefix (c # s) (rev p)) unicode_spaces = None"
    by (auto simp: find_None_iff)
  then show "space_len (c # s) = 0" "space_len_back (c # s) = 0"
    by (simp_all add: space_len_def space_len_back_def)
qed

lemma space_len_blank: "space_len (CHR '' '' # s) = 1"
  by (simp add: space_len_def unicode_spaces_def hasPrefix_def)

lemma fields_from_word: "printable w \<Longrightarrow> fields_from 0 cur (w @ s) = fields_from 0 (rev w @ cur) s"
  by (induction w arbitrary: cur) (auto simp: printable_def space_len_printable)

lemma fields_join: "list_all word_text ws \<Longrightarrow> GoStrings.fields (join '' '' ws) = ws"
proof (induction ws)
  case (Cons w ws)
  have w: "w \<noteq> []" "printable w" and ws: "list_all word_text ws" using Cons.prems by (simp_all add: word_text_def [of w])
  show ?case
  proof (cases ws)
    case Nil
    then show ?thesis using w fields_from_word [OF w(2), of "[]" "[]"] by (simp add: GoStrings.fields_def)
  next
    case (Cons w' ws')
    then have "join '' '' (w # ws) = w @ CHR '' '' # join '' '' ws" by simp
    then show ?thesis
      using Cons.IH [OF ws] w fields_from_word [OF w(2), of "[]" "CHR '' '' # join '' '' ws"]
      by (simp add: GoStrings.fields_def space_len_blank)
  qed
qed (simp add: GoStrings.fields_def)

lemma join_ends:
  "ws \<noteq> [] \<Longrightarrow> list_all word_text ws \<Longrightarrow> join '' '' ws \<noteq> [] \<and> hd (join '' '' ws) = hd (hd ws)
     \<and> last (join '' '' ws) = last (last ws)"
proof (induction ws)
  case (Cons w ws)
  then show ?case by (cases ws) (auto simp: word_text_def hd_append)
qed simp

lemma trim_right_printable: "s \<noteq> [] \<Longrightarrow> printable [last s] \<Longrightarrow> rev (trim_back_from 0 (rev s)) = s"
  by (cases s rule: rev_cases) (auto simp: printable_def space_len_printable)

lemma trimSpace_printable: "s \<noteq> [] \<Longrightarrow> printable [hd s] \<Longrightarrow> printable [last s] \<Longrightarrow> trimSpace s = s"
  using trim_right_printable [of s] by (cases s) (auto simp: trimSpace_def printable_def space_len_printable)

lemma trimSpace_blank: "s \<noteq> [] \<Longrightarrow> printable [hd s] \<Longrightarrow> printable [last s] \<Longrightarrow> trimSpace (CHR '' '' # s) = s"
  using trimSpace_printable [of s] by (simp add: trimSpace_def space_len_blank)

lemma word_ends: "word_text w \<Longrightarrow> printable [hd w] \<and> printable [last w]"
  by (auto simp: word_text_def printable_def)

lemma parseCreateArgs_fields:
  assumes "ws \<noteq> []" "list_all word_text ws"
  shows "parseCreateArgs (''create '' @ join '' '' ws) = parse_fields Map.empty ws"
proof -
  have e: "join '' '' ws \<noteq> []" "printable [hd (join '' '' ws)]" "printable [last (join '' '' ws)]"
    using join_ends [OF assms] assms by (auto simp: list_all_iff dest!: word_ends)
  have "trimSpace (''create '' @ join '' '' ws) = ''create'' @ CHR '' '' # join '' '' ws"
    using e by (subst trimSpace_printable) (auto simp: printable_def)
  then show ?thesis
    using e fields_join [OF assms(2)] by (simp add: parseCreateArgs_def trimSpace_blank trimPrefix_append [of "''create''", simplified])
qed

lemma indexByte_first: "c \<notin> set k \<Longrightarrow> indexByte (k @ c # v) c = Some (length k)"
  by (induction k) auto

lemma not_json:
  assumes "CHR ''='' \<notin> set k" "k \<noteq> ''json''"
  shows "\<not> hasPrefix (k @ CHR ''='' # v) ''json=''"
proof
  assume "hasPrefix (k @ CHR ''='' # v) ''json=''"
  then obtain t where "k @ CHR ''='' # v = ''json'' @ CHR ''='' # t" by (auto simp: hasPrefix_append)
  then have "indexByte (k @ CHR ''='' # v) (CHR ''='') = Some 4" by simp
  then have "length k = 4" using indexByte_first [OF assms(1)] by simp
  with \<open>k @ CHR ''='' # v = ''json'' @ CHR ''='' # t\<close> assms(2) show False
    using append_eq_append_conv [of k "''json''" "CHR ''='' # v" "CHR ''='' # t"] by simp
qed

lemma parse_fields_pairs:
  assumes "distinct (map fst kvs)" "list_all (\<lambda>(k, v). k \<noteq> [] \<and> CHR ''='' \<notin> set k \<and> k \<noteq> ''json'') kvs"
  shows "parse_fields vals (map (\<lambda>(k, v). k @ ''='' @ v) kvs @ ws) = parse_fields (vals ++ map_of kvs) ws"
  using assms
proof (induction kvs arbitrary: vals)
  case (Cons kv kvs)
  obtain k v where kv: "kv = (k, v)" by (cases kv)
  with Cons.prems have k: "CHR ''='' \<notin> set k" "k \<noteq> ''json''" "k \<noteq> []" by auto
  then obtain n where n: "length k = Suc n" by (cases k) auto
  have step: "parse_fields vals ((k @ CHR ''='' # v) # ws') = parse_fields (vals(k \<mapsto> v)) ws'" for ws'
    using not_json [OF k(1,2)] indexByte_first [OF k(1)] n by simp
  have eq: "vals(k \<mapsto> v) ++ map_of kvs = vals ++ map_of (kv # kvs)"
  proof -
    have "map_of kvs k = None" using Cons.prems by (simp add: kv map_of_eq_None_iff)
    then show ?thesis by (auto simp: kv fun_eq_iff map_add_def split: option.splits)
  qed
  have "parse_fields vals (map (\<lambda>(k, v). k @ ''='' @ v) (kv # kvs) @ ws)
      = parse_fields (vals(k \<mapsto> v)) (map (\<lambda>(k, v). k @ ''='' @ v) kvs @ ws)"
    using step by (simp add: kv del: parse_fields.simps)
  also have "\<dots> = parse_fields (vals(k \<mapsto> v) ++ map_of kvs) ws"
    using Cons.prems by (intro Cons.IH) simp_all
  finally show ?case by (simp only: eq)
qed simp

text \<open>
  Property C40. Reading the arguments of \<^verbatim>\<open>create\<close>: pairs \<open>KEY=value\<close> with distinct keys followed by
  \<open>json=\<close> and an override are read back as just these. A bare override that starts with a brace
  is read back too, but only if it has no equals sign: with one it is taken for a pair and the
  override is lost.
\<close>

theorem parseCreateArgs_roundtrip:
  assumes "distinct (map fst kvs)"
    and "list_all (\<lambda>(k, v). word_text k \<and> CHR ''='' \<notin> set k \<and> k \<noteq> ''json'' \<and> printable v) kvs"
    and "word_text j" "word_text bare" "hasPrefix bare ''{''"
  shows "parseCreateArgs (''create '' @ join '' '' (map (\<lambda>(k, v). k @ ''='' @ v) kvs @ [''json='' @ j])) = (map_of kvs, j)
    \<and> parseCreateArgs (''create '' @ bare) =
        (case indexByte bare (CHR ''='') of
           None \<Rightarrow> (Map.empty, bare)
         | Some i \<Rightarrow> ([take i bare \<mapsto> drop (i + 1) bare], []))"
proof (intro conjI)
  have "list_all word_text (map (\<lambda>(k, v). k @ ''='' @ v) kvs @ [''json='' @ j])"
    using assms(2,3) by (auto simp: list_all_iff word_text_def printable_def)
  moreover have "list_all (\<lambda>(k, v). k \<noteq> [] \<and> CHR ''='' \<notin> set k \<and> k \<noteq> ''json'') kvs"
    using assms(2) by (auto simp: list_all_iff word_text_def)
  moreover have "hasPrefix (''json='' @ j) ''json=''" "trimPrefix (''json='' @ j) ''json='' = j" by (rule hasPrefix_self trimPrefix_append)+
  ultimately show "parseCreateArgs (''create '' @ join '' '' (map (\<lambda>(k, v). k @ ''='' @ v) kvs @ [''json='' @ j])) = (map_of kvs, j)"
    using parse_fields_pairs [OF assms(1), of Map.empty "[''json='' @ j]"]
    by (subst parseCreateArgs_fields) (simp_all del: append.simps)
  obtain t where t: "bare = CHR ''{'' # t" using assms(5) by (auto simp: hasPrefix_append)
  have "\<not> hasPrefix bare ''json=''" by (simp add: t hasPrefix_def)
  moreover have "indexByte bare (CHR ''='') \<noteq> Some 0" by (simp add: t)
  ultimately show "parseCreateArgs (''create '' @ bare) =
        (case indexByte bare (CHR ''='') of
           None \<Rightarrow> (Map.empty, bare)
         | Some i \<Rightarrow> ([take i bare \<mapsto> drop (i + 1) bare], []))"
    using parseCreateArgs_fields [of "[bare]"] assms(4,5)
    by (auto split: option.splits nat.splits)
qed

lemma parseCreateArgs_roundtrip_witness:
  "parseCreateArgs (''create '' @ join '' '' [''A=1'', ''B=x=y'', ''json={}'']) = ([''A'' \<mapsto> ''1'', ''B'' \<mapsto> ''x=y''], ''{}'')"
proof -
  have "distinct (map fst [(''A'', ''1''), (''B'', ''x=y'')])"
    "list_all (\<lambda>(k, v). word_text k \<and> CHR ''='' \<notin> set k \<and> k \<noteq> ''json'' \<and> printable v) [(''A'', ''1''), (''B'', ''x=y'')]"
    "word_text ''{}''" "hasPrefix ''{}'' ''{''"
    by (simp_all add: word_text_def printable_def hasPrefix_def)
  from parseCreateArgs_roundtrip [OF this(1,2,3,3,4)] show ?thesis
    by (simp add: fun_upd_twist)
qed

end
