(* ===== verification/Operator.thy ===== *)
theory Operator
  imports OperatorObjects JsonText Effects
begin

text \<open>
  \<^verbatim>\<open>internal/operator/controller.go\<close> and \<^verbatim>\<open>notifier.go\<close>, the control flow: one call of
  \<^verbatim>\<open>Reconcile\<close> as a program of calls to the Kubernetes API, the event recorder and the
  notifier's HTTP client. Calls are answered from outside; logging is left out. A result is
  \<open>Returned n\<close> for \<^verbatim>\<open>ctrl.Result{RequeueAfter: n seconds}, nil\<close>, \<open>Failed e\<close> for a returned
  error and \<open>Panicked\<close> for a panic.
\<close>

section \<open>Calls and answers\<close>

text \<open>
  \<^verbatim>\<open>controllerutil.CreateOrUpdate\<close> reads the object (leaving the one it was given in place if it
  does not exist), runs the mutate function on it and creates or updates it: a \<open>Fetch\<close> and a
  \<open>Write\<close> call with the code's own function in between.
\<close>

datatype ocall =
  GetInstance string string
| UpdateInstance claw_instance
| UpdateStatus claw_instance
| GetNamespace string
| DeleteNamespace kube_namespace
| FetchNamespace kube_namespace | WriteNamespace kube_namespace
| FetchPVC kube_pvc | WritePVC kube_pvc
| FetchDeployment kube_deployment | WriteDeployment kube_deployment
| FetchService kube_service | WriteService kube_service
| FetchNetpol kube_netpol | WriteNetpol kube_netpol
| GetDeployment string string
| RecordEvent string string string
| PostJSON string string

datatype oanswer =
  AInstance "go_error + claw_instance"
| ADone "go_error option"
| ANamespace "go_error + kube_namespace"
| APVC "go_error + kube_pvc"
| ADeployment "go_error + kube_deployment"
| AService "go_error + kube_service"
| ANetpol "go_error + kube_netpol"
| AStatusCode "go_error + int"

type_synonym 'a oprog = "(ocall, oanswer, 'a) prog"

definition no_answer :: go_error where
  "no_answer = ErrExternal ''unexpected answer''"

fun dec_instance :: "oanswer \<Rightarrow> go_error + claw_instance" where
  "dec_instance (AInstance x) = x" | "dec_instance _ = Inl no_answer"
fun dec_done :: "oanswer \<Rightarrow> go_error option" where
  "dec_done (ADone x) = x" | "dec_done _ = Some no_answer"
fun dec_namespace :: "oanswer \<Rightarrow> go_error + kube_namespace" where
  "dec_namespace (ANamespace x) = x" | "dec_namespace _ = Inl no_answer"
fun dec_pvc :: "oanswer \<Rightarrow> go_error + kube_pvc" where
  "dec_pvc (APVC x) = x" | "dec_pvc _ = Inl no_answer"
fun dec_deployment :: "oanswer \<Rightarrow> go_error + kube_deployment" where
  "dec_deployment (ADeployment x) = x" | "dec_deployment _ = Inl no_answer"
fun dec_service :: "oanswer \<Rightarrow> go_error + kube_service" where
  "dec_service (AService x) = x" | "dec_service _ = Inl no_answer"
fun dec_netpol :: "oanswer \<Rightarrow> go_error + kube_netpol" where
  "dec_netpol (ANetpol x) = x" | "dec_netpol _ = Inl no_answer"

text \<open>\<^verbatim>\<open>if err != nil { return ..., err }\<close>.\<close>

definition orReturn :: "(go_error + 'a) oprog \<Rightarrow> ('a \<Rightarrow> 'b outcome oprog) \<Rightarrow> 'b outcome oprog" where
  "orReturn p k = bind p (\<lambda>x. case x of Inl e \<Rightarrow> Ret (Failed e) | Inr a \<Rightarrow> k a)"

text \<open>What the code uses of \<^verbatim>\<open>controllerutil\<close>, \<^verbatim>\<open>meta\<close> and \<^verbatim>\<open>resource\<close>.\<close>

record operator_lib =
  ol_contains :: "string list \<Rightarrow> string \<Rightarrow> bool"
  ol_add :: "string list \<Rightarrow> string \<Rightarrow> string list"
  ol_remove :: "string list \<Rightarrow> string \<Rightarrow> string list"
  ol_setCondition :: "condition list \<Rightarrow> condition \<Rightarrow> condition list"
  ol_quantity_ok :: "string \<Rightarrow> bool"

definition has_finalizer :: "operator_lib \<Rightarrow> claw_instance \<Rightarrow> bool" where
  "has_finalizer lib i = ol_contains lib (om_finalizers (ci_meta i)) finalizerName"

definition add_finalizer :: "operator_lib \<Rightarrow> claw_instance \<Rightarrow> claw_instance" where
  "add_finalizer lib i = i\<lparr>ci_meta := (ci_meta i)\<lparr>om_finalizers := ol_add lib (om_finalizers (ci_meta i)) finalizerName\<rparr>\<rparr>"

definition remove_finalizer :: "operator_lib \<Rightarrow> claw_instance \<Rightarrow> claw_instance" where
  "remove_finalizer lib i = i\<lparr>ci_meta := (ci_meta i)\<lparr>om_finalizers := ol_remove lib (om_finalizers (ci_meta i)) finalizerName\<rparr>\<rparr>"

text \<open>What \<^verbatim>\<open>controllerutil\<close> documents: the finalizer is there after adding and gone after removing.\<close>

definition finalizer_laws :: "operator_lib \<Rightarrow> bool" where
  "finalizer_laws lib \<longleftrightarrow>
     (\<forall>fs f. ol_contains lib (ol_add lib fs f) f \<and> \<not> ol_contains lib (ol_remove lib fs f) f)"

definition set_ready :: "operator_lib \<Rightarrow> string \<Rightarrow> string \<Rightarrow> string \<Rightarrow> claw_instance \<Rightarrow> claw_instance" where
  "set_ready lib status reason message i =
     i\<lparr>ci_status := (ci_status i)\<lparr>st_conditions := ol_setCondition lib (st_conditions (ci_status i))
        \<lparr>cn_type = ''Ready'', cn_status = status, cn_reason = reason, cn_message = message,
         cn_observedGeneration = om_generation (ci_meta i), cn_lastTransition = 0\<rparr>\<rparr>\<rparr>"

section \<open>Notifications\<close>

text \<open>
  \<^verbatim>\<open>HTTPNotifier.NotifyInstanceReady\<close>: encoding a map of strings cannot fail; nothing is sent
  if no request can be made for the URL (\<open>url_ok\<close>), and a failure to send or a status other than
  200 is only logged.
\<close>

definition ready_payload :: "string \<Rightarrow> string \<Rightarrow> string" where
  "ready_payload instanceName userID =
     ''{'' @ json_quote ''instanceName'' @ '':'' @ json_quote instanceName @ '',''
         @ json_quote ''userId'' @ '':'' @ json_quote userID @ ''}''"

definition NotifyInstanceReady :: "(string \<Rightarrow> bool) \<Rightarrow> string \<Rightarrow> string \<Rightarrow> string \<Rightarrow> unit oprog" where
  "NotifyInstanceReady url_ok serverURL instanceName userID =
     (let payload = ready_payload instanceName userID;
          url = serverURL @ ''/internal/notifications/instance-ready''
      in if \<not> url_ok url then Ret () else ask (PostJSON url payload) (\<lambda>_. ()))"

type_synonym notifier = "string \<Rightarrow> string \<Rightarrow> unit oprog"

section \<open>Resources\<close>

definition createOrUpdate ::
  "('o \<Rightarrow> ocall) \<Rightarrow> (oanswer \<Rightarrow> go_error + 'o) \<Rightarrow> ('o \<Rightarrow> ocall) \<Rightarrow> ('o \<Rightarrow> 'o outcome) \<Rightarrow> 'o \<Rightarrow> unit outcome oprog"
where
  "createOrUpdate fetch dec write mutate obj =
     orReturn (ask (fetch obj) dec) (\<lambda>current.
       case mutate current of
         Failed e \<Rightarrow> Ret (Failed e)
       | Panicked p \<Rightarrow> Ret (Panicked p)
       | Returned obj' \<Rightarrow>
           bind (ask (write obj') dec_done) (\<lambda>err.
             case err of Some e \<Rightarrow> Ret (Failed e) | None \<Rightarrow> Ret (Returned ())))"

definition reconcileNamespace :: "claw_instance \<Rightarrow> string \<Rightarrow> unit outcome oprog" where
  "reconcileNamespace i ns =
     createOrUpdate FetchNamespace dec_namespace WriteNamespace (namespace_mutate i) (new_namespace ns)"

definition reconcilePVC :: "operator_lib \<Rightarrow> claw_instance \<Rightarrow> string \<Rightarrow> unit outcome oprog" where
  "reconcilePVC lib i ns =
     createOrUpdate FetchPVC dec_pvc WritePVC (pvc_mutate (ol_quantity_ok lib) i) (new_pvc ns ''openclaw-data'')"

definition reconcileDeployment :: "operator_lib \<Rightarrow> reconciler \<Rightarrow> claw_instance \<Rightarrow> string \<Rightarrow> unit outcome oprog" where
  "reconcileDeployment lib r i ns =
     createOrUpdate FetchDeployment dec_deployment WriteDeployment
       (deployment_mutate (ol_quantity_ok lib) r i) (new_deployment ns ''openclaw'')"

definition reconcileService :: "reconciler \<Rightarrow> claw_instance \<Rightarrow> string \<Rightarrow> unit outcome oprog" where
  "reconcileService r i ns =
     createOrUpdate FetchService dec_service WriteService (service_mutate r i) (new_service ns ''openclaw'')"

definition reconcileNetworkPolicy :: "reconciler \<Rightarrow> claw_instance \<Rightarrow> string \<Rightarrow> unit outcome oprog" where
  "reconcileNetworkPolicy r i ns =
     createOrUpdate FetchNetpol dec_netpol WriteNetpol (netpol_mutate r i) (new_netpol ns ''allow-clawbake-server-only'')"

definition deleteUserNamespace :: "claw_instance \<Rightarrow> go_error option oprog" where
  "deleteUserNamespace i =
     bind (ask (GetNamespace (''clawbake-'' @ instance_name i)) dec_namespace) (\<lambda>x.
       case x of
         Inl e \<Rightarrow> Ret (if isNotFound e then None else Some e)
       | Inr ns \<Rightarrow> ask (DeleteNamespace ns) dec_done)"

section \<open>Reconcile\<close>

definition setFailed :: "operator_lib \<Rightarrow> claw_instance \<Rightarrow> string \<Rightarrow> go_error \<Rightarrow> int outcome oprog" where
  "setFailed lib i reason err =
     orReturn (ask (UpdateStatus (set_ready lib ''False'' reason (error_text id err) (set_phase PhaseFailed i))) dec_instance)
       (\<lambda>i. bind (ask (RecordEvent ''Warning'' reason (error_text id err)) dec_done) (\<lambda>_. Ret (Failed err)))"

text \<open>\<^verbatim>\<open>if err := r.reconcileX(...); err != nil { return r.setFailed(...) }\<close>.\<close>

definition orFailed :: "operator_lib \<Rightarrow> claw_instance \<Rightarrow> string \<Rightarrow> unit outcome oprog \<Rightarrow> int outcome oprog \<Rightarrow> int outcome oprog" where
  "orFailed lib i reason p k =
     bind p (\<lambda>x. case x of Returned _ \<Rightarrow> k | Failed e \<Rightarrow> setFailed lib i reason e | Panicked m \<Rightarrow> Ret (Panicked m))"

definition reconcileDeletion :: "operator_lib \<Rightarrow> claw_instance \<Rightarrow> int outcome oprog" where
  "reconcileDeletion lib i =
     (if has_finalizer lib i
      then orReturn (ask (UpdateStatus (set_phase PhaseTerminating i)) dec_instance) (\<lambda>i.
           bind (deleteUserNamespace i) (\<lambda>err.
             case err of
               Some e \<Rightarrow> Ret (Failed e)
             | None \<Rightarrow> orReturn (ask (UpdateInstance (remove_finalizer lib i)) dec_instance) (\<lambda>_. Ret (Returned 0))))
      else Ret (Returned 0))"

definition ensureFinalizer :: "operator_lib \<Rightarrow> claw_instance \<Rightarrow> (claw_instance \<Rightarrow> int outcome oprog) \<Rightarrow> int outcome oprog" where
  "ensureFinalizer lib i k =
     (if \<not> has_finalizer lib i then orReturn (ask (UpdateInstance (add_finalizer lib i)) dec_instance) k else k i)"

definition advancePhase :: "string \<Rightarrow> string \<Rightarrow> claw_instance \<Rightarrow> (claw_instance \<Rightarrow> int outcome oprog) \<Rightarrow> int outcome oprog" where
  "advancePhase p p' i k =
     (if phase i = p then orReturn (ask (UpdateStatus (set_phase p' i)) dec_instance) k else k i)"

definition declareRunning :: "operator_lib \<Rightarrow> notifier option \<Rightarrow> claw_instance \<Rightarrow> int outcome oprog" where
  "declareRunning lib notify i =
     (let wasRunning = (phase i = PhaseRunning);
          i' = set_ready lib ''True'' ''ReconcileComplete'' ''All resources reconciled successfully'' (set_phase PhaseRunning i)
      in orReturn (ask (UpdateStatus i') dec_instance) (\<lambda>i.
         bind (ask (RecordEvent ''Normal'' ''Reconciled'' ''All resources reconciled successfully'') dec_done) (\<lambda>_.
           (case notify of
              Some f \<Rightarrow> if \<not> wasRunning
                        then bind (f (instance_name i) (sp_userId (ci_spec i))) (\<lambda>_. Ret (Returned 0))
                        else Ret (Returned 0)
            | None \<Rightarrow> Ret (Returned 0)))))"

definition declareStarting :: "operator_lib \<Rightarrow> claw_instance \<Rightarrow> int outcome oprog" where
  "declareStarting lib i =
     orReturn (ask (UpdateStatus (set_ready lib ''False'' ''WaitingForReady'' ''Waiting for deployment to become ready''
                                   (set_phase PhaseStarting i))) dec_instance)
       (\<lambda>_. Ret (Returned 5))"

definition reconcileResources :: "operator_lib \<Rightarrow> reconciler \<Rightarrow> notifier option \<Rightarrow> claw_instance \<Rightarrow> int outcome oprog" where
  "reconcileResources lib r notify i =
     (let ns = ''clawbake-'' @ instance_name i in
      orFailed lib i ''NamespaceFailed'' (reconcileNamespace i ns) (
      orFailed lib i ''PVCFailed'' (reconcilePVC lib i ns) (
      orFailed lib i ''DeploymentFailed'' (reconcileDeployment lib r i ns) (
      orFailed lib i ''ServiceFailed'' (reconcileService r i ns) (
      orFailed lib i ''NetworkPolicyFailed'' (reconcileNetworkPolicy r i ns) (
      orReturn (ask (GetDeployment ns ''openclaw'') dec_deployment) (\<lambda>deploy.
        let i' = i\<lparr>ci_status := (ci_status i)\<lparr>st_namespace := ns\<rparr>\<rparr> in
        if de_readyReplicas deploy \<ge> 1 then declareRunning lib notify i' else declareStarting lib i')))))))"

definition Reconcile :: "operator_lib \<Rightarrow> reconciler \<Rightarrow> notifier option \<Rightarrow> string \<Rightarrow> string \<Rightarrow> int outcome oprog" where
  "Reconcile lib r notify namespace name =
     bind (ask (GetInstance namespace name) dec_instance) (\<lambda>x.
       case x of
         Inl e \<Rightarrow> Ret (if isNotFound e then Returned 0 else Failed e)
       | Inr i \<Rightarrow>
           if om_deleted (ci_meta i) \<noteq> None then reconcileDeletion lib i
           else ensureFinalizer lib i (\<lambda>i.
                advancePhase [] PhasePending i (\<lambda>i.
                advancePhase PhasePending PhaseCreating i (\<lambda>i.
                reconcileResources lib r notify i))))"

end
