(* ===== verification/OperatorSafety.thy ===== *)
theory OperatorSafety
  imports Operator
begin

text \<open>
  What a call of \<^verbatim>\<open>Reconcile\<close> may do, whatever the Kubernetes API answers: the order of its
  calls, the life cycle of the phase, when resources are deleted and when users are notified.
\<close>

section \<open>What the history of a call says\<close>

definition wrote_namespace :: "(ocall, oanswer) history \<Rightarrow> bool" where
  "wrote_namespace h \<longleftrightarrow> (\<exists>x. (WriteNamespace x, ADone None) \<in> set h)"
definition wrote_pvc :: "(ocall, oanswer) history \<Rightarrow> bool" where
  "wrote_pvc h \<longleftrightarrow> (\<exists>x. (WritePVC x, ADone None) \<in> set h)"
definition wrote_deployment :: "(ocall, oanswer) history \<Rightarrow> bool" where
  "wrote_deployment h \<longleftrightarrow> (\<exists>x. (WriteDeployment x, ADone None) \<in> set h)"
definition wrote_service :: "(ocall, oanswer) history \<Rightarrow> bool" where
  "wrote_service h \<longleftrightarrow> (\<exists>x. (WriteService x, ADone None) \<in> set h)"
definition wrote_netpol :: "(ocall, oanswer) history \<Rightarrow> bool" where
  "wrote_netpol h \<longleftrightarrow> (\<exists>x. (WriteNetpol x, ADone None) \<in> set h)"
definition saw_ready :: "(ocall, oanswer) history \<Rightarrow> bool" where
  "saw_ready h \<longleftrightarrow> (\<exists>ns n d. (GetDeployment ns n, ADeployment (Inr d)) \<in> set h \<and> de_readyReplicas d \<ge> 1)"
definition namespace_gone :: "(ocall, oanswer) history \<Rightarrow> bool" where
  "namespace_gone h \<longleftrightarrow> (\<exists>n. (DeleteNamespace n, ADone None) \<in> set h)
     \<or> (\<exists>n e. (GetNamespace n, ANamespace (Inl e)) \<in> set h \<and> isNotFound e)"

definition all_written :: "(ocall, oanswer) history \<Rightarrow> bool" where
  "all_written h \<longleftrightarrow> wrote_namespace h \<and> wrote_pvc h \<and> wrote_deployment h \<and> wrote_service h \<and> wrote_netpol h"

lemmas history_defs = wrote_namespace_def wrote_pvc_def wrote_deployment_def wrote_service_def
  wrote_netpol_def saw_ready_def namespace_gone_def

text \<open>The phases of the instance, as read and as written, in order.\<close>

fun answered_phase :: "oanswer \<Rightarrow> string list" where
  "answered_phase (AInstance (Inr i)) = [phase i]"
| "answered_phase _ = []"

definition phases :: "(ocall, oanswer) history \<Rightarrow> string list" where
  "phases h = concat (map (\<lambda>(c, a). answered_phase a) h)"

lemma phases_simps [simp]: "phases [] = []" "phases (h @ h') = phases h @ phases h'"
  "phases ((c, a) # h) = answered_phase a @ phases h"
  by (simp_all add: phases_def)

definition is_post :: "ocall \<Rightarrow> bool" where
  "is_post c \<longleftrightarrow> (\<exists>u b. c = PostJSON u b)"

definition posted :: "(ocall, oanswer) history \<Rightarrow> bool" where
  "posted h \<longleftrightarrow> (\<exists>(c, a) \<in> set h. is_post c)"

section \<open>The life cycle of an instance\<close>

inductive lifecycle_step :: "string \<Rightarrow> string \<Rightarrow> bool" where
  created: "lifecycle_step [] PhasePending"
| picked_up: "lifecycle_step PhasePending PhaseCreating"
| waiting: "p \<notin> {[], PhasePending} \<Longrightarrow> lifecycle_step p PhaseStarting"
| ready: "p \<notin> {[], PhasePending} \<Longrightarrow> lifecycle_step p PhaseRunning"
| broken: "p \<notin> {[], PhasePending} \<Longrightarrow> lifecycle_step p PhaseFailed"
| deleted: "lifecycle_step p PhaseTerminating"

code_pred lifecycle_step .

inductive_simps lifecycle_step_iff: "lifecycle_step p p'"

lemma phases_distinct [simp]:
  "PhasePending \<noteq> []" "PhaseCreating \<noteq> []" "PhaseStarting \<noteq> []" "PhaseRunning \<noteq> []" "PhaseFailed \<noteq> []"
  "PhaseTerminating \<noteq> []" "PhaseCreating \<noteq> PhasePending" "PhaseStarting \<noteq> PhasePending"
  "PhaseRunning \<noteq> PhasePending" "PhaseFailed \<noteq> PhasePending" "PhaseTerminating \<noteq> PhasePending"
  "PhaseRunning \<noteq> PhaseCreating" "PhaseRunning \<noteq> PhaseStarting" "PhaseRunning \<noteq> PhaseFailed"
  "PhaseRunning \<noteq> PhaseTerminating" "PhaseStarting \<noteq> PhaseRunning" "PhaseFailed \<noteq> PhaseRunning"
  "PhaseTerminating \<noteq> PhaseRunning" "PhaseCreating \<noteq> PhaseRunning" "PhasePending \<noteq> PhaseRunning"
  "[] \<noteq> PhaseCreating" "PhasePending \<noteq> PhaseCreating" "[] \<noteq> PhasePending"
  "PhasePending \<noteq> PhaseTerminating" "PhaseCreating \<noteq> PhaseTerminating"
  by (simp_all add: phase_defs)

section \<open>The rely and the guarantee\<close>

text \<open>
  The rely: an update that succeeds answers with the stored object, which has the name, the spec
  and the status that were sent.
\<close>

definition same_instance :: "claw_instance \<Rightarrow> claw_instance \<Rightarrow> bool" where
  "same_instance i i' \<longleftrightarrow> instance_name i' = instance_name i \<and> ci_spec i' = ci_spec i \<and> ci_status i' = ci_status i"

definition api_answers :: "ocall \<Rightarrow> oanswer \<Rightarrow> bool" where
  "api_answers c a \<longleftrightarrow> (\<forall>i'. a = AInstance (Inr i') \<longrightarrow>
     (case c of
        UpdateStatus i \<Rightarrow> same_instance i i'
      | UpdateInstance i \<Rightarrow> same_instance i i'
      | GetInstance ns n \<Rightarrow> instance_name i' = n
      | _ \<Rightarrow> False))"

definition operator_allowed :: "operator_lib \<Rightarrow> (ocall, oanswer) history \<Rightarrow> ocall \<Rightarrow> bool" where
  "operator_allowed lib h c =
     (case c of
        FetchPVC x \<Rightarrow> wrote_namespace h
      | FetchDeployment x \<Rightarrow> wrote_pvc h
      | FetchService x \<Rightarrow> wrote_deployment h
      | FetchNetpol x \<Rightarrow> wrote_service h
      | GetDeployment ns n \<Rightarrow> all_written h
      | UpdateStatus i \<Rightarrow>
          phases h \<noteq> [] \<and> lifecycle_step (last (phases h)) (phase i)
          \<and> (phase i = PhaseRunning \<longrightarrow> all_written h \<and> saw_ready h)
      | UpdateInstance i \<Rightarrow> has_finalizer lib i \<or> namespace_gone h
      | PostJSON u b \<Rightarrow>
          \<not> posted h \<and> (\<exists>ps p. phases h = ps @ [p, PhaseRunning] \<and> p \<noteq> PhaseRunning)
      | _ \<Rightarrow> True)"

lemma api_answers_simps [simp]:
  "api_answers (UpdateStatus i) (AInstance (Inr i')) = same_instance i i'"
  "api_answers (UpdateInstance i) (AInstance (Inr i')) = same_instance i i'"
  "api_answers (GetInstance ns n) (AInstance (Inr i')) = (instance_name i' = n)"
  by (simp_all add: api_answers_def)

lemma other_answer_phase:
  "api_answers c a \<Longrightarrow> \<not> (\<exists>i. c = UpdateStatus i \<or> c = UpdateInstance i) \<Longrightarrow> \<not> (\<exists>ns n. c = GetInstance ns n) \<Longrightarrow>
   answered_phase a = []"
  by (cases a rule: answered_phase.cases) (auto simp: api_answers_def split: ocall.splits)

section \<open>Resources\<close>

definition quiet :: "(ocall, oanswer) history \<Rightarrow> bool" where
  "quiet t \<longleftrightarrow> phases t = [] \<and> \<not> posted t"

lemma quiet_simps [simp]: "quiet []" "quiet (t @ t') \<longleftrightarrow> quiet t \<and> quiet t'"
  by (auto simp: quiet_def posted_def)

text \<open>What a resource step leaves behind: a quiet piece of history, with the write if it succeeded.\<close>

definition resource_post ::
  "('o \<Rightarrow> ocall) \<Rightarrow> (ocall, oanswer) history \<Rightarrow> (ocall, oanswer) history \<Rightarrow> unit outcome \<Rightarrow> bool"
where
  "resource_post write h h' x \<longleftrightarrow>
     (\<exists>t. h' = h @ t \<and> quiet t \<and> (x = Returned () \<longrightarrow> (\<exists>x. (write x, ADone None) \<in> set t)))"

definition plain_call :: "ocall \<Rightarrow> bool" where
  "plain_call c \<longleftrightarrow> (case c of GetInstance _ _ \<Rightarrow> False | UpdateStatus _ \<Rightarrow> False | UpdateInstance _ \<Rightarrow> False
     | PostJSON _ _ \<Rightarrow> False | _ \<Rightarrow> True)"

lemma quiet_call: "plain_call c \<Longrightarrow> api_answers c a \<Longrightarrow> quiet [(c, a)]"
  using other_answer_phase [of c a]
  by (cases c) (auto simp: plain_call_def quiet_def posted_def is_post_def)

lemma dec_done_None: "dec_done a = None \<Longrightarrow> a = ADone None"
  by (cases a) auto

lemma dec_instance_Inr: "dec_instance a = Inr i \<Longrightarrow> a = AInstance (Inr i)"
  by (cases a) auto

lemma dec_deployment_Inr: "dec_deployment a = Inr d \<Longrightarrow> a = ADeployment (Inr d)"
  by (cases a) auto

lemma rg_createOrUpdate:
  assumes "operator_allowed lib h (fetch obj)" "\<And>h' x. operator_allowed lib h' (write x)"
    "\<And>x. plain_call (fetch x)" "\<And>x. plain_call (write x)"
  shows "rg api_answers (operator_allowed lib) h (createOrUpdate fetch dec write mutate obj) (resource_post write h)"
proof -
  have q: "quiet [(fetch x, a)]" if "api_answers (fetch x) a" for x a
    using quiet_call assms(3) that by blast
  have q2: "quiet [(fetch x, a), (write y, b)]" if "api_answers (fetch x) a" "api_answers (write y) b" for x y a b
    using quiet_call [OF assms(4) that(2)] q [OF that(1)] quiet_simps(2) [of "[(fetch x, a)]" "[(write y, b)]"] by simp
  show ?thesis
    using assms(1,2) q q2
    by (auto simp: createOrUpdate_def orReturn_def resource_post_def split: sum.split outcome.split option.split
        dest: dec_done_None)
qed

lemma rg_orFailed:
  assumes "rg R G h p P" "\<And>h'. P h' (Returned ()) \<Longrightarrow> rg R G h' k Q"
    "\<And>h' e. P h' (Failed e) \<Longrightarrow> rg R G h' (setFailed lib i reason e) Q" "\<And>h' m. P h' (Panicked m) \<Longrightarrow> Q h' (Panicked m)"
  shows "rg R G h (orFailed lib i reason p k) Q"
  unfolding orFailed_def rg_bind
  by (rule rg_post [OF assms(1)]) (use assms(2-4) in \<open>auto split: outcome.split\<close>)

text \<open>The resource steps.\<close>

lemma rg_reconcileNamespace:
  "rg api_answers (operator_allowed lib) h (reconcileNamespace i ns) (resource_post WriteNamespace h)"
  unfolding reconcileNamespace_def
  by (rule rg_createOrUpdate) (simp_all add: operator_allowed_def plain_call_def)

lemma rg_reconcilePVC:
  "wrote_namespace h \<Longrightarrow>
   rg api_answers (operator_allowed lib) h (reconcilePVC lib' i ns) (resource_post WritePVC h)"
  unfolding reconcilePVC_def
  by (rule rg_createOrUpdate) (simp_all add: operator_allowed_def plain_call_def)

lemma rg_reconcileDeployment:
  "wrote_pvc h \<Longrightarrow>
   rg api_answers (operator_allowed lib) h (reconcileDeployment lib' r i ns) (resource_post WriteDeployment h)"
  unfolding reconcileDeployment_def
  by (rule rg_createOrUpdate) (simp_all add: operator_allowed_def plain_call_def)

lemma rg_reconcileService:
  "wrote_deployment h \<Longrightarrow>
   rg api_answers (operator_allowed lib) h (reconcileService r i ns) (resource_post WriteService h)"
  unfolding reconcileService_def
  by (rule rg_createOrUpdate) (simp_all add: operator_allowed_def plain_call_def)

lemma rg_reconcileNetworkPolicy:
  "wrote_service h \<Longrightarrow>
   rg api_answers (operator_allowed lib) h (reconcileNetworkPolicy r i ns) (resource_post WriteNetpol h)"
  unfolding reconcileNetworkPolicy_def
  by (rule rg_createOrUpdate) (simp_all add: operator_allowed_def plain_call_def)

text \<open>Where the code is while it works on resources: a phase has been recorded.\<close>

definition working :: "(ocall, oanswer) history \<Rightarrow> claw_instance \<Rightarrow> bool" where
  "working h i \<longleftrightarrow> phases h \<noteq> [] \<and> last (phases h) = phase i \<and> phase i \<notin> {[], PhasePending} \<and> \<not> posted h"

lemma working_quiet: "working h i \<Longrightarrow> quiet t \<Longrightarrow> working (h @ t) i"
  by (auto simp: working_def quiet_def posted_def)

lemma set_ready_simps [simp]:
  "phase (set_ready lib s r m i) = phase i" "ci_meta (set_ready lib s r m i) = ci_meta i"
  "ci_spec (set_ready lib s r m i) = ci_spec i"
  by (simp_all add: set_ready_def)

lemma allowed_simps [simp]:
  "operator_allowed lib h (RecordEvent a b c)" "operator_allowed lib h (GetNamespace n)"
  "operator_allowed lib h (DeleteNamespace x)" "operator_allowed lib h (GetInstance ns n)"
  by (simp_all add: operator_allowed_def)

lemma rg_setFailed:
  "working h i \<Longrightarrow> rg api_answers (operator_allowed lib) h (setFailed lib i reason e) (\<lambda>_ _. True)"
  by (auto simp: setFailed_def orReturn_def operator_allowed_def working_def lifecycle_step_iff split: sum.split)

lemma resource_step:
  assumes "working h i" "rg api_answers (operator_allowed lib) h p (resource_post write h)"
    "\<And>t x. working (h @ t) i \<Longrightarrow> (write x, ADone None) \<in> set t \<Longrightarrow>
       rg api_answers (operator_allowed lib) (h @ t) k (\<lambda>_ _. True)"
  shows "rg api_answers (operator_allowed lib) h (orFailed lib i reason p k) (\<lambda>_ _. True)"
  by (rule rg_orFailed [OF assms(2)])
    (use assms(1,3) working_quiet in \<open>auto simp: resource_post_def intro!: rg_setFailed\<close>)

section \<open>Notifiers\<close>

text \<open>
  The contract of the \<^verbatim>\<open>Notifier\<close> interface: a notification makes at most one call, which
  posts the instance and its user.
\<close>

locale notifier =
  fixes notify :: notifier
  assumes notify_once:
    "rg (\<lambda>_ _. True) (\<lambda>h' c. h' = h \<and> (\<exists>url. c = PostJSON url (ready_payload n u))) h (notify n u) (\<lambda>_ _. True)"
begin

lemma rg_notify:
  assumes "\<And>u b. operator_allowed lib h (PostJSON u b)"
  shows "rg api_answers (operator_allowed lib) h (bind (notify n u) (\<lambda>_. Ret (Returned 0))) (\<lambda>_ _. True)"
  unfolding rg_bind
  by (rule rg_conseq [OF notify_once]) (use assms in auto)

lemma rg_declareRunning:
  assumes "working h i" "all_written h" "saw_ready h" "m \<in> {None, Some notify}"
  shows "rg api_answers (operator_allowed lib) h (declareRunning lib m i) (\<lambda>_ _. True)"
proof -
  define i' where "i' = set_ready lib ''True'' ''ReconcileComplete'' ''All resources reconciled successfully'' (set_phase PhaseRunning i)"
  have up: "operator_allowed lib h (UpdateStatus i')"
    using assms(1-3) by (simp add: operator_allowed_def i'_def working_def lifecycle_step_iff)
  have post: "operator_allowed lib (h @ [(UpdateStatus i', AInstance (Inr j)), (RecordEvent a b c, e)]) (PostJSON u d)"
    if "same_instance i' j" "api_answers (RecordEvent a b c) e" "phase i \<noteq> PhaseRunning" for j a b c e u d
  proof -
    have "phase j = PhaseRunning" using that(1) by (simp add: same_instance_def i'_def)
    moreover have "quiet [(RecordEvent a b c, e)]" using that(2) by (intro quiet_call) (simp_all add: plain_call_def)
    moreover obtain ps where "phases h = ps @ [phase i]"
      using assms(1) unfolding working_def by (metis append_butlast_last_id)
    ultimately show ?thesis
      using assms(1) that(3) by (auto simp: operator_allowed_def quiet_def posted_def working_def is_post_def)
  qed
  show ?thesis
  proof (cases "m = Some notify \<and> phase i \<noteq> PhaseRunning")
    case True
    then show ?thesis
      using up post
      by (auto simp: declareRunning_def orReturn_def i'_def [symmetric] split: sum.split
          intro!: rg_notify dest!: dec_instance_Inr)
  next
    case False
    then show ?thesis
      using up assms(4)
      by (auto simp: declareRunning_def orReturn_def Let_def i'_def [symmetric] split: sum.split)
  qed
qed

lemma rg_declareStarting:
  "working h i \<Longrightarrow> rg api_answers (operator_allowed lib) h (declareStarting lib i) (\<lambda>_ _. True)"
  by (auto simp: declareStarting_def orReturn_def operator_allowed_def working_def lifecycle_step_iff split: sum.split)

lemma rg_finish:
  assumes "working h i" "all_written h" "m \<in> {None, Some notify}"
  shows "rg api_answers (operator_allowed lib) h (orReturn (ask (GetDeployment ns n) dec_deployment)
      (\<lambda>deploy. let i' = i\<lparr>ci_status := (ci_status i)\<lparr>st_namespace := ns\<rparr>\<rparr> in
        if de_readyReplicas deploy \<ge> 1 then declareRunning lib m i' else declareStarting lib i')) (\<lambda>_ _. True)"
proof -
  let ?i = "i\<lparr>ci_status := (ci_status i)\<lparr>st_namespace := ns\<rparr>\<rparr>"
  have w: "working (h @ [(GetDeployment ns n, a)]) ?i" if "api_answers (GetDeployment ns n) a" for a
    using working_quiet [OF assms(1) quiet_call [OF _ that]] by (simp add: plain_call_def working_def)
  have aw: "all_written (h @ [x])" for x using assms(2) by (auto simp: all_written_def history_defs)
  have ok: "operator_allowed lib h (GetDeployment ns n)" using assms(2) by (simp add: operator_allowed_def)
  have sr: "saw_ready (h @ [(GetDeployment ns n, ADeployment (Inr d))])" if "1 \<le> de_readyReplicas d" for d
    using that by (auto simp: saw_ready_def)
  show ?thesis
    using ok w aw sr assms(3)
    by (auto simp: orReturn_def Let_def split: sum.split
        intro!: rg_declareRunning rg_declareStarting dest!: dec_deployment_Inr)
qed

lemma rg_reconcileResources:
  assumes "working h i" "m \<in> {None, Some notify}"
  shows "rg api_answers (operator_allowed lib) h (reconcileResources lib r m i) (\<lambda>_ _. True)"
proof -
  let ?ns = "''clawbake-'' @ instance_name i"
  note post = resource_step [OF _ rg_reconcileNamespace] resource_step [OF _ rg_reconcilePVC]
    resource_step [OF _ rg_reconcileDeployment] resource_step [OF _ rg_reconcileService]
    resource_step [OF _ rg_reconcileNetworkPolicy]
  show ?thesis
    unfolding reconcileResources_def Let_def [of ?ns]
    apply (rule post(1) [OF assms(1)])
    apply (rule post(2), assumption)
     apply (fastforce simp: wrote_namespace_def)
    apply (rule post(3), assumption)
     apply (fastforce simp: wrote_pvc_def)
    apply (rule post(4), assumption)
     apply (fastforce simp: wrote_deployment_def)
    apply (rule post(5), assumption)
     apply (fastforce simp: wrote_service_def)
    apply (rule rg_finish [OF _ _ assms(2)], assumption)
    apply (auto simp: all_written_def history_defs)
    done
qed

end

section \<open>Reconcile\<close>

definition started :: "(ocall, oanswer) history \<Rightarrow> claw_instance \<Rightarrow> bool" where
  "started h i \<longleftrightarrow> phases h \<noteq> [] \<and> last (phases h) = phase i \<and> \<not> posted h"

lemma started_answer:
  "started h i \<Longrightarrow> \<not> is_post c \<Longrightarrow> started (h @ [(c, AInstance (Inr i'))]) i'"
  by (auto simp: started_def posted_def)

lemma rg_advancePhase:
  assumes "started h i" "lifecycle_step p p'" "p' \<noteq> PhaseRunning"
    "\<And>h i'. started h i' \<Longrightarrow> phase i' = p' \<or> phase i' = phase i \<and> phase i \<noteq> p \<Longrightarrow> rg api_answers (operator_allowed lib) h (k i') Q"
    "\<And>h e. Q h (Failed e)"
  shows "rg api_answers (operator_allowed lib) h (advancePhase p p' i k) Q"
  using assms started_answer
  by (auto simp: advancePhase_def orReturn_def operator_allowed_def started_def is_post_def same_instance_def
      posted_def split: sum.split dest!: dec_instance_Inr)

lemma rg_ensureFinalizer:
  assumes "finalizer_laws lib" "started h i"
    "\<And>h i'. started h i' \<Longrightarrow> rg api_answers (operator_allowed lib) h (k i') Q" "\<And>h e. Q h (Failed e)"
  shows "rg api_answers (operator_allowed lib) h (ensureFinalizer lib i k) Q"
proof -
  have "has_finalizer lib (add_finalizer lib i)"
    using assms(1) by (simp add: finalizer_laws_def has_finalizer_def add_finalizer_def)
  then show ?thesis
    using assms(2-4) started_answer
    by (auto simp: ensureFinalizer_def orReturn_def operator_allowed_def is_post_def split: sum.split
        dest!: dec_instance_Inr)
qed

lemma rg_reconcileDeletion:
  assumes "started h i"
  shows "rg api_answers (operator_allowed lib) h (reconcileDeletion lib i) (\<lambda>_ _. True)"
proof -
  have gone: "namespace_gone (h @ [x, (GetNamespace n, a)])" if "dec_namespace a = Inl e" "isNotFound e" for x n a e
    using that by (cases a) (auto simp: namespace_gone_def no_answer_def isNotFound_def)
  have gone': "namespace_gone (h @ [x, y, (DeleteNamespace n, a)])" if "dec_done a = None" for x y n a
    using dec_done_None [OF that] by (auto simp: namespace_gone_def)
  show ?thesis
    using assms gone gone'
    by (auto simp: reconcileDeletion_def orReturn_def deleteUserNamespace_def operator_allowed_def started_def
        lifecycle_step_iff split: sum.split option.split)
qed

context notifier
begin

lemma rg_Reconcile:
  assumes "finalizer_laws lib" "m \<in> {None, Some notify}"
  shows "rg api_answers (operator_allowed lib) [] (Reconcile lib r m ns n) (\<lambda>_ _. True)"
proof -
  have st: "started [(GetInstance ns n, AInstance (Inr i))] i" for i
    by (simp add: started_def posted_def is_post_def)
  have live: "rg api_answers (operator_allowed lib) h
      (ensureFinalizer lib i (\<lambda>i. advancePhase [] PhasePending i (\<lambda>i.
         advancePhase PhasePending PhaseCreating i (\<lambda>i. reconcileResources lib r m i)))) (\<lambda>_ _. True)"
    if "started h i" for h i
    by (rule rg_ensureFinalizer [OF assms(1) that], rule rg_advancePhase [OF _ created], assumption, simp,
        rule rg_advancePhase [OF _ picked_up], assumption, simp, rule rg_reconcileResources [OF _ assms(2)])
      (auto simp: started_def working_def)
  show ?thesis
    using st live rg_reconcileDeletion
    by (auto simp: Reconcile_def split: sum.split dest!: dec_instance_Inr)
qed

end

interpretation http: notifier "NotifyInstanceReady url_ok serverURL"
  by unfold_locales (auto simp: NotifyInstanceReady_def ask_def Let_def)

text \<open>A library that meets its laws.\<close>

definition sample_lib :: operator_lib where
  "sample_lib = \<lparr>ol_contains = (\<lambda>fs f. f \<in> set fs), ol_add = (\<lambda>fs f. if f \<in> set fs then fs else fs @ [f]),
     ol_remove = (\<lambda>fs f. filter (\<lambda>x. x \<noteq> f) fs),
     ol_setCondition = (\<lambda>cs c. c # filter (\<lambda>x. cn_type x \<noteq> cn_type c) cs), ol_quantity_ok = sample_quantity\<rparr>"

lemma sample_lib_laws: "finalizer_laws sample_lib"
  by (simp add: finalizer_laws_def sample_lib_def)



section \<open>Progress\<close>

text \<open>
  An API server that serves every call, for an instance \<open>i0\<close> that is not being deleted, whose
  deployment has \<open>ready\<close> ready replicas.
\<close>

definition cooperative :: "claw_instance \<Rightarrow> int \<Rightarrow> ocall \<Rightarrow> oanswer \<Rightarrow> bool" where
  "cooperative i0 ready c a =
     (case c of
        GetInstance ns n \<Rightarrow> a = AInstance (Inr i0)
      | UpdateInstance i \<Rightarrow> (\<exists>i'. a = AInstance (Inr i') \<and> same_instance i i')
      | UpdateStatus i \<Rightarrow> (\<exists>i'. a = AInstance (Inr i') \<and> same_instance i i')
      | FetchNamespace x \<Rightarrow> (\<exists>x. a = ANamespace (Inr x))
      | FetchPVC x \<Rightarrow> (\<exists>x. a = APVC (Inr x))
      | FetchDeployment x \<Rightarrow> (\<exists>x. a = ADeployment (Inr x))
      | FetchService x \<Rightarrow> (\<exists>x. a = AService (Inr x))
      | FetchNetpol x \<Rightarrow> (\<exists>x. a = ANetpol (Inr x))
      | GetDeployment ns n \<Rightarrow> (\<exists>d. a = ADeployment (Inr d) \<and> de_readyReplicas d = ready)
      | GetNamespace n \<Rightarrow> (\<exists>x. a = ANamespace (Inr x))
      | PostJSON u b \<Rightarrow> (\<exists>n. a = AStatusCode (Inr n))
      | _ \<Rightarrow> a = ADone None)"

lemma parse_list_ok: "quantities_of l \<subseteq> Collect quantity_ok \<Longrightarrow> \<exists>x. parse_list quantity_ok l = Returned x"
  by (auto simp: parse_list_def quantities_of_def MustParse_def)

definition quantities_ok :: "(string \<Rightarrow> bool) \<Rightarrow> claw_spec \<Rightarrow> bool" where
  "quantities_ok quantity_ok s \<longleftrightarrow>
     quantities_of (cr_requests (sp_resources s)) \<union> quantities_of (cr_limits (sp_resources s))
       \<union> {if cs_size (sp_storage s) = [] then ''5Gi'' else cs_size (sp_storage s)} \<subseteq> Collect quantity_ok"

lemma mutate_total:
  assumes "quantities_ok quantity_ok (ci_spec i)"
  shows "\<exists>d'. deployment_mutate quantity_ok r i d = Returned d'" "\<exists>p'. pvc_mutate quantity_ok i p = Returned p'"
  using assms parse_list_ok [of "cr_requests (sp_resources (ci_spec i))" quantity_ok]
    parse_list_ok [of "cr_limits (sp_resources (ci_spec i))" quantity_ok]
  by (auto simp: quantities_ok_def deployment_mutate_def buildResourceRequirements_def pvc_mutate_def MustParse_def Let_def)

definition step_done :: "(ocall, oanswer) history \<Rightarrow> (ocall, oanswer) history \<Rightarrow> unit outcome \<Rightarrow> bool" where
  "step_done h h' x \<longleftrightarrow> x = Returned () \<and> phases h' = phases h"

lemma rg_orFailed_done:
  "rg R G h p (step_done h) \<Longrightarrow> (\<And>h'. phases h' = phases h \<Longrightarrow> rg R G h' k Q) \<Longrightarrow>
   rg R G h (orFailed lib i reason p k) Q"
  by (rule rg_orFailed [of R G h p "step_done h"]) (auto simp: step_done_def)

lemma cooperative_steps:
  assumes "quantities_ok (ol_quantity_ok lib) (ci_spec i)"
  shows "rg (cooperative i0 n) (\<lambda>_ _. True) h (reconcileNamespace i ns) (step_done h)"
    "rg (cooperative i0 n) (\<lambda>_ _. True) h (reconcilePVC lib i ns) (step_done h)"
    "rg (cooperative i0 n) (\<lambda>_ _. True) h (reconcileDeployment lib r i ns) (step_done h)"
    "rg (cooperative i0 n) (\<lambda>_ _. True) h (reconcileService r i ns) (step_done h)"
    "rg (cooperative i0 n) (\<lambda>_ _. True) h (reconcileNetworkPolicy r i ns) (step_done h)"
  using mutate_total [OF assms]
  by (auto simp: reconcileNamespace_def reconcilePVC_def reconcileDeployment_def reconcileService_def
      reconcileNetworkPolicy_def createOrUpdate_def orReturn_def cooperative_def step_done_def
      namespace_mutate_def service_mutate_def netpol_mutate_def Let_def split: outcome.split)
    (metis outcome.distinct outcome.inject)+

definition settled :: "int \<Rightarrow> (ocall, oanswer) history \<Rightarrow> int outcome \<Rightarrow> bool" where
  "settled ready h x \<longleftrightarrow> phases h \<noteq> [] \<and>
     (if ready \<ge> 1 then x = Returned 0 \<and> last (phases h) = PhaseRunning
      else x = Returned 5 \<and> last (phases h) = PhaseStarting)"

context notifier
begin

lemma cooperative_notify:
  assumes "\<And>t. phases t = [] \<Longrightarrow> Q (h @ t)"
  shows "rg (cooperative i0 n) (\<lambda>_ _. True) h (notify a u) (\<lambda>h' _. Q h')"
proof -
  have "rg (cooperative i0 n) (\<lambda>h' c. \<exists>t. h' = h @ t \<and> phases t = []) h' p (\<lambda>h' _. \<exists>t. h' = h @ t \<and> phases t = [])"
    if "rg (\<lambda>_ _. True) (\<lambda>h' c. h' = h \<and> (\<exists>url. c = PostJSON url b)) h' p (\<lambda>_ _. True)" "\<exists>t. h' = h @ t \<and> phases t = []"
    for h' b and p :: "unit oprog"
    using that by (induction p arbitrary: h') (auto simp: cooperative_def)
  from this [OF notify_once] show ?thesis
    by (rule rg_conseq) (use assms in auto)
qed

lemma cooperative_finish:
  assumes "phases h \<noteq> []" "m \<in> {None, Some notify}"
  shows "rg (cooperative i0 n) (\<lambda>_ _. True) h (declareRunning lib m i) (\<lambda>h x. phases h \<noteq> [] \<and> x = Returned 0 \<and> last (phases h) = PhaseRunning)"
    "rg (cooperative i0 n) (\<lambda>_ _. True) h (declareStarting lib i) (\<lambda>h x. phases h \<noteq> [] \<and> x = Returned 5 \<and> last (phases h) = PhaseStarting)"
  using assms
  by (auto simp: declareRunning_def declareStarting_def orReturn_def cooperative_def same_instance_def Let_def rg_bind
      intro!: cooperative_notify)

lemma cooperative_resources:
  assumes "quantities_ok (ol_quantity_ok lib) (ci_spec i)" "m \<in> {None, Some notify}" "phases h \<noteq> []"
  shows "rg (cooperative i0 n) (\<lambda>_ _. True) h (reconcileResources lib r m i) (settled n)"
proof -
  have fin: "rg (cooperative i0 n) (\<lambda>_ _. True) h (orReturn (ask (GetDeployment ns ''openclaw'') dec_deployment) (\<lambda>deploy.
        let i' = i\<lparr>ci_status := (ci_status i)\<lparr>st_namespace := ns\<rparr>\<rparr> in
        if de_readyReplicas deploy \<ge> 1 then declareRunning lib m i' else declareStarting lib i')) (settled n)"
    if "phases h \<noteq> []" for h ns
    using that assms(2)
    by (auto simp: orReturn_def cooperative_def settled_def [abs_def] Let_def intro!: cooperative_finish)
  note steps = cooperative_steps [OF assms(1), THEN rg_orFailed_done]
  show ?thesis
    unfolding reconcileResources_def Let_def [of "''clawbake-'' @ instance_name i"]
    by (rule steps(1), rule steps(2), rule steps(3), rule steps(4), rule steps(5), rule fin) (use assms(3) in simp)
qed

lemma cooperative_Reconcile:
  assumes "quantities_ok (ol_quantity_ok lib) (ci_spec i0)" "om_deleted (ci_meta i0) = None" "m \<in> {None, Some notify}"
  shows "rg (cooperative i0 n) (\<lambda>_ _. True) [] (Reconcile lib r m ns name) (settled n)"
proof -
  have adv: "rg (cooperative i0 n) (\<lambda>_ _. True) h (advancePhase p p' i k) (settled n)"
    if "phases h \<noteq> []" "ci_spec i = ci_spec i0"
      "\<And>h i. phases h \<noteq> [] \<Longrightarrow> ci_spec i = ci_spec i0 \<Longrightarrow> rg (cooperative i0 n) (\<lambda>_ _. True) h (k i) (settled n)"
    for h p p' i k
    using that by (auto simp: advancePhase_def orReturn_def cooperative_def same_instance_def)
  have live: "rg (cooperative i0 n) (\<lambda>_ _. True) h
      (advancePhase [] PhasePending i (\<lambda>i. advancePhase PhasePending PhaseCreating i (\<lambda>i. reconcileResources lib r m i))) (settled n)"
    if "phases h \<noteq> []" "ci_spec i = ci_spec i0" for h i
    by (rule adv [OF that], rule adv, assumption, assumption, rule cooperative_resources) (use assms in auto)
  have "ensureFinalizer lib i0 k = k i0 \<or> ensureFinalizer lib i0 k = orReturn (ask (UpdateInstance (add_finalizer lib i0)) dec_instance) k" for k
    by (simp add: ensureFinalizer_def)
  moreover have "ci_spec (add_finalizer lib i0) = ci_spec i0" by (simp add: add_finalizer_def)
  ultimately show ?thesis
    using assms(2) live
    by (auto simp: Reconcile_def ensureFinalizer_def orReturn_def cooperative_def same_instance_def)
qed

end

text \<open>Progress: when the API server serves every call and the instance's quantities are
  valid, one call of Reconcile brings an instance that is not being deleted, from whatever phase,
  to Running if its deployment has a ready replica, and otherwise to Starting, asking to be called
  again in five seconds.\<close>

theorem Reconcile_progress:
  assumes "quantities_ok (ol_quantity_ok lib) (ci_spec i0)" "om_deleted (ci_meta i0) = None"
  shows "rg (cooperative i0 ready) (\<lambda>_ _. True) []
    (Reconcile lib r (Some (NotifyInstanceReady url_ok serverURL)) ns name) (settled ready)"
  using http.cooperative_Reconcile [OF assms] by simp

lemma Reconcile_progress_witness:
  "rg (cooperative sample_instance 1) (\<lambda>_ _. True) []
    (Reconcile sample_lib sample_reconciler (Some (NotifyInstanceReady (\<lambda>_. True) ''http://s'')) ''clawbake'' ''u1'') (settled 1)"
  by (rule Reconcile_progress)
    (auto simp: quantities_ok_def quantities_of_def sample_lib_def sample_instance_def sample_resources_def
      sample_quantity_def named_meta_def empty_meta_def)

end
