(* ===== verification/System.thy ===== *)
theory System
  imports Routes BotSafety OperatorSafety
begin

text \<open>
  The parts together: any number of requests, Slack tasks and reconciliations run at once, one call
  at a time in any order, against one collection of \<^verbatim>\<open>ClawInstance\<close> objects. Every call may also fail, and a
  write that reports an error may still have happened. The specification of the whole: a map from
  users to what their instance is to be, which is created, edited and removed.
\<close>

section \<open>Objects\<close>

type_synonym store = "string \<rightharpoonup> claw_instance"

text \<open>
  The API server gives each object it writes a new version and refuses an update of another version
  than the one it holds. Since no version is given twice, it determines the name and the specification
  it was given for: \<open>vs\<close> is this map.
\<close>

type_synonym versions = "string \<Rightarrow> string \<times> claw_spec"

abbreviation version_of :: "claw_instance \<Rightarrow> string" where
  "version_of i \<equiv> om_version (ci_meta i)"

definition own_name :: "claw_instance \<Rightarrow> bool" where
  "own_name i \<longleftrightarrow> sp_userId (ci_spec i) = instance_name i"

definition stored :: "versions \<Rightarrow> claw_instance \<Rightarrow> bool" where
  "stored vs i \<longleftrightarrow> own_name i \<and> vs (version_of i) = (instance_name i, ci_spec i)"

definition store_ok :: "versions \<Rightarrow> store \<Rightarrow> bool" where
  "store_ok vs s \<longleftrightarrow> (\<forall>n i. s n = Some i \<longrightarrow> instance_name i = n \<and> stored vs i)"

text \<open>What the API server keeps of an object it is given: its name and its specification.\<close>

definition written_as :: "versions \<Rightarrow> claw_instance \<Rightarrow> claw_instance \<Rightarrow> bool" where
  "written_as vs i i' \<longleftrightarrow> instance_name i' = instance_name i \<and> ci_spec i' = ci_spec i
     \<and> vs (version_of i') = (instance_name i', ci_spec i')"

text \<open>Creating needs a free name; updating needs the version that is stored. Deleting an object with finalizers marks it.\<close>

definition created :: "versions \<Rightarrow> claw_instance \<Rightarrow> store \<Rightarrow> claw_instance \<Rightarrow> store \<Rightarrow> bool" where
  "created vs i s i' s' \<longleftrightarrow> s (instance_name i) = None \<and> written_as vs i i' \<and> s' = s(instance_name i \<mapsto> i')"

definition up_to_date :: "claw_instance \<Rightarrow> store \<Rightarrow> bool" where
  "up_to_date i s \<longleftrightarrow> (\<exists>old. s (instance_name i) = Some old \<and> version_of old = version_of i)"

definition updated :: "versions \<Rightarrow> claw_instance \<Rightarrow> store \<Rightarrow> claw_instance \<Rightarrow> store \<Rightarrow> bool" where
  "updated vs i s i' s' \<longleftrightarrow> up_to_date i s \<and> written_as vs i i' \<and> s' = s(instance_name i \<mapsto> i')"

definition removed :: "versions \<Rightarrow> claw_instance \<Rightarrow> store \<Rightarrow> store \<Rightarrow> bool" where
  "removed vs i s s' \<longleftrightarrow> s' = s(instance_name i := None)
     \<or> (\<exists>old marked. s (instance_name i) = Some old \<and> written_as vs old marked \<and> s' = s(instance_name i \<mapsto> marked))"

definition status_updated :: "versions \<Rightarrow> claw_instance \<Rightarrow> store \<Rightarrow> claw_instance \<Rightarrow> store \<Rightarrow> bool" where
  "status_updated vs i s i' s' \<longleftrightarrow> (\<exists>old. s (instance_name i) = Some old \<and> version_of old = version_of i
     \<and> written_as vs old i' \<and> ci_status i' = ci_status i \<and> s' = s(instance_name i \<mapsto> i'))"

text \<open>The API server and the rest of the outside, as the server and the bot see it.\<close>

definition web_step :: "versions \<Rightarrow> store \<Rightarrow> scall \<Rightarrow> sanswer \<Rightarrow> store \<Rightarrow> bool" where
  "web_step vs s c a s' = (case c of
     GetObj ns n \<Rightarrow> s' = s \<and> (\<forall>i. a = AObj (Inr i) \<longrightarrow> s n = Some i)
   | ListObjs ns \<Rightarrow> s' = s \<and> (\<forall>items. a = AObjs (Inr items) \<longrightarrow> set items \<subseteq> ran s)
   | CreateObj i \<Rightarrow> (\<exists>i'. created vs i s i' s' \<and> (\<forall>x. a = AObj (Inr x) \<longrightarrow> x = i')) \<or> s' = s \<and> (\<forall>x. a \<noteq> AObj (Inr x))
   | UpdateObj i \<Rightarrow> (\<exists>i'. updated vs i s i' s') \<or> s' = s \<and> a \<noteq> AError None
   | DeleteObj i \<Rightarrow> removed vs i s s' \<or> s' = s \<and> a \<noteq> AError None
   | _ \<Rightarrow> s' = s)"

text \<open>The same for the operator, whose removal of the last finalizer may end an object.\<close>

definition operator_step :: "versions \<Rightarrow> store \<Rightarrow> ocall \<Rightarrow> oanswer \<Rightarrow> store \<Rightarrow> bool" where
  "operator_step vs s c a s' = (case c of
     Operator.GetInstance ns n \<Rightarrow> s' = s \<and> (\<forall>i. a = AInstance (Inr i) \<longrightarrow> s n = Some i)
   | UpdateInstance i \<Rightarrow>
       (\<exists>i'. (updated vs i s i' s' \<or> up_to_date i s \<and> written_as vs i i' \<and> s' = s(instance_name i := None))
          \<and> (\<forall>x. a = AInstance (Inr x) \<longrightarrow> x = i'))
       \<or> s' = s \<and> (\<forall>x. a \<noteq> AInstance (Inr x))
   | UpdateStatus i \<Rightarrow> (\<exists>i'. status_updated vs i s i' s' \<and> (\<forall>x. a = AInstance (Inr x) \<longrightarrow> x = i'))
       \<or> s' = s \<and> (\<forall>x. a \<noteq> AInstance (Inr x))
   | _ \<Rightarrow> s' = s \<and> (\<forall>x. a \<noteq> AInstance (Inr x)))"

section \<open>The specification\<close>

type_synonym plan = "string \<rightharpoonup> claw_spec"

definition plan_of :: "store \<Rightarrow> plan" where
  "plan_of s n = map_option ci_spec (s n)"

definition edited :: "string \<Rightarrow> claw_spec \<Rightarrow> claw_spec" where
  "edited c sp = sp\<lparr>sp_gatewayConfig := compactJSON c, sp_configGeneration := sp_configGeneration sp + 1\<rparr>"

inductive plan_step :: "plan \<Rightarrow> plan \<Rightarrow> bool" where
  create: "f u = None \<Longrightarrow> sp_userId sp = u \<Longrightarrow> sp_configGeneration sp = 0 \<Longrightarrow> plan_step f (f(u \<mapsto> sp))"
| edit: "f u = Some sp \<Longrightarrow> json_valid c \<Longrightarrow> plan_step f (f(u \<mapsto> edited c sp))"
| remove: "plan_step f (f(u := None))"

inductive_cases plan_stepE: "plan_step f f'"

section \<open>What each program guarantees\<close>

definition web_answer :: "versions \<Rightarrow> scall \<Rightarrow> sanswer \<Rightarrow> bool" where
  "web_answer vs c a \<longleftrightarrow> keeps_spec c a
     \<and> (\<forall>ns n i. c = GetObj ns n \<and> a = AObj (Inr i) \<longrightarrow> stored vs i)"

definition web_call :: "versions \<Rightarrow> scall \<Rightarrow> bool" where
  "web_call vs c = (case c of
     CreateObj i \<Rightarrow> own_name i \<and> sp_configGeneration (ci_spec i) = 0
   | UpdateObj i \<Rightarrow> (\<exists>old c. stored vs old \<and> json_valid c \<and> i = with_config (compactJSON c) old)
   | _ \<Rightarrow> True)"

definition web_ok :: "versions \<Rightarrow> 'a sprog \<Rightarrow> bool" where
  "web_ok vs p \<longleftrightarrow> (\<exists>h. rg (web_answer vs) (\<lambda>_. web_call vs) h p (\<lambda>_ _. True))"

definition operator_answer :: "versions \<Rightarrow> ocall \<Rightarrow> oanswer \<Rightarrow> bool" where
  "operator_answer vs c a \<longleftrightarrow> (\<forall>i. a = AInstance (Inr i) \<longrightarrow> stored vs i)"

definition operator_call :: "versions \<Rightarrow> ocall \<Rightarrow> bool" where
  "operator_call vs c = (case c of UpdateInstance i \<Rightarrow> stored vs i | _ \<Rightarrow> True)"

definition operator_ok :: "versions \<Rightarrow> 'a oprog \<Rightarrow> bool" where
  "operator_ok vs p \<longleftrightarrow> (\<exists>h. rg (operator_answer vs) (\<lambda>_. operator_call vs) h p (\<lambda>_ _. True))"

lemma rg_history:
  assumes "rg R G h p Q" "\<And>c r. R' c r \<Longrightarrow> R c r" "\<forall>(c, r) \<in> set h. R' c r"
  shows "rg R' (\<lambda>h c. G h c \<and> (\<forall>(c, r) \<in> set h. R' c r)) h p Q"
  using assms by (induction p arbitrary: h) auto

lemma authorised_web_call:
  assumes "authorised sv known rq hist c" "\<forall>(c, r) \<in> set hist. web_answer vs c r"
  shows "web_call vs c"
proof (cases c)
  case (UpdateObj i)
  with assms(1) obtain n old cfg where "fetched sv hist n old" "json_valid cfg" "i = with_config (compactJSON cfg) old"
    by (auto simp: authorised_def identity_call_def may_def)
  moreover from this(1) have "stored vs old" using assms(2) by (auto simp: fetched_def web_answer_def)
  ultimately show ?thesis using UpdateObj by (auto simp: web_call_def)
next
  case (CreateObj i)
  with assms(1) show ?thesis by (auto simp: authorised_def identity_call_def may_def web_call_def own_name_def)
qed (simp_all add: web_call_def)

lemma guarded_web_ok:
  assumes "\<And>r'. r = Some r' \<Longrightarrow> route_safe sv (signed_in sv) (rt_handler r')"
  shows "web_ok vs (serve_request sv r rq)"
proof -
  have "rg (web_answer vs) (\<lambda>h c. authorised sv (signed_in sv) rq h c \<and> (\<forall>(c, r) \<in> set h. web_answer vs c r)) []
      (serve_request sv r rq) (authorised_reply sv (signed_in sv))"
    by (rule rg_history [OF serve_request_safe [OF assms]]) (auto simp: web_answer_def)
  then have "rg (web_answer vs) (\<lambda>_. web_call vs) [] (serve_request sv r rq) (\<lambda>_ _. True)"
    by (rule rg_conseq) (auto intro: authorised_web_call)
  then show ?thesis unfolding web_ok_def by blast
qed

lemma bot_web_call: "bot_may b sid hist c \<Longrightarrow> web_call vs c"
  by (auto simp: bot_may_def web_call_def own_name_def split: scall.splits query.splits)

lemma bot_ok_web:
  assumes "bot_ok b sid p"
  shows "rg (web_answer vs) (\<lambda>_. web_call vs) h p (\<lambda>_ _. True)"
proof -
  have "rg (\<lambda>_ _. True) (bot_may b sid) h p (\<lambda>_ _. True)" using assms by (simp add: bot_ok_def)
  then show ?thesis by (rule rg_conseq) (auto intro: bot_web_call)
qed

lemma open_route_web_ok:
  assumes "\<And>h. rg (web_answer vs) (\<lambda>_. web_call vs) h (rt_handler r rq None) (\<lambda>_ _. True)"
  shows "web_ok vs (serve_request sv (Some r) rq)"
proof (cases "isWebSocketUpgrade rq")
  case True
  then have "serve_request sv (Some r) rq = serve_request sv None rq"
    by (simp add: serve_request_def WebSocketMiddleware_def)
  then show ?thesis using guarded_web_ok [of None sv vs rq] by simp
next
  case False
  with assms show ?thesis by (auto simp: serve_request_def WebSocketMiddleware_def web_ok_def)
qed

lemma plain_web_call [simp]:
  "web_call vs SessionGet" "web_call vs (SessionSave x)" "web_call vs (OAuthExchange y)" "web_call vs (VerifyIDToken z)"
  "web_call vs (Query q)" "web_call vs (RandRead n)" "web_call vs (Spawn t)" "web_call vs Now" "web_call vs ReadBody"
  "web_call vs (SlackPost ch m)"
  by (simp_all add: web_call_def)

lemma login_web_ok: "r \<in> set (loginRoutes sv) \<Longrightarrow> rg (web_answer vs) (\<lambda>_. web_call vs) h (rt_handler r rq None) (\<lambda>_ _. True)"
  by (auto simp: loginRoutes_def oidcRoutes_def devRoutes_def LoginHandler_def CallbackHandler_def LogoutHandler_def
      DevLoginHandler_def randomState_def find_user_def finish_sign_in_def ensureDevUser_def orElse_def rowOrElse_def
      doneOrElse_def Let_def split: if_splits sum.splits option.splits prod.splits)

lemma slack_web_ok: "r \<in> set (slackRoutes b) \<Longrightarrow> rg (web_answer vs) (\<lambda>_. web_call vs) h (rt_handler r rq None) (\<lambda>_ _. True)"
proof -
  have e: "rg (web_answer vs) (\<lambda>_. web_call vs) h (HandleEvents b rq None) (\<lambda>_ _. True)" for h rq
    by (auto simp: HandleEvents_def orElse_def readBody_def ask_def split: option.splits sum.splits slack_event.splits)
  have c: "rg (web_answer vs) (\<lambda>_. web_call vs) h (HandleCommands b rq None) (\<lambda>_ _. True)" for h rq
    by (auto simp: HandleCommands_def Let_def split: sum.splits
        intro: bot_ok_web [OF handleCreate_ok] bot_ok_web [OF handleStatus_ok] bot_ok_web [OF handleDelete_ok]
          bot_ok_web [OF handleOpen_ok] bot_ok_web [OF handleHelp_ok])
  have v: "rg (web_answer vs) (\<lambda>_. web_call vs) h (verifySignature b nx rq None) (\<lambda>_ _. True)"
    if "\<And>h rq. rg (web_answer vs) (\<lambda>_. web_call vs) h (nx rq None) (\<lambda>_ _. True)" for nx h rq
    using that by (auto simp: verifySignature_def Let_def orElse_def readBody_def split: option.splits sum.splits)
  show "r \<in> set (slackRoutes b) \<Longrightarrow> ?thesis"
    by (auto simp: slackRoutes_def intro!: v e c)
qed

lemma public_web_ok: "r \<in> set (publicRoutes sv) \<Longrightarrow> rg (web_answer vs) (\<lambda>_. web_call vs) h (rt_handler r rq None) (\<lambda>_ _. True)"
  by (auto simp: publicRoutes_def HealthCheck_def NotifyInstanceReadyHandler_def split: sum.splits)

lemma request_web_ok: "r = None \<or> (\<exists>r'. r = Some r' \<and> r' \<in> set (RegisterRoutes sv b)) \<Longrightarrow> web_ok vs (serve_request sv r rq)"
  by (auto simp: RegisterRoutes_def intro: guarded_web_ok guarded_safe open_route_web_ok login_web_ok slack_web_ok
      public_web_ok split: option.splits)

lemma task_web_ok: "web_ok vs (run_task b t)"
proof (cases t)
  case (HandleMessage ch u m)
  then show ?thesis using bot_ok_web [OF handleMessage_ok] by (auto simp: web_ok_def)
next
  case (NotifyReady n u)
  then show ?thesis
    by (auto simp: web_ok_def bot_NotifyInstanceReady_def ask_def split: option.splits prod.splits)
qed

text \<open>The operator writes back the objects it read, their name and specification untouched.\<close>

lemma stored_simps [simp]:
  "stored vs (set_phase p i) = stored vs i" "stored vs (set_ready lib st r m i) = stored vs i"
  "stored vs (add_finalizer lib i) = stored vs i" "stored vs (remove_finalizer lib i) = stored vs i"
  "stored vs (i\<lparr>ci_status := st'\<rparr>) = stored vs i"
  by (simp_all add: stored_def own_name_def add_finalizer_def remove_finalizer_def)

lemma operator_answer_own [simp]:
  "operator_answer vs c (AInstance (Inr i)) = stored vs i"
  by (simp add: operator_answer_def)

lemma dec_instance_own: "operator_answer vs c a \<Longrightarrow> dec_instance a = Inr i \<Longrightarrow> stored vs i"
  by (cases a) (auto simp: no_answer_def)

lemma orReturn_ok:
  assumes "operator_call vs c" "\<And>h' i. stored vs i \<Longrightarrow> rg (operator_answer vs) (\<lambda>_. operator_call vs) h' (k i) (\<lambda>_ _. True)"
  shows "rg (operator_answer vs) (\<lambda>_. operator_call vs) h (orReturn (ask c dec_instance) k) (\<lambda>_ _. True)"
  using assms by (auto simp: orReturn_def split: sum.splits dest: dec_instance_own)

lemma operator_call_simps [simp]:
  "operator_call vs (UpdateStatus i)" "operator_call vs (UpdateInstance i) = stored vs i" "operator_call vs (RecordEvent a b c)"
  "operator_call vs (Operator.GetInstance ns n)" "operator_call vs (GetNamespace n)" "operator_call vs (DeleteNamespace x)"
  "operator_call vs (GetDeployment ns n)" "operator_call vs (PostJSON u p)"
  by (simp_all add: operator_call_def)

lemma createOrUpdate_ok:
  assumes "\<And>x. operator_call vs (f x)" "\<And>x. operator_call vs (w x)"
  shows "rg (operator_answer vs) (\<lambda>_. operator_call vs) h (createOrUpdate f dec w mut obj) (\<lambda>_ _. True)"
  using assms by (auto simp: createOrUpdate_def orReturn_def split: sum.splits outcome.splits option.splits)

lemma orFailed_ok:
  assumes "\<And>h. rg (operator_answer vs) (\<lambda>_. operator_call vs) h p (\<lambda>_ _. True)" "stored vs i"
    "\<And>h. rg (operator_answer vs) (\<lambda>_. operator_call vs) h k (\<lambda>_ _. True)"
  shows "rg (operator_answer vs) (\<lambda>_. operator_call vs) h (orFailed lib i reason p k) (\<lambda>_ _. True)"
  unfolding orFailed_def rg_bind
  by (rule rg_post [OF assms(1)])
    (auto simp: setFailed_def assms(3) intro!: orReturn_ok split: outcome.splits)

lemma userNamespace_ok: "rg (operator_answer vs) (\<lambda>_. operator_call vs) h (deleteUserNamespace n) (\<lambda>_ _. True)"
  by (auto simp: deleteUserNamespace_def rg_bind ask_def split: sum.splits)

lemma Reconcile_ok:
  assumes "\<And>h n u. rg (operator_answer vs) (\<lambda>_. operator_call vs) h (nt n u) (\<lambda>_ _. True)" "m \<in> {None, Some nt}"
  shows "operator_ok vs (Reconcile lib r m ns n)"
proof -
  have deletion: "rg (operator_answer vs) (\<lambda>_. operator_call vs) h (reconcileDeletion lib i) (\<lambda>_ _. True)" if "stored vs i" for h i
    using that
    by (auto simp: reconcileDeletion_def rg_bind intro!: orReturn_ok rg_post [OF userNamespace_ok]
        split: option.splits)
  have running: "rg (operator_answer vs) (\<lambda>_. operator_call vs) h (declareRunning lib m i) (\<lambda>_ _. True)" if "stored vs i" for h i
    using that assms
    by (auto simp: declareRunning_def Let_def rg_bind intro!: orReturn_ok rg_post [OF assms(1)] split: option.splits)
  have starting: "rg (operator_answer vs) (\<lambda>_. operator_call vs) h (declareStarting lib i) (\<lambda>_ _. True)" if "stored vs i" for h i
    using that by (auto simp: declareStarting_def intro!: orReturn_ok)
  have last: "rg (operator_answer vs) (\<lambda>_. operator_call vs) h (orReturn (ask (GetDeployment ns' d) dec_deployment) (\<lambda>deploy.
        let i' = i\<lparr>ci_status := (ci_status i)\<lparr>st_namespace := ns'\<rparr>\<rparr> in
        if de_readyReplicas deploy \<ge> 1 then declareRunning lib m i' else declareStarting lib i')) (\<lambda>_ _. True)"
    if "stored vs i" for h i ns' d
    using that by (auto simp: orReturn_def Let_def running starting split: sum.splits)
  have resources: "rg (operator_answer vs) (\<lambda>_. operator_call vs) h (reconcileResources lib r m i) (\<lambda>_ _. True)"
    if "stored vs i" for h i
    unfolding reconcileResources_def Let_def [of "''clawbake-'' @ instance_name i"]
      reconcileNamespace_def reconcilePVC_def reconcileDeployment_def reconcileService_def reconcileNetworkPolicy_def
    by (intro orFailed_ok createOrUpdate_ok last that) (simp_all add: operator_call_def)
  have phases: "rg (operator_answer vs) (\<lambda>_. operator_call vs) h (advancePhase p p' i k) (\<lambda>_ _. True)"
    if "stored vs i" "\<And>h i. stored vs i \<Longrightarrow> rg (operator_answer vs) (\<lambda>_. operator_call vs) h (k i) (\<lambda>_ _. True)" for h p p' i k
    using that by (auto simp: advancePhase_def intro!: orReturn_ok)
  have finalizer: "rg (operator_answer vs) (\<lambda>_. operator_call vs) h (ensureFinalizer lib i k) (\<lambda>_ _. True)"
    if "stored vs i" "\<And>h i. stored vs i \<Longrightarrow> rg (operator_answer vs) (\<lambda>_. operator_call vs) h (k i) (\<lambda>_ _. True)" for h i k
    using that by (auto simp: ensureFinalizer_def intro!: orReturn_ok)
  have "rg (operator_answer vs) (\<lambda>_. operator_call vs) [] (Reconcile lib r m ns n) (\<lambda>_ _. True)"
    by (auto simp: Reconcile_def intro!: deletion finalizer phases resources split: sum.splits dest: dec_instance_own)
  then show ?thesis unfolding operator_ok_def by blast
qed

section \<open>Everything at once\<close>

datatype process =
  Request "reply sprog"
| BotTask "unit sprog"
| Reconciliation "int outcome oprog"

text \<open>
  A deployment: the server, the bot if there is one, the operator with its settings. \<open>sys\<close>: the
  states it can reach from objects that are in order, as requests come in on any route, tasks and
  reconciliations start, and each goes on with one call at a time.
\<close>

record deployment =
  dp_server :: server
  dp_bot :: bot
  dp_hasBot :: bool
  dp_lib :: operator_lib
  dp_reconciler :: reconciler
  dp_serverURL :: string
  dp_notifies :: bool

definition dp_routes :: "deployment \<Rightarrow> route list" where
  "dp_routes d = RegisterRoutes (dp_server d) (if dp_hasBot d then Some (dp_bot d) else None)"

definition dp_notifier :: "deployment \<Rightarrow> notifier option" where
  "dp_notifier d = (if dp_notifies d then Some (NotifyInstanceReady (wl_urlOK (sv_lib (dp_server d))) (dp_serverURL d)) else None)"

inductive sys :: "deployment \<Rightarrow> versions \<Rightarrow> store \<Rightarrow> process list \<Rightarrow> store \<Rightarrow> bool" for d vs s0 where
  sys_init: "store_ok vs s0 \<Longrightarrow> sys d vs s0 [] s0"
| sys_request: "sys d vs s0 ps s \<Longrightarrow> r \<in> set (dp_routes d) \<Longrightarrow>
    sys d vs s0 (Request (serve_request (dp_server d) (Some r) rq) # ps) s"
| sys_no_route: "sys d vs s0 ps s \<Longrightarrow> sys d vs s0 (Request (serve_request (dp_server d) None rq) # ps) s"
| sys_task: "sys d vs s0 ps s \<Longrightarrow> sys d vs s0 (BotTask (run_task (dp_bot d) t) # ps) s"
| sys_reconcile: "sys d vs s0 ps s \<Longrightarrow>
    sys d vs s0 (Reconciliation (Reconcile (dp_lib d) (dp_reconciler d) (dp_notifier d) ns n) # ps) s"
| sys_request_call: "sys d vs s0 (ps @ Request (Call c k) # qs) s \<Longrightarrow> web_step vs s c a s' \<Longrightarrow>
    sys d vs s0 (ps @ Request (k a) # qs) s'"
| sys_task_call: "sys d vs s0 (ps @ BotTask (Call c k') # qs) s \<Longrightarrow> web_step vs s c a s' \<Longrightarrow>
    sys d vs s0 (ps @ BotTask (k' a) # qs) s'"
| sys_reconcile_call: "sys d vs s0 (ps @ Reconciliation (Call oc ko) # qs) s \<Longrightarrow> operator_step vs s oc oa s' \<Longrightarrow>
    sys d vs s0 (ps @ Reconciliation (ko oa) # qs) s'"

fun process_ok :: "versions \<Rightarrow> process \<Rightarrow> bool" where
  "process_ok vs (Request p) = web_ok vs p"
| "process_ok vs (BotTask p) = web_ok vs p"
| "process_ok vs (Reconciliation p) = operator_ok vs p"

lemma written_as_stored:
  "written_as vs i i' \<Longrightarrow> own_name i \<Longrightarrow> stored vs i' \<and> instance_name i' = instance_name i \<and> ci_spec i' = ci_spec i"
  by (simp add: written_as_def stored_def own_name_def)

lemma stored_own: "stored vs i \<Longrightarrow> own_name i"
  by (simp add: stored_def)

lemma own_name_with_config [simp]: "own_name (with_config c i) = own_name i" "instance_name (with_config c i) = instance_name i"
  by (simp_all add: own_name_def with_config_def)

lemma store_okD: "store_ok vs s \<Longrightarrow> s n = Some i \<Longrightarrow> instance_name i = n \<and> stored vs i"
  by (simp add: store_ok_def)

lemma store_ok_upd: "store_ok vs s \<Longrightarrow> instance_name i = n \<Longrightarrow> stored vs i \<Longrightarrow> store_ok vs (s(n \<mapsto> i))"
  by (simp add: store_ok_def)

lemma store_ok_del: "store_ok vs s \<Longrightarrow> store_ok vs (s(n := None))"
  by (simp add: store_ok_def)

lemma plan_of_upd:
  "plan_of (s(n \<mapsto> i)) = (plan_of s)(n \<mapsto> ci_spec i)" "plan_of (s(n := None)) = (plan_of s)(n := None)"
  by (auto simp: plan_of_def)

text \<open>An update that is not refused was made to the specification that is stored.\<close>

lemma up_to_date_spec:
  assumes "store_ok vs s" "stored vs old" "up_to_date i s" "version_of i = version_of old" "instance_name i = instance_name old"
  shows "plan_of s (instance_name old) = Some (ci_spec old)"
  using assms by (auto simp: up_to_date_def plan_of_def stored_def dest!: store_okD)

lemma plan_same: "plan_of s n = Some sp \<Longrightarrow> (plan_of s)(n \<mapsto> sp) = plan_of s"
  by auto

text \<open>
  One call of a program that keeps its guarantee keeps the objects in order, its answer meets the
  rely, and the plan takes at most one step.
\<close>

lemma web_step_ok:
  assumes "store_ok vs s" "web_call vs c" "web_step vs s c a s'"
  shows "store_ok vs s' \<and> web_answer vs c a \<and> (plan_step\<^sup>=\<^sup>=) (plan_of s) (plan_of s')"
proof (cases c)
  case (CreateObj i)
  show ?thesis
  proof (cases "s' = s")
    case True
    with assms CreateObj show ?thesis
      by (auto simp: web_step_def web_answer_def keeps_spec_def created_def written_as_def)
  next
    case False
    then obtain i' where i': "created vs i s i' s'" "\<forall>x. a = AObj (Inr x) \<longrightarrow> x = i'"
      using assms(3) CreateObj by (auto simp: web_step_def)
    have own: "own_name i" "sp_configGeneration (ci_spec i) = 0" using assms(2) CreateObj by (auto simp: web_call_def)
    have w: "stored vs i'" "instance_name i' = instance_name i" "ci_spec i' = ci_spec i"
      using i'(1) written_as_stored [OF _ own(1)] by (auto simp: created_def)
    have "plan_of s (instance_name i) = None" using i'(1) by (simp add: created_def plan_of_def)
    from plan_step.create [of "plan_of s" "instance_name i" "ci_spec i"] this own
    have "plan_step (plan_of s) (plan_of s')" using i'(1) w by (simp add: created_def plan_of_upd own_name_def)
    with i' w assms(1) CreateObj show ?thesis
      by (auto simp: created_def web_answer_def keeps_spec_def intro!: store_ok_upd)
  qed
next
  case (UpdateObj i)
  then obtain old cfg where old: "stored vs old" "json_valid cfg" "i = with_config (compactJSON cfg) old"
    using assms(2) by (auto simp: web_call_def)
  show ?thesis
  proof (cases "s' = s")
    case True
    with assms UpdateObj show ?thesis by (auto simp: web_answer_def keeps_spec_def)
  next
    case False
    then obtain i' where i': "updated vs i s i' s'" using assms(3) UpdateObj by (auto simp: web_step_def)
    have w: "stored vs i'" "instance_name i' = instance_name i" "ci_spec i' = ci_spec i"
      using i' written_as_stored stored_own [OF old(1)] old(3) by (auto simp: updated_def)
    have "plan_of s (instance_name old) = Some (ci_spec old)"
      using i' old by (intro up_to_date_spec [OF assms(1) old(1), of i]) (auto simp: updated_def with_config_def)
    from plan_step.edit [of "plan_of s" "instance_name old" "ci_spec old" cfg, OF this old(2)]
    have "plan_step (plan_of s) (plan_of s')"
      using i' w old(3) by (simp add: updated_def plan_of_upd) (simp add: edited_def with_config_def)
    with i' w assms(1) UpdateObj show ?thesis
      by (auto simp: updated_def web_answer_def keeps_spec_def intro!: store_ok_upd)
  qed
next
  case (DeleteObj i)
  have ans: "web_answer vs c a" by (simp add: DeleteObj web_answer_def keeps_spec_def)
  consider "s' = s" | "s' = s(instance_name i := None)"
    | old m where "s (instance_name i) = Some old" "written_as vs old m" "s' = s(instance_name i \<mapsto> m)"
    using assms(3) DeleteObj by (auto simp: web_step_def removed_def)
  then show ?thesis
  proof cases
    case 2
    then show ?thesis using assms(1) ans by (auto simp: plan_of_upd intro: store_ok_del plan_step.remove)
  next
    case 3
    note o = store_okD [OF assms(1) 3(1)]
    from written_as_stored [OF 3(2)] o have "stored vs m" "instance_name m = instance_name i" "ci_spec m = ci_spec old"
      by (auto dest: stored_own)
    moreover have "plan_of s (instance_name i) = Some (ci_spec old)" using 3(1) by (simp add: plan_of_def)
    ultimately show ?thesis
      using assms(1) ans 3(3) by (auto simp: plan_of_upd plan_same intro!: store_ok_upd)
  qed (use assms(1) ans in simp)
next
  case (GetObj ns n)
  with assms show ?thesis
    by (auto simp: web_step_def web_answer_def keeps_spec_def dest: store_okD)
qed (use assms in \<open>auto simp: web_step_def web_answer_def keeps_spec_def\<close>)

lemma operator_step_ok:
  assumes "store_ok vs s" "operator_call vs c" "operator_step vs s c a s'"
  shows "store_ok vs s' \<and> operator_answer vs c a \<and> (plan_step\<^sup>=\<^sup>=) (plan_of s) (plan_of s')"
proof -
  consider (get) ns n where "c = Operator.GetInstance ns n" | (upd) i where "c = UpdateInstance i" | (st) i where "c = UpdateStatus i"
    | (other) "s' = s" "\<And>i. a \<noteq> AInstance (Inr i)"
    using assms(3) by (cases c) (auto simp: operator_step_def)
  then show ?thesis
  proof cases
    case get
    with assms show ?thesis by (auto simp: operator_step_def operator_answer_def dest: store_okD)
  next
    case upd
    show ?thesis
    proof (cases "s' = s \<and> (\<forall>x. a \<noteq> AInstance (Inr x))")
      case True
      with assms(1) show ?thesis by (auto simp: operator_answer_def)
    next
      case False
      then obtain i' where i': "up_to_date i s" "written_as vs i i'" "s' = s(instance_name i \<mapsto> i') \<or> s' = s(instance_name i := None)"
        "\<forall>x. a = AInstance (Inr x) \<longrightarrow> x = i'"
        using assms(3) upd by (auto simp: operator_step_def updated_def)
      have i: "stored vs i" using assms(2) upd by (simp add: operator_call_def)
      from written_as_stored [OF i'(2) stored_own [OF i]]
      have w: "stored vs i'" "instance_name i' = instance_name i" "ci_spec i' = ci_spec i" by auto
      have "plan_of s (instance_name i) = Some (ci_spec i)" by (rule up_to_date_spec [OF assms(1) i i'(1)]) simp_all
      with i' w assms(1) show ?thesis
        by (auto simp: operator_answer_def plan_of_upd plan_same intro: store_ok_upd store_ok_del plan_step.remove)
    qed
  next
    case st
    show ?thesis
    proof (cases "s' = s \<and> (\<forall>x. a \<noteq> AInstance (Inr x))")
      case True
      with assms(1) show ?thesis by (auto simp: operator_answer_def)
    next
      case False
      then obtain i' old where i': "s (instance_name i) = Some old" "written_as vs old i'" "s' = s(instance_name i \<mapsto> i')"
        "\<forall>x. a = AInstance (Inr x) \<longrightarrow> x = i'"
        using assms(3) st by (auto simp: operator_step_def status_updated_def)
      note o = store_okD [OF assms(1) i'(1)]
      from written_as_stored [OF i'(2)] o have w: "stored vs i'" "instance_name i' = instance_name i" "ci_spec i' = ci_spec old"
        by (auto dest: stored_own)
      moreover have "plan_of s (instance_name i) = Some (ci_spec old)" using i'(1) by (simp add: plan_of_def)
      ultimately show ?thesis
        using assms(1) i' by (auto simp: operator_answer_def plan_of_upd plan_same intro: store_ok_upd)
    qed
  qed (use assms(1) in \<open>auto simp: operator_answer_def\<close>)
qed

lemma web_ok_call:
  assumes "web_ok vs (Call c k)"
  shows "web_call vs c" "web_answer vs c a \<Longrightarrow> web_ok vs (k a)"
  using assms by (auto simp: web_ok_def)

lemma operator_ok_call:
  assumes "operator_ok vs (Call c k)"
  shows "operator_call vs c" "operator_answer vs c a \<Longrightarrow> operator_ok vs (k a)"
  using assms by (auto simp: operator_ok_def)

lemma notifier_ok: "rg (operator_answer vs) (\<lambda>_. operator_call vs) h (NotifyInstanceReady ok u n v) (\<lambda>_ _. True)"
  by (auto simp: NotifyInstanceReady_def Let_def ask_def)

lemma reconcile_process_ok: "operator_ok vs (Reconcile lib r (dp_notifier d) ns n)"
  by (rule Reconcile_ok) (auto simp: dp_notifier_def notifier_ok)

lemma plan_steps: "plan_step\<^sup>*\<^sup>* f g \<Longrightarrow> (plan_step\<^sup>=\<^sup>=) g g' \<Longrightarrow> plan_step\<^sup>*\<^sup>* f g'"
  by auto

lemma sys_invariant:
  "sys d vs s0 ps s \<Longrightarrow> store_ok vs s \<and> (\<forall>p \<in> set ps. process_ok vs p) \<and> plan_step\<^sup>*\<^sup>* (plan_of s0) (plan_of s)"
proof (induction rule: sys.induct)
  case (sys_request ps s r rq)
  then show ?case by (auto simp: dp_routes_def intro!: request_web_ok)
next
  case (sys_no_route ps s rq)
  then show ?case by (auto intro!: request_web_ok)
next
  case (sys_request_call ps c k qs s a s')
  then have c: "web_ok vs (Call c k)" by auto
  note step = web_step_ok [OF _ web_ok_call(1) [OF c] sys_request_call.hyps(2)]
  show ?case using sys_request_call.IH step web_ok_call(2) [OF c] plan_steps by auto
next
  case (sys_task_call ps c k' qs s a s')
  then have c: "web_ok vs (Call c k')" by auto
  note step = web_step_ok [OF _ web_ok_call(1) [OF c] sys_task_call.hyps(2)]
  show ?case using sys_task_call.IH step web_ok_call(2) [OF c] plan_steps by auto
next
  case (sys_reconcile_call ps oc ko qs s oa s')
  then have c: "operator_ok vs (Call oc ko)" by auto
  note step = operator_step_ok [OF _ operator_ok_call(1) [OF c] sys_reconcile_call.hyps(2)]
  show ?case using sys_reconcile_call.IH step operator_ok_call(2) [OF c] plan_steps by auto
qed (auto simp: task_web_ok reconcile_process_ok)

text \<open>Property C2. However many requests, Slack tasks and reconciliations run at once, whatever order their
  calls are made in and whichever of them fail: every instance is stored under its own user's
  identifier, so that no user ever has two, and no two users' resources share a namespace.\<close>

theorem one_instance_per_user:
  assumes "sys d vs s0 ps s" "s n = Some i"
  shows "instance_name i = n \<and> sp_userId (ci_spec i) = n
    \<and> (\<forall>m j. m \<noteq> n \<longrightarrow> s m = Some j \<longrightarrow> sp_userId (ci_spec j) \<noteq> sp_userId (ci_spec i)
         \<and> ''clawbake-'' @ instance_name j \<noteq> ''clawbake-'' @ instance_name i)"
  using sys_invariant [OF assms(1)] assms(2) by (auto simp: store_ok_def stored_def own_name_def)


section \<open>A run\<close>

definition sample_server :: server where
  "sample_server = \<lparr>sv_lib = sample_web_lib, sv_config = Load (\<lambda>_. []), sv_dev = True, sv_bot = True\<rparr>"

definition sample_deployment :: deployment where
  "sample_deployment = \<lparr>dp_server = sample_server, dp_bot = sample_bot, dp_hasBot = True, dp_lib = sample_lib,
     dp_reconciler = sample_reconciler, dp_serverURL = ''http://s'', dp_notifies = True\<rparr>"

definition sample_versions :: versions where
  "sample_versions v = (''u1'', ci_spec sample_instance)"

text \<open>An instance its user has deleted: the operator finishes the deletion.\<close>

definition sample_deleting :: claw_instance where
  "sample_deleting = sample_instance\<lparr>ci_meta := (ci_meta sample_instance)\<lparr>om_deleted := Some 0, om_finalizers := [finalizerName]\<rparr>\<rparr>"

lemma sample_stored: "stored sample_versions (set_phase p sample_deleting)" "stored sample_versions sample_deleting"
  by (simp_all add: stored_def own_name_def sample_versions_def sample_deleting_def sample_instance_def named_meta_def)

lemma sys_reconcile_only:
  "sys d vs s0 [Reconciliation p] s \<Longrightarrow> \<exists>c k. p = Call c k \<and> operator_step vs s c a s' \<and> k a = p'
     \<Longrightarrow> sys d vs s0 [Reconciliation p'] s'"
  using sys_reconcile_call [where ps = "[]" and qs = "[]"] by auto

abbreviation sample_start :: store where
  "sample_start \<equiv> [''u1'' \<mapsto> sample_deleting]"

lemma sample_begun:
  "sys sample_deployment sample_versions sample_start [Reconciliation (reconcileDeletion sample_lib sample_deleting)] sample_start"
proof -
  have "store_ok sample_versions sample_start"
    using sample_stored by (simp add: store_ok_def) (simp add: sample_deleting_def sample_instance_def named_meta_def)
  from sys_reconcile [OF sys_init [OF this], of sample_deployment "''clawbake''" "''u1''"]
  have "sys sample_deployment sample_versions sample_start
      [Reconciliation (Reconcile sample_lib sample_reconciler (dp_notifier sample_deployment) ''clawbake'' ''u1'')] sample_start"
    by (simp add: sample_deployment_def)
  then show ?thesis
    by (rule sys_reconcile_only [where a = "AInstance (Inr sample_deleting)"])
      (simp_all add: Reconcile_def operator_step_def sample_deleting_def)
qed

lemma sample_finished:
  "sys sample_deployment sample_versions sample_start [Reconciliation (Ret (Returned 0))] Map.empty"
proof -
  let ?i = "set_phase PhaseTerminating sample_deleting"
  let ?s = "[''u1'' \<mapsto> ?i]"
  have name: "instance_name sample_deleting = ''u1''" "has_finalizer sample_lib sample_deleting"
    by (simp_all add: sample_deleting_def sample_instance_def named_meta_def has_finalizer_def sample_lib_def)
  have w: "written_as sample_versions x x" if "x \<in> {sample_deleting, ?i, remove_finalizer sample_lib ?i}" for x
    using that sample_stored by (auto simp: written_as_def stored_def remove_finalizer_def)
  have "sys sample_deployment sample_versions sample_start [Reconciliation (bind (deleteUserNamespace ?i) (\<lambda>err.
             case err of
               Some e \<Rightarrow> Ret (Failed e)
             | None \<Rightarrow> orReturn (ask (UpdateInstance (remove_finalizer sample_lib ?i)) dec_instance) (\<lambda>_. Ret (Returned 0))))] ?s"
    using name w
    by (intro sys_reconcile_only [OF sample_begun, where a = "AInstance (Inr ?i)"])
      (auto simp: reconcileDeletion_def orReturn_def operator_step_def status_updated_def written_as_def)
  then have "sys sample_deployment sample_versions sample_start
     [Reconciliation (orReturn (ask (UpdateInstance (remove_finalizer sample_lib ?i)) dec_instance) (\<lambda>_. Ret (Returned 0)))] ?s"
    by (rule sys_reconcile_only [where a = "ANamespace (Inl (ErrApi NotFound []))"])
      (simp_all add: deleteUserNamespace_def rg_bind operator_step_def isNotFound_def)
  then show ?thesis
    by (rule sys_reconcile_only [where a = "AInstance (Inr (remove_finalizer sample_lib ?i))"])
      (use name w in \<open>auto simp: orReturn_def operator_step_def up_to_date_def remove_finalizer_def\<close>)
qed

lemma one_instance_per_user_witness:
  "sys sample_deployment sample_versions sample_start [Reconciliation (reconcileDeletion sample_lib sample_deleting)] sample_start
   \<and> sp_userId (ci_spec sample_deleting) = ''u1''"
  using sample_begun one_instance_per_user [OF sample_begun, of "''u1''" sample_deleting] by simp


end
