(* ===== verification/Startup.thy ===== *)
theory Startup
  imports System
begin

text \<open>
  How the server starts: \<^verbatim>\<open>cmd/server/main.go\<close>, with \<^verbatim>\<open>NewPool\<close>, \<^verbatim>\<open>NewOIDCAuth\<close>, \<^verbatim>\<open>NewDevAuth\<close>, \<^verbatim>\<open>k8s.NewClient\<close> and
  \<^verbatim>\<open>bot.New\<close>, which it calls. What \<^verbatim>\<open>golang-migrate\<close>, \<^verbatim>\<open>pgxpool\<close>, \<^verbatim>\<open>go-oidc\<close> and \<^verbatim>\<open>controller-runtime\<close> do is a call.
\<close>

section \<open>Calls\<close>

datatype up_result = UpDone | UpNoChange | UpFailed go_error

datatype bcall =
  OpenSource | NewMigrate "nat option" string | Sleep nat | Up nat
| PoolNew string | PoolPing | PoolClose
| NewProvider string | KubeConfig | KubeClient
| Db scall

datatype banswer =
  BSource "nat option" "go_error option"
| BMigrate "go_error + nat"
| BUp up_result
| BError "go_error option"
| BDb sanswer

type_synonym 'a bprog = "(bcall, banswer, 'a) prog"

definition dec_source :: "banswer \<Rightarrow> nat option \<times> go_error option" where
  "dec_source a = (case a of BSource s e \<Rightarrow> (s, e) | _ \<Rightarrow> (None, Some odd_answer))"
definition dec_migrate :: "banswer \<Rightarrow> go_error + nat" where
  "dec_migrate a = (case a of BMigrate x \<Rightarrow> x | _ \<Rightarrow> Inl odd_answer)"
definition dec_up :: "banswer \<Rightarrow> up_result" where
  "dec_up a = (case a of BUp x \<Rightarrow> x | _ \<Rightarrow> UpFailed odd_answer)"
definition dec_berror :: "banswer \<Rightarrow> go_error option" where
  "dec_berror a = (case a of BError x \<Rightarrow> x | _ \<Rightarrow> Some odd_answer)"
definition dec_db :: "banswer \<Rightarrow> sanswer" where
  "dec_db a = (case a of BDb x \<Rightarrow> x | _ \<Rightarrow> AError (Some odd_answer))"

lemmas bdecs = dec_source_def dec_migrate_def dec_up_def dec_berror_def dec_db_def

text \<open>A program of the server as part of its start.\<close>

primrec embed :: "'a sprog \<Rightarrow> 'a bprog" where
  "embed (Ret a) = Ret a"
| "embed (Call c k) = Call (Db c) (\<lambda>a. embed (k (dec_db a)))"

lemma embed_bind: "embed (bind p f) = bind (embed p) (\<lambda>a. embed (f a))"
  by (induction p) auto

section \<open>Migrations\<close>

text \<open>\<^verbatim>\<open>strings.Replace(s, old, new, 1)\<close> for an \<open>old\<close> that is not empty.\<close>

fun replaceOnce :: "string \<Rightarrow> string \<Rightarrow> string \<Rightarrow> string" where
  "replaceOnce old nw [] = []"
| "replaceOnce old nw (c # s) =
     (if hasPrefix (c # s) old then nw @ drop (length old) (c # s) else c # replaceOnce old nw s)"

definition migrate_url :: "string \<Rightarrow> string" where
  "migrate_url databaseURL =
     replaceOnce ''postgres://'' ''pgx5://'' (replaceOnce ''postgresql://'' ''pgx5://'' databaseURL)"

text \<open>\<^verbatim>\<open>for attempt := 1; attempt <= 30; attempt++\<close>: the migrator, or the last error.\<close>

function connect :: "nat \<Rightarrow> nat option \<Rightarrow> string \<Rightarrow> (go_error + nat) bprog" where
  "connect attempt src connStr =
     bind (ask (NewMigrate src connStr) dec_migrate) (\<lambda>x. case x of
       Inr m \<Rightarrow> Ret (Inr m)
     | Inl e \<Rightarrow>
         bind (ask (Sleep 2) dec_berror) (\<lambda>_.
         bind (ask OpenSource dec_source) (\<lambda>(src', _).
           if attempt + 1 \<le> 30 then connect (attempt + 1) src' connStr else Ret (Inl e))))"
  by pat_completeness auto
termination by (relation "measure (\<lambda>(attempt, _). 30 - attempt)") auto

declare connect.simps [simp del]

definition runMigrations :: "string \<Rightarrow> go_error option bprog" where
  "runMigrations databaseURL =
     bind (ask OpenSource dec_source) (\<lambda>(src, err). case err of Some e \<Rightarrow> Ret (Some e) | None \<Rightarrow>
     bind (connect 1 src (migrate_url databaseURL)) (\<lambda>x. case x of
       Inl e \<Rightarrow> Ret (Some (ErrWrap ''database not ready after 30 attempts'' e))
     | Inr m \<Rightarrow> bind (ask (Up m) dec_up) (\<lambda>r. case r of UpFailed e \<Rightarrow> Ret (Some e) | _ \<Rightarrow> Ret None)))"

section \<open>The defaults of instances\<close>

text \<open>\<^verbatim>\<open>if cfg.X != "" { current.X = cfg.X }\<close>.\<close>

definition from_setting :: "string \<Rightarrow> string \<Rightarrow> string" where
  "from_setting setting current = (if setting \<noteq> [] then setting else current)"

definition synced :: "config \<Rightarrow> instance_default \<Rightarrow> update_defaults_params" where
  "synced cfg current = \<lparr>
     ud_image = from_setting (cf_defaultImage cfg) (df_image current),
     ud_cpuRequest = from_setting (cf_defaultCPURequest cfg) (df_cpuRequest current),
     ud_memoryRequest = from_setting (cf_defaultMemoryRequest cfg) (df_memoryRequest current),
     ud_cpuLimit = from_setting (cf_defaultCPULimit cfg) (df_cpuLimit current),
     ud_memoryLimit = from_setting (cf_defaultMemoryLimit cfg) (df_memoryLimit current),
     ud_storageSize = from_setting (cf_defaultStorageSize cfg) (df_storageSize current),
     ud_gatewayConfig = from_setting (cf_defaultGatewayConfig cfg) (df_gatewayConfig current)\<rparr>"

definition syncInstanceDefaults :: "config \<Rightarrow> go_error option sprog" where
  "syncInstanceDefaults cfg =
     rowOrElse (ask (Query QGetDefaults) dec_defaultsRow)
       (\<lambda>e. Some (ErrWrap ''reading current defaults'' e)) (\<lambda>current.
     bind (ask (Query (QUpdateDefaults (synced cfg current))) dec_defaultsRow) (\<lambda>(_, err). Ret err))"

section \<open>main\<close>

definition NewPool :: "string \<Rightarrow> go_error option bprog" where
  "NewPool databaseURL =
     bind (ask (PoolNew databaseURL) dec_berror) (\<lambda>err. case err of
       Some e \<Rightarrow> Ret (Some (ErrWrap ''connecting to database'' e))
     | None \<Rightarrow> bind (ask PoolPing dec_berror) (\<lambda>err. case err of
         Some e \<Rightarrow> bind (ask PoolClose dec_berror) (\<lambda>_. Ret (Some (ErrWrap ''pinging database'' e)))
       | None \<Rightarrow> Ret None))"

text \<open>The provider's client is built from the configuration; the one step that can fail finds the issuer.\<close>

definition NewOIDCAuth :: "string \<Rightarrow> go_error option bprog" where
  "NewOIDCAuth issuer = ask (NewProvider issuer) dec_berror"

text \<open>\<^verbatim>\<open>NewDevAuth\<close>: the key the session cookies are signed with.\<close>

definition dev_session_key :: "string \<Rightarrow> string" where
  "dev_session_key sessionSecret =
     (if sessionSecret = [] then ''dev-secret-key-not-for-production'' else sessionSecret)"

definition NewClient :: "go_error option bprog" where
  "NewClient =
     bind (ask KubeConfig dec_berror) (\<lambda>err. case err of
       Some e \<Rightarrow> Ret (Some (ErrWrap ''getting kubeconfig'' e))
     | None \<Rightarrow> bind (ask KubeClient dec_berror) (\<lambda>err. case err of
         Some e \<Rightarrow> Ret (Some (ErrWrap ''creating k8s client'' e)) | None \<Rightarrow> Ret None))"

definition New :: "web_lib \<Rightarrow> string \<Rightarrow> config \<Rightarrow> bot" where
  "New lib version cfg = \<lparr>bt_lib = lib, bt_signingSecret = cf_slackSigningSecret cfg, bt_namespace = cf_kubeNamespace cfg,
     bt_baseURL = cf_baseURL cfg, bt_tuiEnabled = cf_tuiEnabled cfg, bt_shellEnabled = cf_shellEnabled cfg,
     bt_version = version\<rparr>"

text \<open>How \<^verbatim>\<open>main\<close> goes on: it stops, or it serves. \<^verbatim>\<open>log.Fatalf\<close> ends the program.\<close>

datatype ending =
  Fatal string
| Migrated
| Serving server "bot option" string

text \<open>\<^verbatim>\<open>if err := step; err != nil { log.Fatalf(...) }\<close>.\<close>

definition orFatal :: "go_error option bprog \<Rightarrow> string \<Rightarrow> ending bprog \<Rightarrow> ending bprog" where
  "orFatal p message k = bind p (\<lambda>err. case err of
     Some e \<Rightarrow> Ret (Fatal (message @ '': '' @ error_text id e)) | None \<Rightarrow> k)"

definition server_main :: "web_lib \<Rightarrow> string \<Rightarrow> bool \<Rightarrow> environment \<Rightarrow> ending bprog" where
  "server_main lib version migrate env =
     (let cfg = Load env in
      if migrate then orFatal (runMigrations (cf_databaseURL cfg)) ''migration failed'' (Ret Migrated)
      else
        orFatal (NewPool (cf_databaseURL cfg)) ''failed to connect to database'' (
        orFatal (embed (syncInstanceDefaults cfg)) ''failed to sync instance defaults'' (
        orFatal (if cf_oidcIssuer cfg \<noteq> [] then NewOIDCAuth (cf_oidcIssuer cfg) else Ret None) ''failed to setup OIDC'' (
        orFatal NewClient ''failed to create k8s client'' (
          let slackBot = (if cf_slackBotToken cfg \<noteq> [] \<and> cf_slackSigningSecret cfg \<noteq> [] then Some (New lib version cfg)
                          else None);
              h = \<lparr>sv_lib = lib, sv_config = cfg, sv_dev = (cf_oidcIssuer cfg = []), sv_bot = (slackBot \<noteq> None)\<rparr>
          in Ret (Serving h slackBot ('':'' @ cf_port cfg)))))))"

section \<open>Waiting for the database\<close>

fun is_attempt :: "bcall \<Rightarrow> bool" where
  "is_attempt (NewMigrate src u) = True"
| "is_attempt _ = False"

definition attempts :: "(bcall, banswer) history \<Rightarrow> nat" where
  "attempts h = length (filter is_attempt (map fst h))"

lemma attempts_simps [simp]:
  "attempts [] = 0" "attempts ((c, r) # h) = (if is_attempt c then 1 else 0) + attempts h"
  "attempts (h @ h') = attempts h + attempts h'"
  by (auto simp: attempts_def)

definition connected :: "(bcall, banswer) history \<Rightarrow> nat \<Rightarrow> bool" where
  "connected h m \<longleftrightarrow> (\<exists>h' src u. h = h' @ [(NewMigrate src u, BMigrate (Inr m))])"

text \<open>At most 30 attempts and 91 calls in all, and only a migrator that could connect is run.\<close>

definition migration_allowed :: "string \<Rightarrow> (bcall, banswer) history \<Rightarrow> bcall \<Rightarrow> bool" where
  "migration_allowed url h c \<longleftrightarrow> length h < 91 \<and> (case c of
     NewMigrate src u \<Rightarrow> attempts h < 30 \<and> u = migrate_url url
   | Up m \<Rightarrow> connected h m
   | Sleep n \<Rightarrow> attempts h \<noteq> 0
   | OpenSource \<Rightarrow> True
   | _ \<Rightarrow> False)"

lemma connect_bounded:
  assumes "1 \<le> attempt" "attempt \<le> 30" "attempts h + 1 = attempt" "length h + 2 = 3 * attempt"
  shows "rg (\<lambda>_ _. True) (migration_allowed url) h (connect attempt src (migrate_url url)) (\<lambda>h' x. case x of
      Inr m \<Rightarrow> connected h' m \<and> length h' < 91
    | Inl e \<Rightarrow> attempts h' = 30 \<and> length h' = 91)"
  using assms
proof (induction attempt src "migrate_url url" arbitrary: h rule: connect.induct)
  case (1 attempt src)
  have "rg (\<lambda>_ _. True) (migration_allowed url)
      (((h @ [(NewMigrate src (migrate_url url), r)]) @ [(Sleep 2, r')]) @ [(OpenSource, r'')])
      (if attempt + 1 \<le> 30 then connect (attempt + 1) (fst (dec_source r'')) (migrate_url url) else Ret (Inl e))
      (\<lambda>h' x. case x of Inr m \<Rightarrow> connected h' m \<and> length h' < 91 | Inl e \<Rightarrow> attempts h' = 30 \<and> length h' = 91)"
    if "dec_migrate r = Inl e" for r e r' r''
  proof (cases "attempt + 1 \<le> 30")
    case True
    with 1(2-) that show ?thesis
      by (simp only: if_True) (rule 1(1), auto)
  next
    case False
    with 1(2-) show ?thesis by simp
  qed
  note step = this
  show ?case
    unfolding connect.simps [of attempt] bind_ask rg.simps
    using 1(2-) step
    by (auto simp: migration_allowed_def connected_def dec_migrate_def case_prod_beta split: sum.splits banswer.splits)
qed

text \<open>Property C32. The server waits for its database for at most 30 attempts, whatever the driver answers: each
  attempt is made on the configured address, rewritten for the driver; migrations are run only on a
  connection that was made, once; the start reports success exactly when they ran or there was nothing to do;
  and when every attempt failed it stops with that error after 91 calls.\<close>

theorem runMigrations_bounded:
  "rg (\<lambda>_ _. True) (migration_allowed url) [] (runMigrations url) (\<lambda>h err.
     (\<exists>x e. h = [(OpenSource, x)] \<and> err = Some e)
     \<or> (\<exists>h' m x. h = h' @ [(Up m, x)] \<and> connected h' m
          \<and> err = (case dec_up x of UpFailed e \<Rightarrow> Some e | _ \<Rightarrow> None))
     \<or> attempts h = 30 \<and> length h = 91 \<and> (\<exists>e. err = Some (ErrWrap ''database not ready after 30 attempts'' e)))"
proof -
  have first: "rg (\<lambda>_ _. True) (migration_allowed url) [(OpenSource, r)] (connect 1 src (migrate_url url)) (\<lambda>h' x. case x of
      Inr m \<Rightarrow> connected h' m \<and> length h' < 91
    | Inl e \<Rightarrow> attempts h' = 30 \<and> length h' = 91)" for r src
    by (rule connect_bounded) (simp_all add: attempts_def)
  show ?thesis
    by (auto simp: runMigrations_def rg_bind case_prod_beta migration_allowed_def [abs_def]
        intro!: rg_post [OF first [unfolded migration_allowed_def [abs_def] One_nat_def]] split: option.splits sum.splits up_result.splits)
qed

section \<open>The defaults in the database\<close>

definition serve_start :: "string \<Rightarrow> int \<Rightarrow> scall \<Rightarrow> db \<Rightarrow> sanswer \<times> db" where
  "serve_start fresh now c d = (case c of Query q \<Rightarrow> serve_query fresh now q d | _ \<Rightarrow> (AError None, d))"

definition default_values :: "instance_default \<Rightarrow> update_defaults_params" where
  "default_values r = \<lparr>ud_image = df_image r, ud_cpuRequest = df_cpuRequest r, ud_memoryRequest = df_memoryRequest r,
     ud_cpuLimit = df_cpuLimit r, ud_memoryLimit = df_memoryLimit r, ud_storageSize = df_storageSize r,
     ud_gatewayConfig = df_gatewayConfig r\<rparr>"

lemma default_values_updated [simp]: "default_values (updated_default now arg r) = arg"
  by (simp add: default_values_def updated_default_def)

lemma df_id_updated [simp]: "df_id (updated_default now arg r) = df_id r"
  by (simp add: updated_default_def)

lemma synced_twice: "default_values r' = synced cfg r \<Longrightarrow> synced cfg r' = synced cfg r"
  by (auto simp: synced_def default_values_def from_setting_def)

lemma sync_run:
  assumes "db_defaults d = [r]"
  shows "run (serve_start fresh now) (syncInstanceDefaults cfg) d =
    (None, d\<lparr>db_defaults := [updated_default now (synced cfg r) r]\<rparr>)"
  using assms
  by (simp add: syncInstanceDefaults_def rowOrElse_def serve_start_def GetDefaults_def UpdateDefaults_def decs Let_def)

text \<open>On tables that are in order the start leaves, in the one row of defaults, each value the
  configuration sets and, where it sets none, the value that was there; the users are untouched, and
  starting again with the same configuration changes no value.\<close>

theorem syncInstanceDefaults_spec:
  assumes "db_ok d"
  shows "\<exists>r r' d'. GetDefaults d = (r, None)
    \<and> run (serve_start fresh now) (syncInstanceDefaults cfg) d = (None, d')
    \<and> GetDefaults d' = (r', None) \<and> db_users d' = db_users d \<and> df_id r' = df_id r
    \<and> default_values r' = synced cfg r
    \<and> (let (err, d'') = run (serve_start fresh' now') (syncInstanceDefaults cfg) d'
       in err = None \<and> default_values (fst (GetDefaults d'')) = default_values r')"
proof -
  from assms obtain r where r: "db_defaults d = [r]" by (auto simp: db_ok_def length_Suc_conv)
  let ?r' = "updated_default now (synced cfg r) r" and ?d' = "d\<lparr>db_defaults := [updated_default now (synced cfg r) r]\<rparr>"
  have "run (serve_start fresh' now') (syncInstanceDefaults cfg) ?d'
      = (None, ?d'\<lparr>db_defaults := [updated_default now' (synced cfg ?r') ?r']\<rparr>)"
    by (rule sync_run) simp
  then show ?thesis
    using r sync_run [OF r]
    by (intro exI [of _ r] exI [of _ ?r'] exI [of _ ?d'])
      (simp add: GetDefaults_def synced_twice [of ?r' cfg r] Let_def)
qed

lemma syncInstanceDefaults_spec_witness:
  "\<exists>d'. run (serve_start [] 7) (syncInstanceDefaults (Load (\<lambda>k. if k = ''INSTANCE_DEFAULT_IMAGE'' then ''i:2'' else []))) sample_db
    = (None, d') \<and> df_image (fst (GetDefaults d')) = ''i:2''"
  using syncInstanceDefaults_spec [OF sample_db_ok, of "[]" 7 "Load (\<lambda>k. if k = ''INSTANCE_DEFAULT_IMAGE'' then ''i:2'' else [])" "[]" 8]
  by (auto simp: default_values_def synced_def Load_def from_setting_def)

section \<open>What serves\<close>

text \<open>The defaults were written.\<close>

definition defaults_synced :: "(bcall, banswer) history \<Rightarrow> bool" where
  "defaults_synced h \<longleftrightarrow> (\<exists>arg row. (Db (Query (QUpdateDefaults arg)), BDb (ADefaultsRow (row, None))) \<in> set h)"

definition start_allowed :: "bool \<Rightarrow> environment \<Rightarrow> (bcall, banswer) history \<Rightarrow> bcall \<Rightarrow> bool" where
  "start_allowed migrate env h c = (case c of
     OpenSource \<Rightarrow> migrate | NewMigrate src u \<Rightarrow> migrate | Sleep n \<Rightarrow> migrate | Up m \<Rightarrow> migrate
   | PoolNew u \<Rightarrow> \<not> migrate \<and> u = env ''DATABASE_URL'' \<and> h = []
   | PoolPing \<Rightarrow> \<not> migrate | PoolClose \<Rightarrow> \<not> migrate
   | Db q \<Rightarrow> \<not> migrate \<and> (PoolPing, BError None) \<in> set h
   | NewProvider i \<Rightarrow> \<not> migrate \<and> i = env ''OIDC_ISSUER'' \<and> i \<noteq> [] \<and> defaults_synced h
   | KubeConfig \<Rightarrow> \<not> migrate \<and> defaults_synced h
   | KubeClient \<Rightarrow> \<not> migrate \<and> defaults_synced h)"

definition configured :: "bool \<Rightarrow> environment \<Rightarrow> (bcall, banswer) history \<Rightarrow> ending \<Rightarrow> bool" where
  "configured migrate env h x = (case x of
     Fatal m \<Rightarrow> True
   | Migrated \<Rightarrow> migrate \<and> (\<exists>h' m x. h = h' @ [(Up m, BUp x)] \<and> x \<in> {UpDone, UpNoChange})
   | Serving sv b addr \<Rightarrow>
       \<not> migrate \<and> defaults_synced h \<and> sv_config sv = Load env
       \<and> sv_dev sv = (env ''OIDC_ISSUER'' = [])
       \<and> (''/auth/dev-login'' \<in> rt_path ` set (RegisterRoutes sv b)) = (env ''OIDC_ISSUER'' = [])
       \<and> (env ''OIDC_ISSUER'' = [] \<or> (NewProvider (env ''OIDC_ISSUER''), BError None) \<in> set h)
       \<and> (b = None) = (env ''SLACK_BOT_TOKEN'' = [] \<or> env ''SLACK_SIGNING_SECRET'' = [])
       \<and> sv_bot sv = (b \<noteq> None)
       \<and> (case b of None \<Rightarrow> True | Some b' \<Rightarrow> bt_signingSecret b' = env ''SLACK_SIGNING_SECRET''
            \<and> bt_namespace b' = cf_kubeNamespace (sv_config sv))
       \<and> addr = '':'' @ envOrDefault env ''PORT'' ''8080'')"

lemma dev_login_route: "''/auth/dev-login'' \<in> rt_path ` set (RegisterRoutes sv b) \<longleftrightarrow> sv_dev sv"
  by (auto simp: RegisterRoutes_def publicRoutes_def slackRoutes_def loginRoutes_def oidcRoutes_def devRoutes_def
      guardedRoutes_def protectedRoutes_def Let_def split: option.splits if_splits)

lemma rg_orFatal:
  assumes "rg R G h p (\<lambda>h' err. err = None \<longrightarrow> rg R G h' k (configured mg env))"
  shows "rg R G h (orFatal p m k) (configured mg env)"
  unfolding orFatal_def rg_bind
  by (rule rg_post [OF assms]) (auto simp: configured_def split: option.splits)

lemma start_allowed_simps [simp]:
  "start_allowed mg env h OpenSource = mg" "start_allowed mg env h (NewMigrate src u) = mg"
  "start_allowed mg env h (Sleep n) = mg" "start_allowed mg env h (Up m) = mg"
  "start_allowed mg env h (PoolNew url) = (\<not> mg \<and> url = env ''DATABASE_URL'' \<and> h = [])"
  "start_allowed mg env h PoolPing = (\<not> mg)" "start_allowed mg env h PoolClose = (\<not> mg)"
  "start_allowed mg env h (Db q) = (\<not> mg \<and> (PoolPing, BError None) \<in> set h)"
  "start_allowed mg env h (NewProvider i) = (\<not> mg \<and> i = env ''OIDC_ISSUER'' \<and> i \<noteq> [] \<and> defaults_synced h)"
  "start_allowed mg env h KubeConfig = (\<not> mg \<and> defaults_synced h)"
  "start_allowed mg env h KubeClient = (\<not> mg \<and> defaults_synced h)"
  by (simp_all add: start_allowed_def)

lemma defaults_synced_append [simp]: "defaults_synced h \<Longrightarrow> defaults_synced (h @ t)"
  by (auto simp: defaults_synced_def)

lemma dec_berror_None: "dec_berror r = None \<Longrightarrow> r = BError None"
  by (auto simp: dec_berror_def split: banswer.splits)

lemma connect_start: "rg (\<lambda>_ _. True) (start_allowed True env) h (connect n src u) (\<lambda>_ _. True)"
proof (induction n src u arbitrary: h rule: connect.induct)
  case (1 n src u)
  show ?case
    unfolding connect.simps [of n]
    using 1 by (auto simp: case_prod_beta split: sum.splits)
qed

lemma runMigrations_start:
  "rg (\<lambda>_ _. True) (start_allowed True env) h (runMigrations u) (\<lambda>h err. err = None \<longrightarrow>
     (\<exists>h' m x. h = h' @ [(Up m, BUp x)] \<and> x \<in> {UpDone, UpNoChange}))"
proof -
  have up: "r = BUp x" if "dec_up r = x" "x \<in> {UpDone, UpNoChange}" for r x
    using that by (auto simp: dec_up_def split: banswer.splits)
  show ?thesis
    by (auto simp: runMigrations_def rg_bind case_prod_beta
        intro!: rg_post [OF connect_start] dest: up split: option.splits sum.splits up_result.splits)
qed

lemma NewPool_start:
  "rg (\<lambda>_ _. True) (start_allowed False env) [] (NewPool (env ''DATABASE_URL'')) (\<lambda>h err.
     err = None \<longrightarrow> (PoolPing, BError None) \<in> set h)"
  by (auto simp: NewPool_def split: option.splits dest: dec_berror_None)

lemma sync_start:
  assumes "(PoolPing, BError None) \<in> set h"
  shows "rg (\<lambda>_ _. True) (start_allowed False env) h (embed (syncInstanceDefaults cfg)) (\<lambda>h' err.
    err = None \<longrightarrow> defaults_synced h')"
  using assms
  by (auto simp: syncInstanceDefaults_def rowOrElse_def defaults_synced_def dec_db_def dec_defaultsRow_def odd_answer_def
      split: option.splits prod.splits banswer.splits sanswer.splits)

lemma provider_start:
  assumes "defaults_synced h" "issuer = env ''OIDC_ISSUER''"
  shows "rg (\<lambda>_ _. True) (start_allowed False env) h (if issuer \<noteq> [] then NewOIDCAuth issuer else Ret None) (\<lambda>h' err.
    err = None \<longrightarrow> defaults_synced h' \<and> (issuer = [] \<or> (NewProvider issuer, BError None) \<in> set h'))"
  using assms by (auto simp: NewOIDCAuth_def ask_def dest: dec_berror_None)

lemma client_start:
  assumes "defaults_synced h"
  shows "rg (\<lambda>_ _. True) (start_allowed False env) h NewClient (\<lambda>h' err. err = None \<longrightarrow> defaults_synced h' \<and> set h \<subseteq> set h')"
  using assms by (auto simp: NewClient_def split: option.splits)


end
