(* ===== verification/ServerLife.thy ===== *)
theory ServerLife
  imports Startup
begin

text \<open>
  The server's identity provider with its session cookies (\<^verbatim>\<open>NewOIDCAuth\<close>, \<^verbatim>\<open>NewDevAuth\<close> and the choice between them in
  \<^verbatim>\<open>cmd/server/main.go\<close>), the development login's logout and admin check, and what \<^verbatim>\<open>main\<close> does once everything is set up: it serves, waits for a signal, drains the
  requests in flight for at most ten seconds and ends. The two goroutines of that part, with the connections and the
  clock, are a step relation. Of \<^verbatim>\<open>http.Server\<close> it has what its documentation says: \<^verbatim>\<open>Shutdown\<close> closes the listener, so that
  \<^verbatim>\<open>Start\<close> returns \<^verbatim>\<open>ErrServerClosed\<close>, and returns when no request is in flight, or with an error when its context's
  time is up.
\<close>

section \<open>Identity\<close>

text \<open>\<^verbatim>\<open>sessions.NewCookieStore\<close> with the options that are set on it.\<close>

record cookie_store =
  ck_secret :: string
  ck_sameSiteLax :: bool
  ck_secure :: bool

record oauth_config =
  oc_clientID :: string
  oc_clientSecret :: string
  oc_redirectURL :: string
  oc_scopes :: "string list"

record oidc_auth =
  oa_issuer :: string
  oa_oauth2Config :: oauth_config
  oa_audience :: string
  oa_store :: cookie_store

definition session_store :: "string \<Rightarrow> string \<Rightarrow> cookie_store" where
  "session_store sessionSecret baseURL =
     \<lparr>ck_secret = sessionSecret, ck_sameSiteLax = True, ck_secure = hasPrefix baseURL ''https://''\<rparr>"

definition OIDCAuth_of :: "string \<Rightarrow> string \<Rightarrow> string \<Rightarrow> string \<Rightarrow> string \<Rightarrow> string \<Rightarrow> (go_error + oidc_auth) bprog" where
  "OIDCAuth_of issuer clientID clientSecret redirectURL sessionSecret baseURL =
     bind (ask (NewProvider issuer) dec_berror) (\<lambda>err. case err of
       Some e \<Rightarrow> Ret (Inl e)
     | None \<Rightarrow> Ret (Inr \<lparr>oa_issuer = issuer,
         oa_oauth2Config = \<lparr>oc_clientID = clientID, oc_clientSecret = clientSecret, oc_redirectURL = redirectURL,
           oc_scopes = [''openid'', ''email'', ''profile'']\<rparr>,
         oa_audience = clientID, oa_store = session_store sessionSecret baseURL\<rparr>))"

definition DevAuth_of :: "string \<Rightarrow> string \<Rightarrow> cookie_store" where
  "DevAuth_of sessionSecret baseURL = session_store (dev_session_key sessionSecret) baseURL"

text \<open>\<^verbatim>\<open>var oidcAuth *auth.OIDCAuth; var devAuth *auth.DevAuth\<close>: one of the two is set.\<close>

definition choose_auth :: "config \<Rightarrow> (go_error + oidc_auth option \<times> cookie_store option) bprog" where
  "choose_auth cfg =
     (if cf_oidcIssuer cfg \<noteq> []
      then bind (OIDCAuth_of (cf_oidcIssuer cfg) (cf_oidcClientID cfg) (cf_oidcClientSecret cfg) (cf_oidcRedirectURL cfg)
             (cf_sessionSecret cfg) (cf_baseURL cfg)) (\<lambda>x. case x of Inl e \<Rightarrow> Ret (Inl e) | Inr a \<Rightarrow> Ret (Inr (Some a, None)))
      else Ret (Inr (None, Some (DevAuth_of (cf_sessionSecret cfg) (cf_baseURL cfg)))))"

text \<open>It is the step of \<open>server_main\<close>.\<close>

lemma choose_auth_main:
  "bind (choose_auth cfg) (\<lambda>x. Ret (case x of Inl e \<Rightarrow> Some e | Inr _ \<Rightarrow> None)) =
     (if cf_oidcIssuer cfg \<noteq> [] then NewOIDCAuth (cf_oidcIssuer cfg) else Ret None)"
  by (auto simp: choose_auth_def OIDCAuth_of_def NewOIDCAuth_def ask_def fun_eq_iff split: option.split)

section \<open>The development login's other handlers\<close>

definition DevLogoutHandler :: handler where
  "DevLogoutHandler rq u = bind (ask SessionGet dec_session) (\<lambda>session.
     bind (ask (SessionSave (session\<lparr>se_maxAge := - 1\<rparr>)) dec_error) (\<lambda>_.
       Ret (Redirect StatusFound ''/'')))"

definition DevRequireAdmin :: middleware where
  "DevRequireAdmin next rq u =
     (case u of
        None \<Rightarrow> Ret (HTTPError StatusForbidden ''admin access required'')
      | Some v \<Rightarrow> if us_role v \<noteq> ''admin'' then Ret (HTTPError StatusForbidden ''admin access required'') else next rq u)"

text \<open>They are those of OIDC, which the routes of \<^verbatim>\<open>RegisterRoutes\<close> are given.\<close>

lemma dev_same: "DevLogoutHandler = LogoutHandler" "DevRequireAdmin = RequireAdmin"
  by (auto simp: fun_eq_iff DevLogoutHandler_def LogoutHandler_def DevRequireAdmin_def RequireAdmin_def split: option.split)

text \<open>Sessions are protected as configured: the login with a provider uses the configured client, and accepts
  tokens made for that client only; there is a development login exactly when no issuer is set; the cookies are
  signed with the configured secret (the development login alone has a fixed one for when there is none),
  are not sent along with requests other sites make, and go over HTTPS only if the base URL is one of HTTPS.\<close>

definition protected_store :: "config \<Rightarrow> cookie_store \<Rightarrow> bool" where
  "protected_store cfg st \<longleftrightarrow> ck_sameSiteLax st \<and> ck_secure st = hasPrefix (cf_baseURL cfg) ''https://''
     \<and> (cf_sessionSecret cfg \<noteq> [] \<or> cf_oidcIssuer cfg \<noteq> [] \<longrightarrow> ck_secret st = cf_sessionSecret cfg) \<and> (cf_oidcIssuer cfg = [] \<longrightarrow> ck_secret st \<noteq> [])"

theorem choose_auth_spec:
  "rg (\<lambda>_ _. True) (\<lambda>h c. h = [] \<and> c = NewProvider (cf_oidcIssuer cfg) \<and> cf_oidcIssuer cfg \<noteq> []) [] (choose_auth cfg) (\<lambda>h x. case x of
     Inl e \<Rightarrow> cf_oidcIssuer cfg \<noteq> []
   | Inr (Some a, None) \<Rightarrow> cf_oidcIssuer cfg \<noteq> [] \<and> oa_issuer a = cf_oidcIssuer cfg \<and> oa_audience a = cf_oidcClientID cfg
       \<and> oc_clientID (oa_oauth2Config a) = cf_oidcClientID cfg \<and> oc_clientSecret (oa_oauth2Config a) = cf_oidcClientSecret cfg
       \<and> oc_redirectURL (oa_oauth2Config a) = cf_oidcRedirectURL cfg \<and> ''openid'' \<in> set (oc_scopes (oa_oauth2Config a))
       \<and> protected_store cfg (oa_store a)
   | Inr (None, Some st) \<Rightarrow> cf_oidcIssuer cfg = [] \<and> protected_store cfg st
   | Inr _ \<Rightarrow> False)"
  by (auto simp: choose_auth_def OIDCAuth_of_def DevAuth_of_def session_store_def dev_session_key_def protected_store_def split: option.split)

section \<open>Serving and stopping\<close>

text \<open>Where \<^verbatim>\<open>main\<close> is: at \<^verbatim>\<open><-ctx.Done()\<close>, or in \<^verbatim>\<open>e.Shutdown\<close> with some seconds left.\<close>

datatype main_at = Waiting | Draining nat

text \<open>
  The process: whether the other goroutine is in \<^verbatim>\<open>e.Start\<close>, whether the listener accepts, the requests in flight and those that
  were answered, whether the database pool is open, the log, and the exit status once it ended.
\<close>

record process =
  pr_starting :: bool
  pr_open :: bool
  pr_requests :: nat
  pr_answered :: nat
  pr_main :: main_at
  pr_pool :: bool
  pr_log :: "string list"
  pr_exit :: "int option"

definition served_from :: process where
  "served_from = \<lparr>pr_starting = True, pr_open = True, pr_requests = 0, pr_answered = 0, pr_main = Waiting, pr_pool = True,
     pr_log = [], pr_exit = None\<rparr>"

datatype happening =
  Request | Answer | StartFails string | StartCloses | Signal | Second | ShutdownDone | ShutdownFails string

text \<open>\<^verbatim>\<open>log.Fatalf\<close> ends the process without the deferred calls; at the end of \<^verbatim>\<open>main\<close> they close the pool.\<close>

definition fatal :: "string \<Rightarrow> process \<Rightarrow> process" where
  "fatal message p = p\<lparr>pr_log := pr_log p @ [message], pr_exit := Some 1\<rparr>"

definition main_ends :: "process \<Rightarrow> process" where
  "main_ends p = p\<lparr>pr_log := pr_log p @ [''server stopped''], pr_pool := False, pr_exit := Some 0\<rparr>"

fun happens :: "happening \<Rightarrow> process \<Rightarrow> process option" where
  "happens Request p = (if pr_open p then Some (p\<lparr>pr_requests := pr_requests p + 1\<rparr>) else None)"
| "happens Answer p = (if pr_requests p > 0
     then Some (p\<lparr>pr_requests := pr_requests p - 1, pr_answered := pr_answered p + 1\<rparr>) else None)"
| "happens (StartFails e) p = (if pr_starting p \<and> pr_open p then Some (fatal (''server error: '' @ e) p) else None)"
| "happens StartCloses p = (if pr_starting p \<and> \<not> pr_open p then Some (p\<lparr>pr_starting := False\<rparr>) else None)"
| "happens Signal p = (if pr_main p = Waiting
     then Some (p\<lparr>pr_log := pr_log p @ [''shutting down server...''], pr_open := False, pr_main := Draining 10\<rparr>) else None)"
| "happens Second p = (case pr_main p of Draining (Suc n) \<Rightarrow> Some (p\<lparr>pr_main := Draining n\<rparr>) | _ \<Rightarrow> None)"
| "happens ShutdownDone p = (if pr_main p \<noteq> Waiting \<and> pr_requests p = 0 then Some (main_ends p) else None)"
| "happens (ShutdownFails e) p = (if pr_main p = Draining 0 then Some (fatal (''server shutdown error: '' @ e) p) else None)"

inductive process_run :: "process \<Rightarrow> happening list \<Rightarrow> process \<Rightarrow> bool" where
  stay: "process_run p [] p"
| step: "process_run p hs p' \<Longrightarrow> pr_exit p' = None \<Longrightarrow> happens h p' = Some p'' \<Longrightarrow> process_run p (hs @ [h]) p''"

text \<open>What always holds.\<close>

definition process_ok :: "process \<Rightarrow> bool" where
  "process_ok p \<longleftrightarrow> (pr_open p \<longleftrightarrow> pr_main p = Waiting) \<and> (pr_open p \<longrightarrow> pr_starting p) \<and> (pr_pool p \<longleftrightarrow> pr_exit p \<noteq> Some 0)
     \<and> (case pr_exit p of None \<Rightarrow> True
        | Some c \<Rightarrow> c = 0 \<and> pr_main p \<noteq> Waiting \<and> pr_requests p = 0
            \<or> c = 1 \<and> (pr_main p = Waiting \<and> (\<exists>e. last (pr_log p) = ''server error: '' @ e)
                      \<or> pr_main p = Draining 0 \<and> (\<exists>e. last (pr_log p) = ''server shutdown error: '' @ e)))"

lemma happens_ok:
  assumes "process_ok p" "pr_exit p = None" "happens h p = Some p'"
  shows "process_ok p'"
  using assms by (cases h) (auto simp: process_ok_def fatal_def main_ends_def split: if_splits main_at.splits nat.splits)

lemma run_ok: "process_run p hs p' \<Longrightarrow> process_ok p \<Longrightarrow> process_ok p'"
  by (induction rule: process_run.induct) (auto intro: happens_ok)

text \<open>A bound on what can still happen once \<^verbatim>\<open>main\<close> drains.\<close>

fun seconds_left :: "main_at \<Rightarrow> nat" where
  "seconds_left Waiting = 0" | "seconds_left (Draining n) = n"

definition to_come :: "process \<Rightarrow> nat" where
  "to_come p = pr_requests p + seconds_left (pr_main p) + (if pr_starting p then 1 else 0) + (if pr_exit p = None then 1 else 0)"

lemma draining_step:
  assumes "process_ok p" "pr_main p \<noteq> Waiting" "pr_exit p = None" "happens h p = Some p'"
  shows "to_come p' < to_come p" "pr_main p' \<noteq> Waiting" "pr_answered p' + pr_requests p' = pr_answered p + pr_requests p"
  using assms by (cases h; auto simp: process_ok_def to_come_def fatal_def main_ends_def split: if_splits main_at.splits nat.splits)+

lemma draining_run:
  assumes "process_run p hs p'" "process_ok p" "pr_main p \<noteq> Waiting"
  shows "length hs + to_come p' \<le> to_come p \<and> pr_main p' \<noteq> Waiting \<and> pr_answered p' + pr_requests p' = pr_answered p + pr_requests p"
  using assms
proof (induction rule: process_run.induct)
  case (step p hs p' h p'')
  then show ?case using draining_step [OF run_ok [OF step.hyps(1)] _ step.hyps(2,3)] by fastforce
qed simp

lemma draining_goes_on:
  assumes "pr_main p \<noteq> Waiting" "pr_exit p = None"
  shows "\<exists>h. happens h p \<noteq> None"
proof (cases "pr_main p")
  case (Draining n)
  show ?thesis
  proof (cases n)
    case 0
    with Draining show ?thesis by (intro exI [of _ "ShutdownFails []"]) simp
  next
    case (Suc m)
    with Draining show ?thesis by (intro exI [of _ Second]) simp
  qed
qed (use assms in simp)

text \<open>What the history says.\<close>

definition told :: "happening list \<Rightarrow> process \<Rightarrow> bool" where
  "told hs p \<longleftrightarrow> (Signal \<in> set hs \<longleftrightarrow> pr_main p \<noteq> Waiting)
     \<and> (pr_exit p = Some 1 \<and> pr_main p = Waiting \<longrightarrow> (\<exists>e. last (pr_log p) = ''server error: '' @ e \<and> StartFails e \<in> set hs))"

lemma happens_told:
  assumes "told hs p" "pr_exit p = None" "happens h p = Some p'"
  shows "told (hs @ [h]) p'"
  using assms by (cases h) (auto simp: told_def fatal_def main_ends_def split: if_splits main_at.splits nat.splits)

lemma run_told: "process_run p hs p' \<Longrightarrow> pr_main p = Waiting \<Longrightarrow> pr_exit p = None \<Longrightarrow> told hs p'"
  by (induction rule: process_run.induct) (auto simp: told_def [of "[]"] intro: happens_told)

lemma served_from_ok: "process_ok served_from"
  by (simp add: process_ok_def served_from_def)


text \<open>A request comes in, the signal comes, the request is answered in the second second, and the server stops.\<close>

lemma process_run_Cons:
  assumes "happens h p = Some p'" "pr_exit p = None" "process_run p' hs q"
  shows "process_run p (h # hs) q"
  using assms(3,1,2)
proof (induction rule: process_run.induct)
  case (stay p')
  then show ?case using process_run.step [OF process_run.stay, of p h p'] by simp
next
  case (step p' hs q h' q')
  then show ?case using process_run.step [of p "h # hs" q h' q'] by simp
qed

fun run_of :: "happening list \<Rightarrow> process \<Rightarrow> process option" where
  "run_of [] p = Some p"
| "run_of (h # hs) p = (if pr_exit p = None then Option.bind (happens h p) (run_of hs) else None)"

lemma run_of_run: "run_of hs p = Some q \<Longrightarrow> process_run p hs q"
  by (induction hs arbitrary: p) (auto intro: process_run.stay process_run_Cons split: if_splits bind_splits)

definition sample_end :: process where
  "sample_end = \<lparr>pr_starting = False, pr_open = False, pr_requests = 0, pr_answered = 1, pr_main = Draining 9, pr_pool = False,
     pr_log = [''shutting down server...'', ''server stopped''], pr_exit = Some 0\<rparr>"

definition sample_draining :: process where
  "sample_draining = \<lparr>pr_starting = True, pr_open = False, pr_requests = 1, pr_answered = 0, pr_main = Draining 10, pr_pool = True,
     pr_log = [''shutting down server...''], pr_exit = None\<rparr>"

lemma sample_runs:
  "process_run served_from [Request, Signal] sample_draining"
  "process_run sample_draining [StartCloses, Second, Answer, ShutdownDone] sample_end"
  by (rule run_of_run; simp add: served_from_def sample_draining_def sample_end_def main_ends_def)+




end
