(* ===== verification/Cluster.thy ===== *)
theory Cluster
  imports OperatorSafety
begin

text \<open>
  The cluster the operator works on, as far as the API server documents it: it keeps objects by namespace and name;
  it gives what it changes a new version, and leaves an object that would not change alone; of a deployment and an
  instance the status is written separately from the rest; an instance that is being deleted goes with its last
  finalizer; a namespace that is deleted goes with what is in it, at once or later. The locale \<open>kube_kind\<close> states what
  \<open>createOrUpdate\<close> needs of the calls for one kind of object. The other definitions say when the objects of an instance
  are as they should be.
\<close>

section \<open>The cluster\<close>

text \<open>What the server keeps of the operator's objects (\<open>cu_rev\<close> stands for all else it keeps), and what it was sent.\<close>

type_synonym key = "string \<times> string"

record cluster =
  cu_rev :: nat
  cu_instances :: "key \<rightharpoonup> claw_instance"
  cu_namespaces :: "string \<rightharpoonup> kube_namespace"
  cu_pvcs :: "key \<rightharpoonup> kube_pvc"
  cu_deployments :: "key \<rightharpoonup> kube_deployment"
  cu_services :: "key \<rightharpoonup> kube_service"
  cu_netpols :: "key \<rightharpoonup> kube_netpol"
  cu_events :: "(string \<times> string \<times> string) list"
  cu_posts :: "(string \<times> string) list"

type_synonym api = "ocall \<Rightarrow> cluster \<Rightarrow> oanswer \<times> cluster"

definition key_of :: "object_meta \<Rightarrow> key" where
  "key_of m = (om_namespace m, om_name m)"

text \<open>
  What becomes of an object that is written over \<open>old\<close>: \<open>meta\<close> reads its metadata, \<open>adjust version created deleted
  old new\<close> is \<open>new\<close> with the fields the server owns.
\<close>

type_synonym 'o adjuster = "string \<Rightarrow> int option \<Rightarrow> int option \<Rightarrow> 'o option \<Rightarrow> 'o \<Rightarrow> 'o"

definition stored_as :: "('o \<Rightarrow> object_meta) \<Rightarrow> 'o adjuster \<Rightarrow> 'o option \<Rightarrow> 'o \<Rightarrow> 'o \<Rightarrow> bool" where
  "stored_as meta adjust old new z = (case old of
     None \<Rightarrow> \<exists>v c. z = adjust v (Some c) None None new
   | Some x \<Rightarrow>
       if adjust (om_version (meta x)) (om_created (meta x)) (om_deleted (meta x)) old new = x then z = x
       else \<exists>v. z = adjust v (om_created (meta x)) (om_deleted (meta x)) old new)"

definition writable :: "('o \<Rightarrow> object_meta) \<Rightarrow> 'o option \<Rightarrow> 'o \<Rightarrow> bool" where
  "writable meta old new \<longleftrightarrow> om_version (meta new) = (case old of None \<Rightarrow> [] | Some x \<Rightarrow> om_version (meta x))"

lemma stored_over:
  assumes "stored_as meta adjust (Some x) new z"
  shows "\<exists>v. z = adjust v (om_created (meta x)) (om_deleted (meta x)) (Some x) new"
  using assms by (auto simp: stored_as_def split: if_splits) metis

lemma stored_as_adjust:
  assumes "stored_as meta adjust old new z"
  shows "\<exists>v c d. z = adjust v c d old new
    \<and> (case old of None \<Rightarrow> c \<noteq> None \<and> d = None | Some x \<Rightarrow> c = om_created (meta x) \<and> d = om_deleted (meta x))"
  using assms stored_over [of meta adjust _ new z] by (cases old) (fastforce simp: stored_as_def)+

definition stamp :: "string \<Rightarrow> int option \<Rightarrow> int option \<Rightarrow> object_meta \<Rightarrow> object_meta" where
  "stamp v c d m = m\<lparr>om_version := v, om_created := c, om_deleted := d\<rparr>"

definition adjust_namespace :: "kube_namespace adjuster" where
  "adjust_namespace v c d old x = x\<lparr>ns_meta := stamp v c d (ns_meta x)\<rparr>"
definition adjust_pvc :: "kube_pvc adjuster" where
  "adjust_pvc v c d old x = x\<lparr>pvc_meta := stamp v c d (pvc_meta x)\<rparr>"
definition adjust_deployment :: "kube_deployment adjuster" where
  "adjust_deployment v c d old x = x\<lparr>de_meta := stamp v c d (de_meta x),
     de_readyReplicas := (case old of None \<Rightarrow> 0 | Some y \<Rightarrow> de_readyReplicas y)\<rparr>"
definition adjust_service :: "kube_service adjuster" where
  "adjust_service v c d old x = x\<lparr>sv_meta := stamp v c d (sv_meta x)\<rparr>"
definition adjust_netpol :: "kube_netpol adjuster" where
  "adjust_netpol v c d old x = x\<lparr>np_meta := stamp v c d (np_meta x)\<rparr>"

text \<open>An instance's generation counts the changes of its specification.\<close>

definition adjust_instance :: "claw_instance adjuster" where
  "adjust_instance v c d old x = x\<lparr>
     ci_meta := (stamp v c d (ci_meta x))\<lparr>om_generation := (case old of None \<Rightarrow> 1
       | Some y \<Rightarrow> om_generation (ci_meta y) + (if ci_spec x = ci_spec y then 0 else 1))\<rparr>,
     ci_status := (case old of None \<Rightarrow> empty_status | Some y \<Rightarrow> ci_status y)\<rparr>"

definition adjust_status :: "claw_instance adjuster" where
  "adjust_status v c d old x = (case old of None \<Rightarrow> x
     | Some y \<Rightarrow> y\<lparr>ci_meta := (ci_meta y)\<lparr>om_version := v\<rparr>, ci_status := ci_status x\<rparr>)"

text \<open>What is found of an object; a call that looks for one that is not there is told so.\<close>

definition found :: "'o option \<Rightarrow> 'o \<Rightarrow> go_error + 'o" where
  "found old x = Inr (case old of None \<Rightarrow> x | Some y \<Rightarrow> y)"

definition answers :: "'o option \<Rightarrow> go_error + 'o \<Rightarrow> bool" where
  "answers old a = (case old of None \<Rightarrow> \<exists>e. a = Inl e \<and> isNotFound e | Some x \<Rightarrow> a = Inr x)"

text \<open>An instance that is being deleted is removed with its last finalizer.\<close>

definition put_instance :: "key \<Rightarrow> claw_instance \<Rightarrow> nat \<Rightarrow> cluster \<Rightarrow> cluster" where
  "put_instance k x n w = w\<lparr>cu_rev := n, cu_instances := (cu_instances w)(k \<mapsto> x)\<rparr>"

definition put_or_remove :: "key \<Rightarrow> claw_instance \<Rightarrow> nat \<Rightarrow> cluster \<Rightarrow> cluster" where
  "put_or_remove k x n w = (if om_deleted (ci_meta x) \<noteq> None \<and> om_finalizers (ci_meta x) = []
     then w\<lparr>cu_rev := n, cu_instances := (cu_instances w)(k := None)\<rparr> else put_instance k x n w)"

text \<open>A namespace that is deleted is gone, with all that is in it, or is on its way.\<close>

definition outside :: "string \<Rightarrow> (key \<rightharpoonup> 'o) \<Rightarrow> (key \<rightharpoonup> 'o)" where
  "outside ns m = (\<lambda>(a, b). if a = ns then None else m (a, b))"

definition drop_namespace :: "string \<Rightarrow> nat \<Rightarrow> cluster \<Rightarrow> cluster" where
  "drop_namespace ns n w = w\<lparr>cu_rev := n,
     cu_namespaces := (cu_namespaces w)(ns := None), cu_pvcs := outside ns (cu_pvcs w),
     cu_deployments := outside ns (cu_deployments w), cu_services := outside ns (cu_services w),
     cu_netpols := outside ns (cu_netpols w), cu_instances := outside ns (cu_instances w)\<rparr>"

definition close_namespace :: "string \<Rightarrow> kube_namespace \<Rightarrow> string \<Rightarrow> int \<Rightarrow> nat \<Rightarrow> cluster \<Rightarrow> cluster" where
  "close_namespace ns a v t n w = w\<lparr>cu_rev := n,
     cu_namespaces := (cu_namespaces w)(ns \<mapsto> a\<lparr>ns_meta := stamp v (om_created (ns_meta a)) (Some t) (ns_meta a)\<rparr>)\<rparr>"

text \<open>Objects are kept under their own keys, and labels are kept sorted.\<close>

definition keyed :: "('o \<Rightarrow> 'k) \<Rightarrow> ('k \<rightharpoonup> 'o) \<Rightarrow> bool" where
  "keyed key m \<longleftrightarrow> (\<forall>k x. m k = Some x \<longrightarrow> key x = k)"

definition cluster_ok :: "cluster \<Rightarrow> bool" where
  "cluster_ok w \<longleftrightarrow> keyed (key_of \<circ> ci_meta) (cu_instances w) \<and> keyed (om_name \<circ> ns_meta) (cu_namespaces w)
     \<and> keyed (key_of \<circ> pvc_meta) (cu_pvcs w) \<and> keyed (key_of \<circ> de_meta) (cu_deployments w)
     \<and> keyed (key_of \<circ> sv_meta) (cu_services w) \<and> keyed (key_of \<circ> np_meta) (cu_netpols w)
     \<and> (\<forall>n x. cu_namespaces w n = Some x \<longrightarrow> keys_sorted (om_labels (ns_meta x)))"

section \<open>The objects of an instance\<close>

text \<open>What a mutate function made it leaves as it is, also after the server's fields were set.\<close>

lemma mutate_stays:
  "namespace_mutate i x1 = Returned y1 \<Longrightarrow> keys_sorted (om_labels (ns_meta x1)) \<Longrightarrow>
     namespace_mutate i (adjust_namespace v c d o1 y1) = Returned (adjust_namespace v c d o1 y1)"
  "pvc_mutate q i x2 = Returned y2 \<Longrightarrow> c = om_created (pvc_meta x2) \<or> c \<noteq> None \<Longrightarrow>
     pvc_mutate q i (adjust_pvc v c d o2 y2) = Returned (adjust_pvc v c d o2 y2)"
  "deployment_mutate q r i x3 = Returned y3 \<Longrightarrow>
     deployment_mutate q r i (adjust_deployment v c d o3 y3) = Returned (adjust_deployment v c d o3 y3)"
  "service_mutate r i x4 = Returned y4 \<Longrightarrow>
     service_mutate r i (adjust_service v c d o4 y4) = Returned (adjust_service v c d o4 y4)"
  "netpol_mutate r i x5 = Returned y5 \<Longrightarrow>
     netpol_mutate r i (adjust_netpol v c d o5 y5) = Returned (adjust_netpol v c d o5 y5)"
proof -
  assume y1: "namespace_mutate i x1 = Returned y1" and sorted: "keys_sorted (om_labels (ns_meta x1))"
  then show "namespace_mutate i (adjust_namespace v c d o1 y1) = Returned (adjust_namespace v c d o1 y1)"
    by (auto simp: namespace_mutate_def adjust_namespace_def stamp_def Let_def put_twice [OF sorted])
next
  assume "pvc_mutate q i x2 = Returned y2" "c = om_created (pvc_meta x2) \<or> c \<noteq> None"
  then show "pvc_mutate q i (adjust_pvc v c d o2 y2) = Returned (adjust_pvc v c d o2 y2)"
    by (auto simp: pvc_mutate_def adjust_pvc_def stamp_def Let_def split: if_splits outcome.splits)
qed (auto simp: deployment_mutate_def adjust_deployment_def service_mutate_def adjust_service_def netpol_mutate_def
      adjust_netpol_def stamp_def Let_def split: outcome.splits)

text \<open>A mutate function leaves name, namespace, version and, of a deployment, the replicas.\<close>

lemma mutate_keeps:
  "namespace_mutate i x1 = Returned y1 \<Longrightarrow> om_name (ns_meta y1) = om_name (ns_meta x1) \<and> om_version (ns_meta y1) = om_version (ns_meta x1)"
  "pvc_mutate q i x2 = Returned y2 \<Longrightarrow> key_of (pvc_meta y2) = key_of (pvc_meta x2) \<and> om_version (pvc_meta y2) = om_version (pvc_meta x2)"
  "deployment_mutate q r i x3 = Returned y3 \<Longrightarrow> key_of (de_meta y3) = key_of (de_meta x3) \<and> om_version (de_meta y3) = om_version (de_meta x3)"
  "service_mutate r i x4 = Returned y4 \<Longrightarrow> key_of (sv_meta y4) = key_of (sv_meta x4) \<and> om_version (sv_meta y4) = om_version (sv_meta x4)"
  "netpol_mutate r i x5 = Returned y5 \<Longrightarrow> key_of (np_meta y5) = key_of (np_meta x5) \<and> om_version (np_meta y5) = om_version (np_meta x5)"
  by (auto simp: object_defs key_of_def Let_def split: outcome.splits if_splits)

text \<open>They depend on the name and the specification of the instance only.\<close>

lemma mutate_cong:
  assumes "instance_name i' = instance_name i" "ci_spec i' = ci_spec i"
  shows "namespace_mutate i' = namespace_mutate i" "pvc_mutate q i' = pvc_mutate q i" "deployment_mutate q r i' = deployment_mutate q r i"
    "service_mutate r i' = service_mutate r i" "netpol_mutate r i' = netpol_mutate r i"
  unfolding fun_eq_iff object_defs initContainers_of_def gatewayConfig_of_def openclaw_container_def assms by (rule allI, rule refl)+

text \<open>All five objects are there, and each is as the reconciler would leave it.\<close>

definition home_ns :: "claw_instance \<Rightarrow> string" where
  "home_ns i = ''clawbake-'' @ instance_name i"

definition desired :: "operator_lib \<Rightarrow> reconciler \<Rightarrow> claw_instance \<Rightarrow> cluster \<Rightarrow> bool" where
  "desired lib r i w \<longleftrightarrow>
     (\<exists>x. cu_namespaces w (home_ns i) = Some x \<and> namespace_mutate i x = Returned x)
   \<and> (\<exists>x. cu_pvcs w (home_ns i, ''openclaw-data'') = Some x \<and> pvc_mutate (ol_quantity_ok lib) i x = Returned x)
   \<and> (\<exists>x. cu_deployments w (home_ns i, ''openclaw'') = Some x \<and> deployment_mutate (ol_quantity_ok lib) r i x = Returned x)
   \<and> (\<exists>x. cu_services w (home_ns i, ''openclaw'') = Some x \<and> service_mutate r i x = Returned x)
   \<and> (\<exists>x. cu_netpols w (home_ns i, ''allow-clawbake-server-only'') = Some x \<and> netpol_mutate r i x = Returned x)"

definition ready_replicas :: "claw_instance \<Rightarrow> cluster \<Rightarrow> int" where
  "ready_replicas i w = (case cu_deployments w (home_ns i, ''openclaw'') of None \<Rightarrow> 0 | Some d \<Rightarrow> de_readyReplicas d)"

text \<open>The same cluster but for the five objects of the instance, and the revision.\<close>

definition same_but_home :: "claw_instance \<Rightarrow> cluster \<Rightarrow> cluster \<Rightarrow> bool" where
  "same_but_home i w w' \<longleftrightarrow> (\<exists>n a b c d e. w' = w\<lparr>cu_rev := n,
     cu_namespaces := (cu_namespaces w)(home_ns i \<mapsto> a), cu_pvcs := (cu_pvcs w)((home_ns i, ''openclaw-data'') \<mapsto> b),
     cu_deployments := (cu_deployments w)((home_ns i, ''openclaw'') \<mapsto> c), cu_services := (cu_services w)((home_ns i, ''openclaw'') \<mapsto> d),
     cu_netpols := (cu_netpols w)((home_ns i, ''allow-clawbake-server-only'') \<mapsto> e)\<rparr>)"

text \<open>The tail of \<open>reconcileResources\<close>, after the objects.\<close>

definition finish :: "operator_lib \<Rightarrow> notifier option \<Rightarrow> claw_instance \<Rightarrow> int outcome oprog" where
  "finish lib notify i = orReturn (ask (GetDeployment (home_ns i) ''openclaw'') dec_deployment) (\<lambda>deploy.
     let i' = i\<lparr>ci_status := (ci_status i)\<lparr>st_namespace := home_ns i\<rparr>\<rparr> in
     if de_readyReplicas deploy \<ge> 1 then declareRunning lib notify i' else declareStarting lib i')"

lemma reconcileResources_finish:
  "reconcileResources lib r notify i =
     orFailed lib i ''NamespaceFailed'' (reconcileNamespace i (home_ns i)) (
     orFailed lib i ''PVCFailed'' (reconcilePVC lib i (home_ns i)) (
     orFailed lib i ''DeploymentFailed'' (reconcileDeployment lib r i (home_ns i)) (
     orFailed lib i ''ServiceFailed'' (reconcileService r i (home_ns i)) (
     orFailed lib i ''NetworkPolicyFailed'' (reconcileNetworkPolicy r i (home_ns i)) (finish lib notify i)))))"
  by (simp add: reconcileResources_def finish_def home_ns_def Let_def)

lemma run_orFailed:
  "run s p w = (Returned x, w') \<Longrightarrow> run s (orFailed lib i reason p k) w = run s k w'"
  by (simp add: orFailed_def run_bind)

lemma new_keys:
  "om_name (ns_meta (new_namespace n)) = n" "key_of (pvc_meta (new_pvc ns n)) = (ns, n)"
  "key_of (de_meta (new_deployment ns n)) = (ns, n)" "key_of (sv_meta (new_service ns n)) = (ns, n)"
  "key_of (np_meta (new_netpol ns n)) = (ns, n)"
  "om_version (ns_meta (new_namespace n)) = []" "om_version (pvc_meta (new_pvc ns n)) = []" "om_version (de_meta (new_deployment ns n)) = []"
  "om_version (sv_meta (new_service ns n)) = []" "om_version (np_meta (new_netpol ns n)) = []"
  by (simp_all add: key_of_def named_meta_def empty_meta_def new_namespace_def new_pvc_def new_deployment_def new_service_def new_netpol_def)

section \<open>Creating or updating one object\<close>

definition open_home :: "('o \<Rightarrow> object_meta) \<Rightarrow> cluster \<Rightarrow> 'o \<Rightarrow> bool" where
  "open_home meta w x \<longleftrightarrow> (\<exists>a. cu_namespaces w (om_namespace (meta x)) = Some a \<and> om_deleted (ns_meta a) = None)"

definition standing :: "(cluster \<Rightarrow> 'k \<rightharpoonup> 'o) \<Rightarrow> ('o \<Rightarrow> 'k) \<Rightarrow> cluster \<Rightarrow> 'o \<Rightarrow> 'o" where
  "standing objs key w x = (case objs w (key x) of None \<Rightarrow> x | Some y \<Rightarrow> y)"

text \<open>What \<open>createOrUpdate\<close> needs of the calls for one kind of object, and what it does then.\<close>

locale kube_kind =
  fixes serve :: api and fetch :: "'o \<Rightarrow> ocall" and dec :: "oanswer \<Rightarrow> go_error + 'o" and store :: "'o \<Rightarrow> ocall"
    and objs :: "cluster \<Rightarrow> 'k \<rightharpoonup> 'o" and upd :: "('k \<rightharpoonup> 'o) \<Rightarrow> cluster \<Rightarrow> cluster"
    and key :: "'o \<Rightarrow> 'k" and meta :: "'o \<Rightarrow> object_meta" and adjust :: "'o adjuster" and home :: "cluster \<Rightarrow> 'o \<Rightarrow> bool"
  assumes fetch_law: "\<exists>a. serve (fetch x) w = (a, w) \<and> dec a = found (objs w (key x)) x"
    and write_law: "home w x \<Longrightarrow> writable meta (objs w (key x)) x \<Longrightarrow>
      \<exists>z n. serve (store x) w = (ADone None, upd ((objs w)(key x \<mapsto> z)) (w\<lparr>cu_rev := n\<rparr>))
        \<and> stored_as meta adjust (objs w (key x)) x z \<and> (objs w (key x) = Some z \<longrightarrow> n = cu_rev w)"
    and adjust_same: "adjust (om_version (meta x)) (om_created (meta x)) (om_deleted (meta x)) (Some x) x = x"
    and adjust_key: "key (adjust v c d old x) = key x"
    and upd_same: "upd (objs w) w = w"
begin

text \<open>The object is there afterwards, and is one that \<open>mutate\<close> leaves as it is.\<close>

lemma settles:
  assumes "mutate (standing objs key w x) = Returned y" "key y = key x" "om_version (meta y) = om_version (meta (standing objs key w x))"
    and new: "om_version (meta x) = []" and home: "home w y"
    and stays: "\<And>v c d old. c = om_created (meta (standing objs key w x)) \<or> c \<noteq> None \<Longrightarrow>
      mutate (adjust v c d old y) = Returned (adjust v c d old y)"
  shows "\<exists>z n. run serve (createOrUpdate fetch dec store mutate x) w = (Returned (), upd ((objs w)(key x \<mapsto> z)) (w\<lparr>cu_rev := n\<rparr>))
    \<and> mutate z = Returned z \<and> key z = key x \<and> stored_as meta adjust (objs w (key x)) y z"
proof -
  have writable: "writable meta (objs w (key y)) y"
    using assms(2,3) new by (simp add: writable_def standing_def split: option.split)
  obtain z n where z: "serve (store y) w = (ADone None, upd ((objs w)(key x \<mapsto> z)) (w\<lparr>cu_rev := n\<rparr>))"
    "stored_as meta adjust (objs w (key x)) y z"
    using write_law [OF home writable] unfolding assms(2) by blast
  have "run serve (createOrUpdate fetch dec store mutate x) w = (Returned (), upd ((objs w)(key x \<mapsto> z)) (w\<lparr>cu_rev := n\<rparr>))"
    using fetch_law [of x w] assms(1) z(1) by (auto simp: createOrUpdate_def orReturn_def found_def standing_def)
  moreover obtain v c d where vcd: "z = adjust v c d (objs w (key x)) y" "c = om_created (meta (standing objs key w x)) \<or> c \<noteq> None"
    using stored_as_adjust [OF z(2)] by (auto simp: standing_def split: option.splits)
  moreover have "mutate z = Returned z" unfolding vcd(1) by (rule stays [OF vcd(2)])
  moreover have "key z = key x" unfolding vcd(1) adjust_key by (rule assms(2))
  ultimately show ?thesis using z(2) by (intro exI [of _ z] exI [of _ n]) simp
qed

text \<open>Once it is there, doing it again changes nothing.\<close>

lemma settled:
  assumes "objs w (key x) = Some z" "mutate z = Returned z" "key z = key x" "home w z"
  shows "run serve (createOrUpdate fetch dec store mutate x) w = (Returned (), w)"
proof -
  have writable: "writable meta (objs w (key z)) z" using assms(1,3) by (simp add: writable_def)
  obtain z' n where z': "serve (store z) w = (ADone None, upd ((objs w)(key x \<mapsto> z')) (w\<lparr>cu_rev := n\<rparr>))"
    "stored_as meta adjust (Some z) z z'" "z' = z \<longrightarrow> n = cu_rev w"
    using write_law [OF assms(4) writable] unfolding assms(1,3) by auto
  have "z' = z" using z'(2) by (simp add: stored_as_def adjust_same)
  moreover have "(objs w)(key x \<mapsto> z) = objs w" using assms(1) by (simp add: map_upd_triv)
  ultimately have "serve (store z) w = (ADone None, w)" using z'(1,3) upd_same [of w] by simp
  with assms(1,2) fetch_law [of x w] show ?thesis by (auto simp: createOrUpdate_def orReturn_def found_def)
qed

end

lemma object_standing:
  assumes "cluster_ok w"
  shows "key_of (pvc_meta (standing cu_pvcs (\<lambda>x. key_of (pvc_meta x)) w (new_pvc ns n))) = (ns, n)"
    "key_of (de_meta (standing cu_deployments (\<lambda>x. key_of (de_meta x)) w (new_deployment ns n))) = (ns, n)"
    "key_of (sv_meta (standing cu_services (\<lambda>x. key_of (sv_meta x)) w (new_service ns n))) = (ns, n)"
    "key_of (np_meta (standing cu_netpols (\<lambda>x. key_of (np_meta x)) w (new_netpol ns n))) = (ns, n)"
  using assms by (auto simp: standing_def new_keys cluster_ok_def keyed_def split: option.split)

lemma open_home_key:
  "key_of (meta x) = (ns, n) \<Longrightarrow> open_home meta w x \<longleftrightarrow> (\<exists>a. cu_namespaces w ns = Some a \<and> om_deleted (ns_meta a) = None)"
  by (auto simp: open_home_def key_of_def)

definition home_open :: "claw_instance \<Rightarrow> cluster \<Rightarrow> bool" where
  "home_open i w \<longleftrightarrow> (\<forall>a. cu_namespaces w (home_ns i) = Some a \<longrightarrow> om_deleted (ns_meta a) = None)"

lemma keyed_upd: "keyed key m \<Longrightarrow> key z = k \<Longrightarrow> keyed key (m(k \<mapsto> z))"
  by (auto simp: keyed_def)

lemma cluster_ok_upd:
  assumes "cluster_ok w"
  shows "cluster_ok (w\<lparr>cu_rev := n\<rparr>)"
    "om_name (ns_meta a) = ns \<Longrightarrow> keys_sorted (om_labels (ns_meta a)) \<Longrightarrow> cluster_ok (w\<lparr>cu_namespaces := (cu_namespaces w)(ns \<mapsto> a)\<rparr>)"
    "key_of (pvc_meta b) = k \<Longrightarrow> cluster_ok (w\<lparr>cu_pvcs := (cu_pvcs w)(k \<mapsto> b)\<rparr>)"
    "key_of (de_meta c) = k \<Longrightarrow> cluster_ok (w\<lparr>cu_deployments := (cu_deployments w)(k \<mapsto> c)\<rparr>)"
    "key_of (sv_meta d) = k \<Longrightarrow> cluster_ok (w\<lparr>cu_services := (cu_services w)(k \<mapsto> d)\<rparr>)"
    "key_of (np_meta e) = k \<Longrightarrow> cluster_ok (w\<lparr>cu_netpols := (cu_netpols w)(k \<mapsto> e)\<rparr>)"
    "key_of (ci_meta i) = k \<Longrightarrow> cluster_ok (w\<lparr>cu_instances := (cu_instances w)(k \<mapsto> i)\<rparr>)"
  using assms by (auto simp: cluster_ok_def keyed_upd)

section \<open>The instance itself\<close>

text \<open>What the server makes of an instance it stores differs from it in the version at most.\<close>

definition as_stored :: "claw_instance \<Rightarrow> claw_instance \<Rightarrow> bool" where
  "as_stored i x \<longleftrightarrow> (\<exists>v. x = i\<lparr>ci_meta := (ci_meta i)\<lparr>om_version := v\<rparr>\<rparr>)"

lemma as_stored_simps:
  assumes "as_stored i x"
  shows "ci_spec x = ci_spec i" "ci_status x = ci_status i" "key_of (ci_meta x) = key_of (ci_meta i)" "instance_name x = instance_name i"
    "om_deleted (ci_meta x) = om_deleted (ci_meta i)" "has_finalizer lib x = has_finalizer lib i"
    "om_generation (ci_meta x) = om_generation (ci_meta i)" "om_finalizers (ci_meta x) = om_finalizers (ci_meta i)"
  using assms by (auto simp: as_stored_def key_of_def has_finalizer_def)

lemma as_stored_refl [simp]: "as_stored i i"
  unfolding as_stored_def by (intro exI [of _ "om_version (ci_meta i)"]) simp

lemma put_instance_same: "cu_instances w k = Some x \<Longrightarrow> put_instance k x (cu_rev w) w = w"
  by (simp add: put_instance_def map_upd_triv)

lemma put_instance_twice [simp]: "put_instance k x n (put_instance k y m w) = put_instance k x n w"
  by (simp add: put_instance_def)

lemma put_instance_sel [simp]:
  "cu_instances (put_instance k x n w) = (cu_instances w)(k \<mapsto> x)" "cu_namespaces (put_instance k x n w) = cu_namespaces w"
  "cu_deployments (put_instance k x n w) = cu_deployments w" "cu_pvcs (put_instance k x n w) = cu_pvcs w"
  "cu_services (put_instance k x n w) = cu_services w" "cu_netpols (put_instance k x n w) = cu_netpols w"
  "cu_events (put_instance k x n w) = cu_events w" "cu_posts (put_instance k x n w) = cu_posts w" "cu_rev (put_instance k x n w) = n"
  by (simp_all add: put_instance_def)

lemma stored_as_instance:
  assumes adj: "\<And>v. adjust v (om_created (ci_meta i)) (om_deleted (ci_meta i)) (Some i) j = j\<lparr>ci_meta := (ci_meta j)\<lparr>om_version := v\<rparr>\<rparr>"
    and "stored_as ci_meta adjust (Some i) j z"
  shows "as_stored j z" "j = i \<Longrightarrow> z = i"
proof -
  show "as_stored j z" using stored_over [OF assms(2)] unfolding adj as_stored_def .
  assume j: "j = i"
  then show "z = i" using assms(2) adj [of "om_version (ci_meta i)"] by (simp add: stored_as_def)
qed

lemma adjust_stored:
  "ci_meta j = ci_meta i \<Longrightarrow> ci_spec j = ci_spec i \<Longrightarrow> adjust_status v c d (Some i) j = j\<lparr>ci_meta := (ci_meta j)\<lparr>om_version := v\<rparr>\<rparr>"
  "adjust_instance v (om_created (ci_meta i)) (om_deleted (ci_meta i)) (Some i) (add_finalizer lib i)
     = (add_finalizer lib i)\<lparr>ci_meta := (ci_meta (add_finalizer lib i))\<lparr>om_version := v\<rparr>\<rparr>"
  "adjust_instance v (om_created (ci_meta i)) (om_deleted (ci_meta i)) (Some i) (remove_finalizer lib i)
     = (remove_finalizer lib i)\<lparr>ci_meta := (ci_meta (remove_finalizer lib i))\<lparr>om_version := v\<rparr>\<rparr>"
  by (auto simp: adjust_status_def adjust_instance_def add_finalizer_def remove_finalizer_def stamp_def)

text \<open>The instance in the hands of \<^verbatim>\<open>Reconcile\<close> is the one that is stored, and what it was at first in all that matters.\<close>

definition finalizers_with :: "operator_lib \<Rightarrow> claw_instance \<Rightarrow> string list" where
  "finalizers_with lib i = (if has_finalizer lib i then om_finalizers (ci_meta i) else om_finalizers (ci_meta (add_finalizer lib i)))"

definition in_hand :: "claw_instance \<Rightarrow> claw_instance \<Rightarrow> cluster \<Rightarrow> bool" where
  "in_hand i0 i w \<longleftrightarrow> cu_instances w (key_of (ci_meta i)) = Some i \<and> key_of (ci_meta i) = key_of (ci_meta i0)
     \<and> ci_spec i = ci_spec i0 \<and> om_deleted (ci_meta i) = None \<and> (phase i = PhaseRunning \<longleftrightarrow> phase i0 = PhaseRunning)"

section \<open>Convergence\<close>

text \<open>What the last step makes of the instance, when the deployment has \<open>n\<close> ready replicas.\<close>

definition declared :: "operator_lib \<Rightarrow> int \<Rightarrow> claw_instance \<Rightarrow> claw_instance" where
  "declared lib n i = (let i' = i\<lparr>ci_status := (ci_status i)\<lparr>st_namespace := home_ns i\<rparr>\<rparr> in
     if n \<ge> 1 then set_ready lib ''True'' ''ReconcileComplete'' ''All resources reconciled successfully'' (set_phase PhaseRunning i')
     else set_ready lib ''False'' ''WaitingForReady'' ''Waiting for deployment to become ready'' (set_phase PhaseStarting i'))"

text \<open>Setting a condition that is set changes nothing, as \<^verbatim>\<open>meta.SetStatusCondition\<close> documents.\<close>

definition condition_laws :: "operator_lib \<Rightarrow> bool" where
  "condition_laws lib \<longleftrightarrow> (\<forall>cs c. ol_setCondition lib (ol_setCondition lib cs c) c = ol_setCondition lib cs c)"

lemma declared_simps:
  "ci_meta (declared lib n i) = ci_meta i" "ci_spec (declared lib n i) = ci_spec i"
  "phase (declared lib n i) = (if n \<ge> 1 then PhaseRunning else PhaseStarting)" "st_namespace (ci_status (declared lib n i)) = home_ns i"
  by (simp_all add: declared_def set_ready_def set_phase_def Let_def)

lemma declared_again:
  assumes "condition_laws lib" "as_stored (declared lib n i) x"
  shows "declared lib n x = x"
  using assms
  by (auto simp: as_stored_def declared_def set_ready_def set_phase_def home_ns_def condition_laws_def Let_def)

definition ready_event :: "int \<Rightarrow> (string \<times> string \<times> string) list" where
  "ready_event n = (if n \<ge> 1 then [(''Normal'', ''Reconciled'', ''All resources reconciled successfully'')] else [])"

definition notice :: "(string \<Rightarrow> bool) \<Rightarrow> string \<Rightarrow> claw_instance \<Rightarrow> (string \<times> string) list" where
  "notice url_ok serverURL i =
     (let url = serverURL @ ''/internal/notifications/instance-ready''
      in if url_ok url then [(url, ready_payload (instance_name i) (sp_userId (ci_spec i)))] else [])"

lemma home_cong: "instance_name x = instance_name i \<Longrightarrow> home_ns x = home_ns i"
  by (simp add: home_ns_def)

lemma desired_cong:
  assumes "instance_name x = instance_name i" "ci_spec x = ci_spec i"
  shows "desired lib r x w \<longleftrightarrow> desired lib r i w" "same_but_home x w w' \<longleftrightarrow> same_but_home i w w'" "ready_replicas x w = ready_replicas i w"
    "notice url_ok serverURL x = notice url_ok serverURL i"
  unfolding desired_def same_but_home_def ready_replicas_def notice_def mutate_cong [OF assms] home_cong [OF assms(1)] assms
  by (rule refl)+

text \<open>Nothing is touched but the instance and what is in its namespace.\<close>

definition others_kept :: "claw_instance \<Rightarrow> cluster \<Rightarrow> cluster \<Rightarrow> bool" where
  "others_kept i w w' \<longleftrightarrow> (\<forall>k. k \<noteq> key_of (ci_meta i) \<longrightarrow> cu_instances w' k = cu_instances w k)
     \<and> (\<forall>n. n \<noteq> home_ns i \<longrightarrow> cu_namespaces w' n = cu_namespaces w n)
     \<and> (\<forall>n k. n \<noteq> home_ns i \<longrightarrow> cu_pvcs w' (n, k) = cu_pvcs w (n, k) \<and> cu_deployments w' (n, k) = cu_deployments w (n, k)
          \<and> cu_services w' (n, k) = cu_services w (n, k) \<and> cu_netpols w' (n, k) = cu_netpols w (n, k))"

text \<open>What is so after one call of \<^verbatim>\<open>Reconcile\<close>.\<close>

definition converged :: "operator_lib \<Rightarrow> reconciler \<Rightarrow> (string \<Rightarrow> bool) \<Rightarrow> string \<Rightarrow> claw_instance \<Rightarrow> cluster \<Rightarrow> int outcome \<Rightarrow> cluster \<Rightarrow> bool" where
  "converged lib r url_ok serverURL i w x w' \<longleftrightarrow> (let n = ready_replicas i w in
     (\<exists>i'. cu_instances w' (key_of (ci_meta i)) = Some i' \<and> ci_spec i' = ci_spec i \<and> om_deleted (ci_meta i') = None
       \<and> has_finalizer lib i' \<and> om_finalizers (ci_meta i') = finalizers_with lib i
       \<and> phase i' = (if n \<ge> 1 then PhaseRunning else PhaseStarting) \<and> st_namespace (ci_status i') = home_ns i
       \<and> declared lib n i' = i')
   \<and> x = Returned (if n \<ge> 1 then 0 else 5) \<and> desired lib r i w' \<and> others_kept i w w' \<and> cluster_ok w' \<and> home_open i w' \<and> ready_replicas i w' = n
   \<and> cu_posts w' = cu_posts w @ (if n \<ge> 1 \<and> phase i \<noteq> PhaseRunning then notice url_ok serverURL i else []))"

text \<open>Finalizers as \<^verbatim>\<open>controllerutil\<close> keeps them.\<close>

definition finalizer_lists :: "operator_lib \<Rightarrow> bool" where
  "finalizer_lists lib \<longleftrightarrow> (\<forall>fs f. (ol_contains lib fs f \<longleftrightarrow> f \<in> set fs)
     \<and> ol_add lib fs f = (if f \<in> set fs then fs else fs @ [f]) \<and> ol_remove lib fs f = filter (\<lambda>g. g \<noteq> f) fs)"

lemma finalizer_lists_laws: "finalizer_lists lib \<Longrightarrow> finalizer_laws lib"
  by (simp add: finalizer_lists_def finalizer_laws_def)

text \<open>The objects in a namespace are gone, with it; or it is on its way, and they with it.\<close>

definition empty_of :: "string \<Rightarrow> cluster \<Rightarrow> bool" where
  "empty_of ns w \<longleftrightarrow> (\<forall>k. cu_pvcs w (ns, k) = None \<and> cu_deployments w (ns, k) = None \<and> cu_services w (ns, k) = None
     \<and> cu_netpols w (ns, k) = None)"

definition housed :: "cluster \<Rightarrow> bool" where
  "housed w \<longleftrightarrow> (\<forall>ns. cu_namespaces w ns = None \<longrightarrow> empty_of ns w)"

definition home_goes :: "claw_instance \<Rightarrow> cluster \<Rightarrow> bool" where
  "home_goes i w \<longleftrightarrow> (case cu_namespaces w (home_ns i) of None \<Rightarrow> empty_of (home_ns i) w | Some a \<Rightarrow> om_deleted (ns_meta a) \<noteq> None)"

text \<open>What is so after one call of \<^verbatim>\<open>Reconcile\<close> for an instance that is to be deleted.\<close>

definition removed_with_home :: "claw_instance \<Rightarrow> cluster \<Rightarrow> int outcome \<Rightarrow> cluster \<Rightarrow> bool" where
  "removed_with_home i w x w' \<longleftrightarrow> x = Returned 0 \<and> home_goes i w' \<and> others_kept i w w' \<and> cluster_ok w' \<and> housed w'
     \<and> cu_posts w' = cu_posts w
     \<and> (case cu_instances w' (key_of (ci_meta i)) of
          None \<Rightarrow> set (om_finalizers (ci_meta i)) = {finalizerName}
        | Some j \<Rightarrow> phase j = PhaseTerminating \<and> ci_spec j = ci_spec i \<and> om_finalizers (ci_meta j) \<noteq> []
            \<and> om_finalizers (ci_meta j) = filter (\<lambda>f. f \<noteq> finalizerName) (om_finalizers (ci_meta i)))"

lemma delete_home:
  "deleteUserNamespace i = bind (ask (GetNamespace (home_ns i)) dec_namespace) (\<lambda>x.
     case x of Inl e \<Rightarrow> Ret (if isNotFound e then None else Some e) | Inr ns \<Rightarrow> ask (DeleteNamespace ns) dec_done)"
  by (simp only: deleteUserNamespace_def home_ns_def)

lemma drop_namespace_keeps:
  assumes "cluster_ok w" "housed w" "\<And>k. cu_instances w (ns, k) = None"
  shows "cluster_ok (drop_namespace ns n w)" "housed (drop_namespace ns n w)" "cu_instances (drop_namespace ns n w) = cu_instances w"
    "cu_namespaces (drop_namespace ns n w) ns = None" "empty_of ns (drop_namespace ns n w)" "cu_posts (drop_namespace ns n w) = cu_posts w"
  using assms by (auto simp: cluster_ok_def keyed_def housed_def empty_of_def drop_namespace_def outside_def fun_eq_iff split: if_splits)

lemma drop_namespace_others:
  "m \<noteq> ns \<Longrightarrow> cu_namespaces (drop_namespace ns n w) m = cu_namespaces w m"
  "m \<noteq> ns \<Longrightarrow> cu_pvcs (drop_namespace ns n w) (m, k) = cu_pvcs w (m, k)"
  "m \<noteq> ns \<Longrightarrow> cu_deployments (drop_namespace ns n w) (m, k) = cu_deployments w (m, k)"
  "m \<noteq> ns \<Longrightarrow> cu_services (drop_namespace ns n w) (m, k) = cu_services w (m, k)"
  "m \<noteq> ns \<Longrightarrow> cu_netpols (drop_namespace ns n w) (m, k) = cu_netpols w (m, k)"
  by (simp_all add: drop_namespace_def outside_def)

lemma instance_apart:
  "home_goes i (w\<lparr>cu_rev := n, cu_instances := m\<rparr>) = home_goes i w" "housed (w\<lparr>cu_rev := n, cu_instances := m\<rparr>) = housed w"
  "home_goes i (put_instance k x n w) = home_goes i w" "housed (put_instance k x n w) = housed w"
  by (simp_all add: home_goes_def housed_def empty_of_def put_instance_def split: option.split)

lemma close_namespace_keeps:
  assumes "cluster_ok w" "housed w" "cu_namespaces w ns = Some a"
  shows "cluster_ok (close_namespace ns a v t n w)" "housed (close_namespace ns a v t n w)"
    "cu_instances (close_namespace ns a v t n w) = cu_instances w" "cu_posts (close_namespace ns a v t n w) = cu_posts w"
  using assms by (auto simp: cluster_ok_def keyed_def housed_def empty_of_def close_namespace_def stamp_def split: if_splits)

lemma removed_in_the_end:
  assumes "cluster_ok w2" "housed w2" "cu_posts w2 = cu_posts w" "home_goes i w2" "others_kept i w w2" "key_of (ci_meta i) = k"
    and z: "key_of (ci_meta z) = k" "om_deleted (ci_meta z) \<noteq> None" "phase z = PhaseTerminating" "ci_spec z = ci_spec i"
      "om_finalizers (ci_meta z) = filter (\<lambda>f. f \<noteq> finalizerName) (om_finalizers (ci_meta i))"
    and fin: "finalizerName \<in> set (om_finalizers (ci_meta i))"
  shows "removed_with_home i w (Returned 0) (put_or_remove k z n w2)"
proof (cases "om_finalizers (ci_meta z) = []")
  case True
  then have "set (om_finalizers (ci_meta i)) = {finalizerName}" using z(5) fin by (auto simp: filter_empty_conv)
  moreover have w': "put_or_remove k z n w2 = w2\<lparr>cu_rev := n, cu_instances := (cu_instances w2)(k := None)\<rparr>"
    using True z(2) by (simp add: put_or_remove_def)
  moreover have "cluster_ok (put_or_remove k z n w2)" using assms(1) by (auto simp: w' cluster_ok_def keyed_def)
  ultimately show ?thesis using assms(2-6) by (simp add: removed_with_home_def instance_apart others_kept_def)
next
  case False
  then have w': "put_or_remove k z n w2 = put_instance k z n w2" by (simp add: put_or_remove_def)
  moreover have "cluster_ok (put_or_remove k z n w2)"
    using cluster_ok_upd(7) [OF cluster_ok_upd(1) [OF assms(1)] z(1)] by (simp add: w' put_instance_def)
  ultimately show ?thesis using assms(2-6) False z by (simp add: removed_with_home_def instance_apart others_kept_def)
qed

end
