(* ===== verification/Convergence.thy ===== *)
theory Convergence
  imports Cluster
begin

text \<open>
  \<^verbatim>\<open>Reconcile\<close> against a server of which only the laws of \<open>api_server\<close> are known: it brings about what the
  instance asks for, changes nothing when it is called again, and takes an instance that is to be deleted away with its
  namespace. Then a server that keeps the laws, and the properties.
\<close>

section \<open>What the server promises\<close>

text \<open>The server: the five kinds of object, the instances, deletion, events, and the operator's own server.\<close>

locale api_server =
  namespaces: kube_kind serve FetchNamespace dec_namespace WriteNamespace cu_namespaces "\<lambda>m w. w\<lparr>cu_namespaces := m\<rparr>"
    "\<lambda>x. om_name (ns_meta x)" ns_meta adjust_namespace "\<lambda>_ _. True" +
  pvcs: kube_kind serve FetchPVC dec_pvc WritePVC cu_pvcs "\<lambda>m w. w\<lparr>cu_pvcs := m\<rparr>"
    "\<lambda>x. key_of (pvc_meta x)" pvc_meta adjust_pvc "open_home pvc_meta" +
  deployments: kube_kind serve FetchDeployment dec_deployment WriteDeployment cu_deployments "\<lambda>m w. w\<lparr>cu_deployments := m\<rparr>"
    "\<lambda>x. key_of (de_meta x)" de_meta adjust_deployment "open_home de_meta" +
  services: kube_kind serve FetchService dec_service WriteService cu_services "\<lambda>m w. w\<lparr>cu_services := m\<rparr>"
    "\<lambda>x. key_of (sv_meta x)" sv_meta adjust_service "open_home sv_meta" +
  netpols: kube_kind serve FetchNetpol dec_netpol WriteNetpol cu_netpols "\<lambda>m w. w\<lparr>cu_netpols := m\<rparr>"
    "\<lambda>x. key_of (np_meta x)" np_meta adjust_netpol "open_home np_meta"
  for serve :: api +
  assumes get_instance: "\<exists>a. serve (GetInstance ns n) w = (AInstance a, w) \<and> answers (cu_instances w (ns, n)) a"
    and get_namespace: "\<exists>a. serve (GetNamespace ns) w = (ANamespace a, w) \<and> answers (cu_namespaces w ns) a"
    and get_deployment: "\<exists>a. serve (GetDeployment ns n) w = (ADeployment a, w) \<and> answers (cu_deployments w (ns, n)) a"
    and update_instance: "cu_instances w (key_of (ci_meta j)) = Some i \<Longrightarrow> writable ci_meta (Some i) j \<Longrightarrow>
      \<exists>z n. serve (UpdateInstance j) w = (AInstance (Inr z), put_or_remove (key_of (ci_meta j)) z n w)
        \<and> stored_as ci_meta adjust_instance (Some i) j z \<and> (z = i \<longrightarrow> n = cu_rev w)"
    and update_status: "cu_instances w (key_of (ci_meta j)) = Some i \<Longrightarrow> writable ci_meta (Some i) j \<Longrightarrow>
      \<exists>z n. serve (UpdateStatus j) w = (AInstance (Inr z), put_or_remove (key_of (ci_meta j)) z n w)
        \<and> stored_as ci_meta adjust_status (Some i) j z \<and> (z = i \<longrightarrow> n = cu_rev w)"
    and delete_namespace: "cu_namespaces w (om_name (ns_meta a)) = Some b \<Longrightarrow>
      \<exists>n. serve (DeleteNamespace a) w = (ADone None, drop_namespace (om_name (ns_meta a)) n w)
        \<or> (\<exists>v t. serve (DeleteNamespace a) w = (ADone None, close_namespace (om_name (ns_meta a)) b v t n w))"
    and record_event: "\<exists>a. serve (RecordEvent t r m) w = (a, w\<lparr>cu_events := cu_events w @ [(t, r, m)]\<rparr>)"
    and post_json: "\<exists>a. serve (PostJSON u p) w = (a, w\<lparr>cu_posts := cu_posts w @ [(u, p)]\<rparr>)"
begin

text \<open>Each object on its own: it is made or brought in line, and nothing else is touched.\<close>

lemma namespace_settles:
  assumes "cluster_ok w" "home_open i w"
  shows "\<exists>n z. run serve (reconcileNamespace i (home_ns i)) w
      = (Returned (), w\<lparr>cu_rev := n, cu_namespaces := (cu_namespaces w)(home_ns i \<mapsto> z)\<rparr>)
    \<and> namespace_mutate i z = Returned z \<and> om_name (ns_meta z) = home_ns i \<and> keys_sorted (om_labels (ns_meta z)) \<and> om_deleted (ns_meta z) = None"
proof -
  define x where "x = standing cu_namespaces (\<lambda>x. om_name (ns_meta x)) w (new_namespace (home_ns i))"
  obtain y where y: "namespace_mutate i x = Returned y" by (simp add: namespace_mutate_def Let_def)
  have x: "om_name (ns_meta x) = home_ns i" "keys_sorted (om_labels (ns_meta x))" "om_deleted (ns_meta x) = None"
    using assms by (auto simp: x_def standing_def new_keys cluster_ok_def keyed_def home_open_def new_namespace_def named_meta_def
        empty_meta_def split: option.split)
  have ysorted: "keys_sorted (om_labels (ns_meta y))" using y x(2) by (auto simp: namespace_mutate_def Let_def)
  obtain z n where z: "run serve (reconcileNamespace i (home_ns i)) w
      = (Returned (), w\<lparr>cu_rev := n, cu_namespaces := (cu_namespaces w)(home_ns i \<mapsto> z)\<rparr>)"
    "namespace_mutate i z = Returned z" "om_name (ns_meta z) = home_ns i" "stored_as ns_meta adjust_namespace (cu_namespaces w (home_ns i)) y z"
    using namespaces.settles [of "namespace_mutate i" w "new_namespace (home_ns i)" y] y x(1) mutate_keeps(1) [OF y] mutate_stays(1) [OF y x(2)]
    unfolding reconcileNamespace_def by (auto simp: new_keys x_def [symmetric])
  obtain v c d where "z = adjust_namespace v c d (cu_namespaces w (home_ns i)) y" "d = None"
    using stored_as_adjust [OF z(4)] assms(2) by (auto simp: home_open_def split: option.splits)
  then have "keys_sorted (om_labels (ns_meta z))" "om_deleted (ns_meta z) = None"
    using ysorted by (simp_all add: adjust_namespace_def stamp_def)
  with z(1-3) show ?thesis by blast
qed

lemma pvc_settles:
  assumes "cluster_ok w" "cu_namespaces w ns = Some a" "om_deleted (ns_meta a) = None" "quantities_ok (ol_quantity_ok lib) (ci_spec i)"
  shows "\<exists>n z. run serve (reconcilePVC lib i ns) w = (Returned (), w\<lparr>cu_rev := n, cu_pvcs := (cu_pvcs w)((ns, ''openclaw-data'') \<mapsto> z)\<rparr>)
    \<and> pvc_mutate (ol_quantity_ok lib) i z = Returned z \<and> key_of (pvc_meta z) = (ns, ''openclaw-data'')"
proof -
  define x where "x = standing cu_pvcs (\<lambda>x. key_of (pvc_meta x)) w (new_pvc ns ''openclaw-data'')"
  obtain y where y: "pvc_mutate (ol_quantity_ok lib) i x = Returned y" using mutate_total(2) [OF assms(4)] by blast
  note k = mutate_keeps(2) [OF y] object_standing(1) [OF assms(1), of ns "''openclaw-data''", folded x_def]
  from pvcs.settles [of "pvc_mutate (ol_quantity_ok lib) i" w "new_pvc ns ''openclaw-data''" y] y k mutate_stays(2) [OF y] assms(2,3)
  show ?thesis by (auto simp: reconcilePVC_def new_keys x_def [symmetric] open_home_key)
qed

lemma deployment_settles:
  assumes "cluster_ok w" "cu_namespaces w ns = Some a" "om_deleted (ns_meta a) = None" "quantities_ok (ol_quantity_ok lib) (ci_spec i)"
  shows "\<exists>n z. run serve (reconcileDeployment lib r i ns) w
      = (Returned (), w\<lparr>cu_rev := n, cu_deployments := (cu_deployments w)((ns, ''openclaw'') \<mapsto> z)\<rparr>)
    \<and> deployment_mutate (ol_quantity_ok lib) r i z = Returned z \<and> key_of (de_meta z) = (ns, ''openclaw'')
    \<and> de_readyReplicas z = (case cu_deployments w (ns, ''openclaw'') of None \<Rightarrow> 0 | Some d \<Rightarrow> de_readyReplicas d)"
proof -
  define x where "x = standing cu_deployments (\<lambda>x. key_of (de_meta x)) w (new_deployment ns ''openclaw'')"
  obtain y where y: "deployment_mutate (ol_quantity_ok lib) r i x = Returned y" using mutate_total(1) [OF assms(4)] by blast
  note k = mutate_keeps(3) [OF y] object_standing(2) [OF assms(1), of ns "''openclaw''", folded x_def]
  obtain z n where z: "run serve (reconcileDeployment lib r i ns) w
      = (Returned (), w\<lparr>cu_rev := n, cu_deployments := (cu_deployments w)((ns, ''openclaw'') \<mapsto> z)\<rparr>)"
    "deployment_mutate (ol_quantity_ok lib) r i z = Returned z" "key_of (de_meta z) = (ns, ''openclaw'')"
    "stored_as de_meta adjust_deployment (cu_deployments w (ns, ''openclaw'')) y z"
    using deployments.settles [of "deployment_mutate (ol_quantity_ok lib) r i" w "new_deployment ns ''openclaw''" y]
      y k mutate_stays(3) [OF y] assms(2,3)
    by (auto simp: reconcileDeployment_def new_keys x_def [symmetric] open_home_key)
  have "de_readyReplicas z = (case cu_deployments w (ns, ''openclaw'') of None \<Rightarrow> 0 | Some d \<Rightarrow> de_readyReplicas d)"
    using stored_as_adjust [OF z(4)] by (auto simp: adjust_deployment_def)
  with z(1-3) show ?thesis by blast
qed

lemma service_settles:
  assumes "cluster_ok w" "cu_namespaces w ns = Some a" "om_deleted (ns_meta a) = None"
  shows "\<exists>n z. run serve (reconcileService r i ns) w = (Returned (), w\<lparr>cu_rev := n, cu_services := (cu_services w)((ns, ''openclaw'') \<mapsto> z)\<rparr>)
    \<and> service_mutate r i z = Returned z \<and> key_of (sv_meta z) = (ns, ''openclaw'')"
proof -
  define x where "x = standing cu_services (\<lambda>x. key_of (sv_meta x)) w (new_service ns ''openclaw'')"
  obtain y where y: "service_mutate r i x = Returned y" by (simp add: service_mutate_def Let_def)
  note k = mutate_keeps(4) [OF y] object_standing(3) [OF assms(1), of ns "''openclaw''", folded x_def]
  from services.settles [of "service_mutate r i" w "new_service ns ''openclaw''" y] y k mutate_stays(4) [OF y] assms(2,3)
  show ?thesis by (auto simp: reconcileService_def new_keys x_def [symmetric] open_home_key)
qed

lemma netpol_settles:
  assumes "cluster_ok w" "cu_namespaces w ns = Some a" "om_deleted (ns_meta a) = None"
  shows "\<exists>n z. run serve (reconcileNetworkPolicy r i ns) w
      = (Returned (), w\<lparr>cu_rev := n, cu_netpols := (cu_netpols w)((ns, ''allow-clawbake-server-only'') \<mapsto> z)\<rparr>)
    \<and> netpol_mutate r i z = Returned z \<and> key_of (np_meta z) = (ns, ''allow-clawbake-server-only'')"
proof -
  define x where "x = standing cu_netpols (\<lambda>x. key_of (np_meta x)) w (new_netpol ns ''allow-clawbake-server-only'')"
  obtain y where y: "netpol_mutate r i x = Returned y" by (simp add: netpol_mutate_def)
  note k = mutate_keeps(5) [OF y] object_standing(4) [OF assms(1), of ns "''allow-clawbake-server-only''", folded x_def]
  from netpols.settles [of "netpol_mutate r i" w "new_netpol ns ''allow-clawbake-server-only''" y] y k mutate_stays(5) [OF y] assms(2,3)
  show ?thesis by (auto simp: reconcileNetworkPolicy_def new_keys x_def [symmetric] open_home_key)
qed

lemma resources_settle:
  assumes "cluster_ok w" "home_open i w" "quantities_ok (ol_quantity_ok lib) (ci_spec i)"
  shows "\<exists>w'. run serve (reconcileResources lib r m i) w = run serve (finish lib m i) w'
    \<and> desired lib r i w' \<and> same_but_home i w w' \<and> ready_replicas i w' = ready_replicas i w \<and> cluster_ok w' \<and> home_open i w'"
proof -
  let ?ns = "home_ns i" and ?run = "run serve"
  obtain n1 a where 1: "?run (reconcileNamespace i ?ns) w = (Returned (), w\<lparr>cu_rev := n1, cu_namespaces := (cu_namespaces w)(?ns \<mapsto> a)\<rparr>)"
    "namespace_mutate i a = Returned a" "om_name (ns_meta a) = ?ns" "keys_sorted (om_labels (ns_meta a))" "om_deleted (ns_meta a) = None"
    using namespace_settles [OF assms(1,2)] by blast
  define w1 where "w1 = w\<lparr>cu_rev := n1, cu_namespaces := (cu_namespaces w)(?ns \<mapsto> a)\<rparr>"
  have w1: "cluster_ok w1" "cu_namespaces w1 ?ns = Some a"
    using cluster_ok_upd(2) [OF cluster_ok_upd(1) [OF assms(1)] 1(3,4)] by (simp_all add: w1_def)
  obtain n2 b where 2: "?run (reconcilePVC lib i ?ns) w1 = (Returned (), w1\<lparr>cu_rev := n2, cu_pvcs := (cu_pvcs w1)((?ns, ''openclaw-data'') \<mapsto> b)\<rparr>)"
    "pvc_mutate (ol_quantity_ok lib) i b = Returned b" "key_of (pvc_meta b) = (?ns, ''openclaw-data'')"
    using pvc_settles [OF w1 1(5) assms(3)] by blast
  define w2 where "w2 = w1\<lparr>cu_rev := n2, cu_pvcs := (cu_pvcs w1)((?ns, ''openclaw-data'') \<mapsto> b)\<rparr>"
  have w2: "cluster_ok w2" "cu_namespaces w2 ?ns = Some a"
    using cluster_ok_upd(3) [OF cluster_ok_upd(1) [OF w1(1)] 2(3)] w1(2) by (simp_all add: w2_def)
  obtain n3 c where 3: "?run (reconcileDeployment lib r i ?ns) w2
      = (Returned (), w2\<lparr>cu_rev := n3, cu_deployments := (cu_deployments w2)((?ns, ''openclaw'') \<mapsto> c)\<rparr>)"
    "deployment_mutate (ol_quantity_ok lib) r i c = Returned c" "key_of (de_meta c) = (?ns, ''openclaw'')"
    "de_readyReplicas c = ready_replicas i w2"
    using deployment_settles [OF w2 1(5) assms(3)] unfolding ready_replicas_def by blast
  define w3 where "w3 = w2\<lparr>cu_rev := n3, cu_deployments := (cu_deployments w2)((?ns, ''openclaw'') \<mapsto> c)\<rparr>"
  have w3: "cluster_ok w3" "cu_namespaces w3 ?ns = Some a"
    using cluster_ok_upd(4) [OF cluster_ok_upd(1) [OF w2(1)] 3(3)] w2(2) by (simp_all add: w3_def)
  obtain n4 d where 4: "?run (reconcileService r i ?ns) w3
      = (Returned (), w3\<lparr>cu_rev := n4, cu_services := (cu_services w3)((?ns, ''openclaw'') \<mapsto> d)\<rparr>)"
    "service_mutate r i d = Returned d" "key_of (sv_meta d) = (?ns, ''openclaw'')"
    using service_settles [OF w3 1(5)] by blast
  define w4 where "w4 = w3\<lparr>cu_rev := n4, cu_services := (cu_services w3)((?ns, ''openclaw'') \<mapsto> d)\<rparr>"
  have w4: "cluster_ok w4" "cu_namespaces w4 ?ns = Some a"
    using cluster_ok_upd(5) [OF cluster_ok_upd(1) [OF w3(1)] 4(3)] w3(2) by (simp_all add: w4_def)
  obtain n5 e where 5: "?run (reconcileNetworkPolicy r i ?ns) w4
      = (Returned (), w4\<lparr>cu_rev := n5, cu_netpols := (cu_netpols w4)((?ns, ''allow-clawbake-server-only'') \<mapsto> e)\<rparr>)"
    "netpol_mutate r i e = Returned e" "key_of (np_meta e) = (?ns, ''allow-clawbake-server-only'')"
    using netpol_settles [OF w4 1(5)] by blast
  define w5 where "w5 = w4\<lparr>cu_rev := n5, cu_netpols := (cu_netpols w4)((?ns, ''allow-clawbake-server-only'') \<mapsto> e)\<rparr>"
  have w5: "cluster_ok w5"
    using cluster_ok_upd(6) [OF cluster_ok_upd(1) [OF w4(1)] 5(3)] by (simp add: w5_def)
  note ws = w1_def w2_def w3_def w4_def w5_def
  have "?run (reconcileResources lib r m i) w = ?run (finish lib m i) w5"
    unfolding reconcileResources_finish run_orFailed [OF 1(1) [folded w1_def]] run_orFailed [OF 2(1) [folded w2_def]]
      run_orFailed [OF 3(1) [folded w3_def]] run_orFailed [OF 4(1) [folded w4_def]] run_orFailed [OF 5(1) [folded w5_def]] ..
  moreover have "desired lib r i w5" using 1(2) 2(2) 3(2) 4(2) 5(2) by (simp add: desired_def ws)
  moreover have "same_but_home i w w5" unfolding same_but_home_def
    by (intro exI [of _ n5] exI [of _ a] exI [of _ b] exI [of _ c] exI [of _ d] exI [of _ e]) (simp add: ws)
  moreover have "ready_replicas i w5 = ready_replicas i w" using 3(4) by (simp add: ready_replicas_def ws)
  moreover have "home_open i w5" using 1(5) by (simp add: home_open_def ws)
  ultimately show ?thesis using w5 by blast
qed

lemma resources_settled:
  assumes "cluster_ok w" "home_open i w" "desired lib r i w"
  shows "run serve (reconcileResources lib r m i) w = run serve (finish lib m i) w"
proof -
  let ?run = "run serve"
  from assms have "?run (reconcileNamespace i (home_ns i)) w = (Returned (), w)"
    unfolding reconcileNamespace_def
    by (auto simp: desired_def cluster_ok_def keyed_def new_keys intro!: namespaces.settled)
  moreover from assms have "?run (reconcilePVC lib i (home_ns i)) w = (Returned (), w)"
    unfolding reconcilePVC_def
    by (auto simp: desired_def cluster_ok_def keyed_def new_keys open_home_key home_open_def intro!: pvcs.settled)
  moreover from assms have "?run (reconcileDeployment lib r i (home_ns i)) w = (Returned (), w)"
    unfolding reconcileDeployment_def
    by (auto simp: desired_def cluster_ok_def keyed_def new_keys open_home_key home_open_def intro!: deployments.settled)
  moreover from assms have "?run (reconcileService r i (home_ns i)) w = (Returned (), w)"
    unfolding reconcileService_def
    by (auto simp: desired_def cluster_ok_def keyed_def new_keys open_home_key home_open_def intro!: services.settled)
  moreover from assms have "?run (reconcileNetworkPolicy r i (home_ns i)) w = (Returned (), w)"
    unfolding reconcileNetworkPolicy_def
    by (auto simp: desired_def cluster_ok_def keyed_def new_keys open_home_key home_open_def intro!: netpols.settled)
  ultimately show ?thesis by (simp add: reconcileResources_finish run_orFailed)
qed

text \<open>The updates of the instance.\<close>

lemma status_run:
  assumes "cu_instances w k = Some i" "key_of (ci_meta i) = k" "om_deleted (ci_meta i) = None \<or> om_finalizers (ci_meta i) \<noteq> []"
    "ci_meta j = ci_meta i" "ci_spec j = ci_spec i"
  shows "\<exists>x n. run serve (orReturn (ask (UpdateStatus j) dec_instance) f) w = run serve (f x) (put_instance k x n w)
    \<and> as_stored j x \<and> (j = i \<longrightarrow> x = i \<and> put_instance k x n w = w)"
proof -
  have writable: "writable ci_meta (Some i) j" using assms(4) by (simp add: writable_def)
  obtain z n where z: "serve (UpdateStatus j) w = (AInstance (Inr z), put_or_remove k z n w)"
    "stored_as ci_meta adjust_status (Some i) j z" "z = i \<longrightarrow> n = cu_rev w"
    using update_status [of w j i] writable assms(1,2,4) by auto
  note stored = stored_as_instance [OF adjust_stored(1) [OF assms(4,5)] z(2)]
  have "put_or_remove k z n w = put_instance k z n w"
    using as_stored_simps [OF stored(1)] assms(3,4) by (auto simp: put_or_remove_def)
  with z stored put_instance_same [OF assms(1)] show ?thesis
    by (intro exI [of _ z] exI [of _ n]) (auto simp: orReturn_def)
qed

lemma finalizer_run:
  assumes "cu_instances w k = Some i" "key_of (ci_meta i) = k" "om_deleted (ci_meta i) = None"
  shows "\<exists>x n. run serve (orReturn (ask (UpdateInstance (add_finalizer lib i)) dec_instance) f) w
      = run serve (f x) (put_instance k x n w) \<and> as_stored (add_finalizer lib i) x"
proof -
  let ?j = "add_finalizer lib i"
  have j: "writable ci_meta (Some i) ?j" "key_of (ci_meta ?j) = k" "om_deleted (ci_meta ?j) = None"
    using assms by (simp_all add: writable_def add_finalizer_def key_of_def)
  obtain z n where z: "serve (UpdateInstance ?j) w = (AInstance (Inr z), put_or_remove k z n w)"
    "stored_as ci_meta adjust_instance (Some i) ?j z"
    using update_instance [of w ?j i] j(1,2) assms(1) by auto
  note stored = stored_as_instance(1) [OF adjust_stored(2) z(2)]
  have "put_or_remove k z n w = put_instance k z n w"
    using as_stored_simps(5) [OF stored] j(3) by (simp add: put_or_remove_def)
  with z stored show ?thesis by (intro exI [of _ z] exI [of _ n]) (auto simp: orReturn_def)
qed

lemma advance_run:
  assumes "in_hand i0 i w" "p \<noteq> PhaseRunning" "p' \<noteq> PhaseRunning"
  shows "\<exists>x n. run serve (advancePhase p p' i f) w = run serve (f x) (put_instance (key_of (ci_meta i0)) x n w)
    \<and> in_hand i0 x (put_instance (key_of (ci_meta i0)) x n w) \<and> om_finalizers (ci_meta x) = om_finalizers (ci_meta i)"
proof (cases "phase i = p")
  case True
  obtain x n where x: "run serve (orReturn (ask (UpdateStatus (set_phase p' i)) dec_instance) f) w
      = run serve (f x) (put_instance (key_of (ci_meta i0)) x n w)" "as_stored (set_phase p' i) x"
    using status_run [of w "key_of (ci_meta i0)" i "set_phase p' i" f] assms(1) set_phase_simps(2,3) [of p' i] unfolding in_hand_def by metis
  with True assms as_stored_simps [OF x(2)] show ?thesis
    by (intro exI [of _ x] exI [of _ n]) (auto simp: advancePhase_def in_hand_def set_phase_def has_finalizer_def)
next
  case False
  with assms put_instance_same [of w "key_of (ci_meta i0)" i] show ?thesis
    by (intro exI [of _ i] exI [of _ "cu_rev w"]) (auto simp: advancePhase_def in_hand_def)
qed

text \<open>The last step: the instance is declared running or starting.\<close>

lemma notify_run:
  "run serve (bind (NotifyInstanceReady url_ok serverURL (instance_name i) (sp_userId (ci_spec i))) f) w =
     run serve (f ()) (w\<lparr>cu_posts := cu_posts w @ notice url_ok serverURL i\<rparr>)"
  using post_json [of "serverURL @ ''/internal/notifications/instance-ready''" "ready_payload (instance_name i) (sp_userId (ci_spec i))" w]
  by (auto simp: NotifyInstanceReady_def notice_def Let_def)

lemma event_run: "run serve (bind (ask (RecordEvent t r m) dec) f) w = (let a = fst (serve (RecordEvent t r m) w) in
    run serve (f (dec a)) (w\<lparr>cu_events := cu_events w @ [(t, r, m)]\<rparr>))"
  using record_event [of t r m w] by auto

lemma finish_run:
  assumes "cu_instances w (key_of (ci_meta i)) = Some i" "om_deleted (ci_meta i) = None"
    "cu_deployments w (home_ns i, ''openclaw'') = Some d" and n: "n = de_readyReplicas d"
  shows "\<exists>x m. run serve (finish lib (Some (NotifyInstanceReady url_ok serverURL)) i) w =
      (Returned (if n \<ge> 1 then 0 else 5), (put_instance (key_of (ci_meta i)) x m w)
         \<lparr>cu_events := cu_events w @ ready_event n,
          cu_posts := cu_posts w @ (if n \<ge> 1 \<and> phase i \<noteq> PhaseRunning then notice url_ok serverURL i else [])\<rparr>)
    \<and> as_stored (declared lib n i) x \<and> (declared lib n i = i \<longrightarrow> x = i \<and> put_instance (key_of (ci_meta i)) x m w = w)"
proof -
  let ?k = "key_of (ci_meta i)"
  define f where "f i0 = (\<lambda>i. bind (ask (RecordEvent ''Normal'' ''Reconciled'' ''All resources reconciled successfully'') dec_done) (\<lambda>_.
    if phase i0 \<noteq> PhaseRunning
    then bind (NotifyInstanceReady url_ok serverURL (instance_name i) (sp_userId (ci_spec i))) (\<lambda>_. Ret (Returned (0 :: int)))
    else Ret (Returned 0)))" for i0 :: claw_instance
  define g where "g = (if n \<ge> 1 then f i else (\<lambda>_. Ret (Returned 5)))"
  have start: "run serve (finish lib (Some (NotifyInstanceReady url_ok serverURL)) i) w =
      run serve (orReturn (ask (UpdateStatus (declared lib n i)) dec_instance) g) w"
    using get_deployment [of "home_ns i" "''openclaw''" w] assms(3) n
    by (auto simp: finish_def orReturn_def answers_def declareRunning_def declareStarting_def declared_def g_def f_def Let_def
        cong: sum.case_cong)
  have tail: "run serve (g x) (put_instance ?k x m w) =
      (Returned (if n \<ge> 1 then 0 else 5), (put_instance ?k x m w)
         \<lparr>cu_events := cu_events w @ ready_event n,
          cu_posts := cu_posts w @ (if n \<ge> 1 \<and> phase i \<noteq> PhaseRunning then notice url_ok serverURL i else [])\<rparr>)"
    if "as_stored (declared lib n i) x" for x m
  proof -
    have "notice url_ok serverURL x = notice url_ok serverURL i"
      using as_stored_simps(1,4) [OF that] by (simp add: notice_def declared_simps cong: if_cong)
    then show ?thesis
      by (simp del: bind_ask add: g_def f_def ready_event_def event_run notify_run put_instance_def)
  qed
  obtain x m where x: "run serve (orReturn (ask (UpdateStatus (declared lib n i)) dec_instance) g) w
      = run serve (g x) (put_instance ?k x m w)" "as_stored (declared lib n i) x"
    "declared lib n i = i \<longrightarrow> x = i \<and> put_instance ?k x m w = w"
    using status_run [of w ?k i "declared lib n i" g] assms(1,2) by (auto simp: declared_simps)
  with tail [OF x(2), of m] show ?thesis by (intro exI [of _ x] exI [of _ m]) (auto simp: start)
qed

lemma start_run:
  assumes "cu_instances w (ns, nm) = Some i" "key_of (ci_meta i) = (ns, nm)" "om_deleted (ci_meta i) = None" "finalizer_laws lib"
  shows "\<exists>x n. run serve (Reconcile lib r m ns nm) w =
      run serve (reconcileResources lib r m x) (put_instance (ns, nm) x n w)
    \<and> in_hand i x (put_instance (ns, nm) x n w) \<and> has_finalizer lib x
    \<and> om_finalizers (ci_meta x) = finalizers_with lib i"
proof -
  define g3 where "g3 = reconcileResources lib r m"
  define g2 where "g2 = (\<lambda>i. advancePhase PhasePending PhaseCreating i g3)"
  define g1 where "g1 = (\<lambda>i. advancePhase [] PhasePending i g2)"
  let ?run = "run serve" and ?put = "put_instance (ns, nm)"
  have i: "in_hand i i w" using assms(1-3) by (simp add: in_hand_def)
  have start: "?run (Reconcile lib r m ns nm) w = ?run (ensureFinalizer lib i g1) w"
    using get_instance [of ns nm w] assms(1,3) by (auto simp: Reconcile_def answers_def g1_def g2_def g3_def)
  obtain x1 n1 where 1: "?run (ensureFinalizer lib i g1) w = ?run (g1 x1) (?put x1 n1 w)" "in_hand i x1 (?put x1 n1 w)" "has_finalizer lib x1"
    "om_finalizers (ci_meta x1) = finalizers_with lib i"
  proof (cases "has_finalizer lib i")
    case True
    then show ?thesis using that [of i "cu_rev w"] put_instance_same [OF assms(1)] i by (simp add: ensureFinalizer_def finalizers_with_def)
  next
    case False
    obtain x n where x: "?run (orReturn (ask (UpdateInstance (add_finalizer lib i)) dec_instance) g1) w = ?run (g1 x) (?put x n w)"
      "as_stored (add_finalizer lib i) x"
      using finalizer_run [OF assms(1-3), of lib g1] by auto
    have "has_finalizer lib (add_finalizer lib i)" using assms(4) by (simp add: has_finalizer_def add_finalizer_def finalizer_laws_def)
    with x False i as_stored_simps [OF x(2)] assms(2) show ?thesis
      by (intro that [of x n]) (auto simp: ensureFinalizer_def in_hand_def add_finalizer_def key_of_def finalizers_with_def)
  qed
  obtain x2 n2 where 2: "?run (g1 x1) (?put x1 n1 w) = ?run (g2 x2) (?put x2 n2 w)" "in_hand i x2 (?put x2 n2 w)" "has_finalizer lib x2"
    "om_finalizers (ci_meta x2) = finalizers_with lib i"
    using advance_run [OF 1(2), of "[]" PhasePending g2] 1(3,4) assms(2) by (auto simp: g1_def phase_defs has_finalizer_def)
  obtain x3 n3 where 3: "?run (g2 x2) (?put x2 n2 w) = ?run (g3 x3) (?put x3 n3 w)" "in_hand i x3 (?put x3 n3 w)" "has_finalizer lib x3"
    "om_finalizers (ci_meta x3) = finalizers_with lib i"
    using advance_run [OF 2(2), of PhasePending PhaseCreating g3] 2(3,4) assms(2) by (auto simp: g2_def phase_defs has_finalizer_def)
  from start 1(1) 2(1) 3 show ?thesis by (auto simp: g3_def)
qed

text \<open>The second time: the instance is at the end of its way, and so are its objects.\<close>

lemma start_run_settled:
  assumes "cu_instances w (ns, nm) = Some i" "om_deleted (ci_meta i) = None" "has_finalizer lib i" "phase i \<notin> {[], PhasePending}"
  shows "run serve (Reconcile lib r m ns nm) w = run serve (reconcileResources lib r m i) w"
  using get_instance [of ns nm w] assms by (auto simp: Reconcile_def answers_def ensureFinalizer_def advancePhase_def)

text \<open>From whatever state.\<close>

lemma Reconcile_run:
  assumes laws: "finalizer_laws lib" "condition_laws lib" and w: "cluster_ok w" "cu_instances w (ns, nm) = Some i" "home_open i w"
    and i: "om_deleted (ci_meta i) = None" "quantities_ok (ol_quantity_ok lib) (ci_spec i)"
    and run: "run serve (Reconcile lib r (Some (NotifyInstanceReady url_ok serverURL)) ns nm) w = (x, w')"
  shows "converged lib r url_ok serverURL i w x w'"
proof -
  let ?m = "Some (NotifyInstanceReady url_ok serverURL)" and ?n = "ready_replicas i w"
  have key: "key_of (ci_meta i) = (ns, nm)" using w by (simp add: cluster_ok_def keyed_def)
  obtain x1 n1 where 1: "run serve (Reconcile lib r ?m ns nm) w
      = run serve (reconcileResources lib r ?m x1) (put_instance (ns, nm) x1 n1 w)"
    "in_hand i x1 (put_instance (ns, nm) x1 n1 w)" "has_finalizer lib x1"
    "om_finalizers (ci_meta x1) = finalizers_with lib i"
    using start_run [OF w(2) key i(1) laws(1)] by blast
  define w1 where "w1 = put_instance (ns, nm) x1 n1 w"
  have x1: "key_of (ci_meta x1) = (ns, nm)" "ci_spec x1 = ci_spec i" "om_deleted (ci_meta x1) = None"
    "phase x1 = PhaseRunning \<longleftrightarrow> phase i = PhaseRunning"
    using 1(2) key by (simp_all add: in_hand_def)
  then have name: "instance_name x1 = instance_name i" using key by (simp add: key_of_def)
  have w1: "cluster_ok w1" "home_open x1 w1"
    using cluster_ok_upd(7) [OF cluster_ok_upd(1) [OF w(1)] x1(1)] w(3) by (simp_all add: w1_def put_instance_def home_open_def home_cong [OF name])
  obtain w2 where 2: "run serve (reconcileResources lib r ?m x1) w1 = run serve (finish lib ?m x1) w2"
    "desired lib r x1 w2" "same_but_home x1 w1 w2" "ready_replicas x1 w2 = ready_replicas x1 w1" "cluster_ok w2" "home_open x1 w2"
    using resources_settle [OF w1] i(2) x1(2) by metis
  have w2: "cu_instances w2 (ns, nm) = Some x1" "cu_posts w2 = cu_posts w"
    using 2(3) by (auto simp: same_but_home_def w1_def)
  have n: "ready_replicas x1 w2 = ?n" using 2(4) by (simp add: w1_def ready_replicas_def home_cong [OF name])
  obtain d where d: "cu_deployments w2 (home_ns x1, ''openclaw'') = Some d" "de_readyReplicas d = ?n"
    using 2(2) n by (auto simp: desired_def ready_replicas_def)
  obtain z m where z: "run serve (finish lib ?m x1) w2 = (Returned (if ?n \<ge> 1 then 0 else 5), (put_instance (ns, nm) z m w2)
      \<lparr>cu_events := cu_events w2 @ ready_event ?n,
       cu_posts := cu_posts w2 @ (if ?n \<ge> 1 \<and> phase x1 \<noteq> PhaseRunning then notice url_ok serverURL x1 else [])\<rparr>)"
    "as_stored (declared lib ?n x1) z"
    using finish_run [of w2 x1 d ?n lib url_ok serverURL] w2(1) x1(1,3) d by auto
  have w': "w' = (put_instance (ns, nm) z m w2)\<lparr>cu_events := cu_events w2 @ ready_event ?n,
       cu_posts := cu_posts w @ (if ?n \<ge> 1 \<and> phase i \<noteq> PhaseRunning then notice url_ok serverURL i else [])\<rparr>"
    and x: "x = Returned (if ?n \<ge> 1 then 0 else 5)"
    using run z(1) 1(1) 2(1) w2(2) x1(4) desired_cong(4) [OF name x1(2)] by (simp_all add: w1_def)
  have zs: "ci_spec z = ci_spec i" "instance_name z = instance_name i" "key_of (ci_meta z) = (ns, nm)" "om_deleted (ci_meta z) = None"
    "has_finalizer lib z" "phase z = (if ?n \<ge> 1 then PhaseRunning else PhaseStarting)" "st_namespace (ci_status z) = home_ns i"
    "om_finalizers (ci_meta z) = finalizers_with lib i"
    using as_stored_simps [OF z(2)] x1 name 1(3,4) home_cong [OF name] by (simp_all add: declared_simps has_finalizer_def)
  have des: "desired lib r i w'" "ready_replicas i w' = ?n"
    using 2(2) n desired_cong [OF name x1(2)] by (simp_all add: desired_def ready_replicas_def w')
  have ok: "cluster_ok w'"
    using cluster_ok_upd(7) [OF cluster_ok_upd(1) [OF 2(5)] zs(3)] by (simp add: w' put_instance_def cluster_ok_def)
  have fixed: "declared lib ?n z = z" by (rule declared_again [OF laws(2) z(2)])
  have home: "home_open i w'" using 2(6) by (simp add: home_open_def home_cong [OF name] w')
  have "others_kept i w w'"
    using 2(3) unfolding same_but_home_def others_kept_def by (auto simp: w' w1_def key home_cong [OF name])
  then show ?thesis
    unfolding converged_def Let_def using x des ok zs key fixed home by (simp add: w')
qed

text \<open>Once it is there, to call it again changes nothing.\<close>

lemma Reconcile_again:
  assumes conv: "converged lib r url_ok serverURL i w x w'" and key: "key_of (ci_meta i) = (ns, nm)"
  shows "run serve (Reconcile lib r (Some (NotifyInstanceReady url_ok serverURL)) ns nm) w'
      = (x, w'\<lparr>cu_events := cu_events w' @ ready_event (ready_replicas i w)\<rparr>)"
proof -
  let ?m = "Some (NotifyInstanceReady url_ok serverURL)" and ?n = "ready_replicas i w"
  obtain z where z: "cu_instances w' (ns, nm) = Some z" "ci_spec z = ci_spec i" "om_deleted (ci_meta z) = None" "has_finalizer lib z"
    "phase z = (if ?n \<ge> 1 then PhaseRunning else PhaseStarting)" "declared lib ?n z = z"
    and w': "desired lib r i w'" "cluster_ok w'" "home_open i w'" "ready_replicas i w' = ?n" "x = Returned (if ?n \<ge> 1 then 0 else 5)"
    using conv key unfolding converged_def Let_def by auto
  have zkey: "key_of (ci_meta z) = (ns, nm)" using w'(2) z(1) by (simp add: cluster_ok_def keyed_def)
  then have name: "instance_name z = instance_name i" using key by (simp add: key_of_def)
  note cong = desired_cong [OF name z(2)]
  obtain d where d: "cu_deployments w' (home_ns z, ''openclaw'') = Some d" "?n = de_readyReplicas d"
    using w'(1,4) unfolding cong(1) [symmetric] cong(3) [symmetric] by (auto simp: desired_def ready_replicas_def)
  have "phase z \<notin> {[], PhasePending}" by (simp add: z(5) phase_defs)
  then have "run serve (Reconcile lib r ?m ns nm) w' = run serve (finish lib ?m z) w'"
    using start_run_settled [OF z(1,3,4)] resources_settled [OF w'(2), of z lib r ?m] w'(1,3) cong(1) by (simp add: home_open_def home_cong [OF name])
  also have "\<dots> = (x, w'\<lparr>cu_events := cu_events w' @ ready_event ?n\<rparr>)"
    using finish_run [OF z(1) [folded zkey] z(3) d, of lib url_ok serverURL] z(5,6) zkey w'(5) by (auto simp: d(2) [symmetric])
  finally show ?thesis .
qed

text \<open>Deletion: the namespace first, then the finalizer.\<close>

lemma namespace_dropped:
  assumes "cluster_ok w" "housed w" "\<And>k. cu_instances w (home_ns i, k) = None"
  shows "\<exists>w'. run serve (bind (deleteUserNamespace i) f) w = run serve (f None) w'
    \<and> home_goes i w' \<and> others_kept i w w' \<and> cu_instances w' = cu_instances w \<and> cluster_ok w' \<and> housed w' \<and> cu_posts w' = cu_posts w"
proof (cases "cu_namespaces w (home_ns i)")
  case None
  then have "run serve (bind (deleteUserNamespace i) f) w = run serve (f None) w"
    using get_namespace [of "home_ns i" w] by (auto simp: delete_home answers_def)
  with None assms(1,2) show ?thesis by (intro exI [of _ w]) (simp add: home_goes_def housed_def others_kept_def)
next
  case (Some a)
  have a: "om_name (ns_meta a) = home_ns i" using assms(1) Some by (simp add: cluster_ok_def keyed_def)
  have start: "run serve (bind (deleteUserNamespace i) f) w = run serve (bind (ask (DeleteNamespace a) dec_done) f) w"
    using get_namespace [of "home_ns i" w] Some by (auto simp: delete_home answers_def)
  consider (dropped) n where "serve (DeleteNamespace a) w = (ADone None, drop_namespace (home_ns i) n w)"
    | (closed) n v t where "serve (DeleteNamespace a) w = (ADone None, close_namespace (home_ns i) a v t n w)"
    using delete_namespace [of w a a] Some a by auto
  then show ?thesis
  proof cases
    case dropped
    then show ?thesis using start drop_namespace_keeps [OF assms]
      by (intro exI [of _ "drop_namespace (home_ns i) n w"]) (simp add: home_goes_def others_kept_def drop_namespace_others)
  next
    case closed
    then show ?thesis using start close_namespace_keeps [OF assms(1,2) Some]
      by (intro exI [of _ "close_namespace (home_ns i) a v t n w"]) (simp add: home_goes_def others_kept_def close_namespace_def stamp_def)
  qed
qed

lemma unfinalize_run:
  assumes "cu_instances w k = Some y" "key_of (ci_meta y) = k"
  shows "\<exists>z n. run serve (orReturn (ask (UpdateInstance (remove_finalizer lib y)) dec_instance) f) w = run serve (f z) (put_or_remove k z n w)
    \<and> as_stored (remove_finalizer lib y) z"
proof -
  let ?j = "remove_finalizer lib y"
  have j: "key_of (ci_meta ?j) = k" "writable ci_meta (Some y) ?j"
    using assms(2) by (simp_all add: remove_finalizer_def key_of_def writable_def)
  obtain z n where z: "serve (UpdateInstance ?j) w = (AInstance (Inr z), put_or_remove k z n w)"
    "stored_as ci_meta adjust_instance (Some y) ?j z"
    using update_instance [of w ?j y] j assms(1) by auto
  then show ?thesis using stored_as_instance(1) [OF adjust_stored(3) z(2)]
    by (intro exI [of _ z] exI [of _ n]) (simp add: orReturn_def)
qed

lemma deletion_run:
  assumes lib: "finalizer_lists lib" and w: "cluster_ok w" "housed w" "cu_instances w (ns, nm) = Some i"
    and i: "om_deleted (ci_meta i) \<noteq> None" "has_finalizer lib i" and ns: "\<And>k. cu_instances w (home_ns i, k) = None"
    and run: "run serve (Reconcile lib r m ns nm) w = (x, w')"
  shows "removed_with_home i w x w'"
proof -
  have key: "key_of (ci_meta i) = (ns, nm)" using w by (simp add: cluster_ok_def keyed_def)
  have fin: "finalizerName \<in> set (om_finalizers (ci_meta i))" using lib i(2) by (simp add: finalizer_lists_def has_finalizer_def)
  define h where "h = (\<lambda>i. orReturn (ask (UpdateInstance (remove_finalizer lib i)) dec_instance) (\<lambda>_. Ret (Returned (0 :: int))))"
  define g where "g = (\<lambda>i. bind (deleteUserNamespace i) (\<lambda>err. case err of Some e \<Rightarrow> Ret (Failed e) | None \<Rightarrow> h i))"
  have start: "run serve (Reconcile lib r m ns nm) w = run serve (orReturn (ask (UpdateStatus (set_phase PhaseTerminating i)) dec_instance) g) w"
    unfolding g_def h_def using get_instance [of ns nm w] w(3) i by (auto simp: Reconcile_def reconcileDeletion_def answers_def)
  have nonempty: "om_deleted (ci_meta i) = None \<or> om_finalizers (ci_meta i) \<noteq> []" using fin by auto
  obtain y n where y: "run serve (orReturn (ask (UpdateStatus (set_phase PhaseTerminating i)) dec_instance) g) w
      = run serve (g y) (put_instance (ns, nm) y n w)" "as_stored (set_phase PhaseTerminating i) y"
    using status_run [OF w(3) key nonempty, of "set_phase PhaseTerminating i" g] by auto
  note ys = as_stored_simps [OF y(2)]
  have home: "home_ns y = home_ns i" and ykey: "key_of (ci_meta y) = (ns, nm)" using ys key by (simp_all add: home_ns_def)
  define w1 where "w1 = put_instance (ns, nm) y n w"
  have w1: "cluster_ok w1" "housed w1" "cu_instances w1 (ns, nm) = Some y" "others_kept i w w1"
    using cluster_ok_upd(7) [OF cluster_ok_upd(1) [OF w(1)] ykey] w(2)
    by (simp_all add: w1_def put_instance_def housed_def empty_of_def others_kept_def key)
  have elsewhere: "cu_instances w1 (home_ns y, k) = None" for k
    using ns [of k] ns [of nm] w(3) by (auto simp: w1_def home)
  obtain w2 where w2: "run serve (g y) w1 = run serve (h y) w2"
    "home_goes y w2" "others_kept y w1 w2" "cu_instances w2 = cu_instances w1" "cluster_ok w2" "housed w2" "cu_posts w2 = cu_posts w1"
    using namespace_dropped [OF w1(1,2) elsewhere, of "\<lambda>err. case err of Some e \<Rightarrow> Ret (Failed e) | None \<Rightarrow> h y"] by (auto simp: g_def)
  obtain z n' where z: "run serve (h y) w2 = (Returned 0, put_or_remove (ns, nm) z n' w2)" "as_stored (remove_finalizer lib y) z"
    using unfinalize_run [of w2 "(ns, nm)" y lib "\<lambda>_. Ret (Returned 0)"] ykey w1(3) w2(4) unfolding h_def by auto
  note zs = as_stored_simps [OF z(2)]
  have "om_finalizers (ci_meta z) = filter (\<lambda>f. f \<noteq> finalizerName) (om_finalizers (ci_meta i))" "om_deleted (ci_meta z) \<noteq> None"
    "phase z = PhaseTerminating" "ci_spec z = ci_spec i" "key_of (ci_meta z) = (ns, nm)"
    using zs ys lib i(1) ykey by (simp_all add: remove_finalizer_def finalizer_lists_def key_of_def)
  moreover have "home_goes i w2" using w2(2) unfolding home_goes_def home .
  moreover have "others_kept i w w2"
    using w1(4) w2(3) by (simp add: others_kept_def home ykey key)
  ultimately have "removed_with_home i w (Returned 0) (put_or_remove (ns, nm) z n' w2)"
    using w2(5-7) fin key by (intro removed_in_the_end) (simp_all add: w1_def)
  then show ?thesis using run start y(1) w2(1) z(1) by (simp add: w1_def)
qed

end
section \<open>A server that keeps the laws\<close>

text \<open>Versions are the numbers of the changes; a namespace that is deleted is gone at once.\<close>

definition conflict :: go_error where "conflict = ErrApi OtherReason ''the object has been modified''"
definition no_such :: go_error where "no_such = ErrApi NotFound ''not found''"

definition answer :: "'o option \<Rightarrow> go_error + 'o" where
  "answer x = (case x of None \<Rightarrow> Inl no_such | Some y \<Rightarrow> Inr y)"

definition saved :: "('o \<Rightarrow> object_meta) \<Rightarrow> 'o adjuster \<Rightarrow> int \<Rightarrow> nat \<Rightarrow> 'o option \<Rightarrow> 'o \<Rightarrow> 'o" where
  "saved meta adjust now n old new = (case old of
     None \<Rightarrow> adjust (show_int (int n)) (Some now) None None new
   | Some x \<Rightarrow>
       if adjust (om_version (meta x)) (om_created (meta x)) (om_deleted (meta x)) old new = x then x
       else adjust (show_int (int n)) (om_created (meta x)) (om_deleted (meta x)) old new)"

definition next_rev :: "'o option \<Rightarrow> 'o \<Rightarrow> cluster \<Rightarrow> nat" where
  "next_rev old x w = (if old = Some x then cu_rev w else cu_rev w + 1)"

definition write_object :: "('o \<Rightarrow> object_meta) \<Rightarrow> 'o adjuster \<Rightarrow> (cluster \<Rightarrow> 'k \<rightharpoonup> 'o) \<Rightarrow>
    (('k \<rightharpoonup> 'o) \<Rightarrow> cluster \<Rightarrow> cluster) \<Rightarrow> int \<Rightarrow> 'k \<Rightarrow> 'o \<Rightarrow> cluster \<Rightarrow> oanswer \<times> cluster" where
  "write_object meta adjust objs upd now k x w =
     (if \<not> writable meta (objs w k) x then (ADone (Some conflict), w)
      else let y = saved meta adjust now (cu_rev w) (objs w k) x
           in (ADone None, upd ((objs w)(k \<mapsto> y)) (w\<lparr>cu_rev := next_rev (objs w k) y w\<rparr>)))"

definition in_home :: "object_meta \<Rightarrow> cluster \<Rightarrow> oanswer \<times> cluster \<Rightarrow> oanswer \<times> cluster" where
  "in_home m w result = (case cu_namespaces w (om_namespace m) of
     None \<Rightarrow> (ADone (Some no_such), w)
   | Some a \<Rightarrow> if om_deleted (ns_meta a) = None then result else (ADone (Some conflict), w))"

definition write_instance :: "claw_instance adjuster \<Rightarrow> int \<Rightarrow> claw_instance \<Rightarrow> cluster \<Rightarrow> oanswer \<times> cluster" where
  "write_instance adjust now j w =
     (let k = key_of (ci_meta j); old = cu_instances w k in
      if old = None then (AInstance (Inl no_such), w)
      else if \<not> writable ci_meta old j then (AInstance (Inl conflict), w)
      else let z = saved ci_meta adjust now (cu_rev w) old j
           in (AInstance (Inr z), put_or_remove k z (next_rev old z w) w))"

definition serve_cluster :: "int \<Rightarrow> api" where
  "serve_cluster now c w = (case c of
     GetInstance ns n \<Rightarrow> (AInstance (answer (cu_instances w (ns, n))), w)
   | UpdateInstance i \<Rightarrow> write_instance adjust_instance now i w
   | UpdateStatus i \<Rightarrow> write_instance adjust_status now i w
   | GetNamespace n \<Rightarrow> (ANamespace (answer (cu_namespaces w n)), w)
   | DeleteNamespace ns \<Rightarrow> (ADone None, drop_namespace (om_name (ns_meta ns)) (cu_rev w + 1) w)
   | FetchNamespace x \<Rightarrow> (ANamespace (found (cu_namespaces w (om_name (ns_meta x))) x), w)
   | WriteNamespace x \<Rightarrow> write_object ns_meta adjust_namespace cu_namespaces (\<lambda>m w. w\<lparr>cu_namespaces := m\<rparr>) now (om_name (ns_meta x)) x w
   | FetchPVC x \<Rightarrow> (APVC (found (cu_pvcs w (key_of (pvc_meta x))) x), w)
   | WritePVC x \<Rightarrow> in_home (pvc_meta x) w
       (write_object pvc_meta adjust_pvc cu_pvcs (\<lambda>m w. w\<lparr>cu_pvcs := m\<rparr>) now (key_of (pvc_meta x)) x w)
   | FetchDeployment x \<Rightarrow> (ADeployment (found (cu_deployments w (key_of (de_meta x))) x), w)
   | WriteDeployment x \<Rightarrow> in_home (de_meta x) w
       (write_object de_meta adjust_deployment cu_deployments (\<lambda>m w. w\<lparr>cu_deployments := m\<rparr>) now (key_of (de_meta x)) x w)
   | FetchService x \<Rightarrow> (AService (found (cu_services w (key_of (sv_meta x))) x), w)
   | WriteService x \<Rightarrow> in_home (sv_meta x) w
       (write_object sv_meta adjust_service cu_services (\<lambda>m w. w\<lparr>cu_services := m\<rparr>) now (key_of (sv_meta x)) x w)
   | FetchNetpol x \<Rightarrow> (ANetpol (found (cu_netpols w (key_of (np_meta x))) x), w)
   | WriteNetpol x \<Rightarrow> in_home (np_meta x) w
       (write_object np_meta adjust_netpol cu_netpols (\<lambda>m w. w\<lparr>cu_netpols := m\<rparr>) now (key_of (np_meta x)) x w)
   | GetDeployment ns n \<Rightarrow> (ADeployment (answer (cu_deployments w (ns, n))), w)
   | RecordEvent t r m \<Rightarrow> (ADone None, w\<lparr>cu_events := cu_events w @ [(t, r, m)]\<rparr>)
   | PostJSON u b \<Rightarrow> (AStatusCode (Inr 200), w\<lparr>cu_posts := cu_posts w @ [(u, b)]\<rparr>))"

lemma answer_answers: "answers x (answer x)"
  by (simp add: answers_def answer_def isNotFound_def no_such_def split: option.split)

lemma saved_stored: "stored_as meta adjust old x (saved meta adjust now n old x)"
  by (auto simp: stored_as_def saved_def split: option.split)

lemma write_object_law:
  assumes "writable meta (objs w k) x"
  shows "\<exists>z n. write_object meta adjust objs upd now k x w = (ADone None, upd ((objs w)(k \<mapsto> z)) (w\<lparr>cu_rev := n\<rparr>))
    \<and> stored_as meta adjust (objs w k) x z \<and> (objs w k = Some z \<longrightarrow> n = cu_rev w)"
  using assms saved_stored [of meta adjust "objs w k" x now "cu_rev w"]
  by (auto simp: write_object_def next_rev_def Let_def intro!: exI [of _ "saved meta adjust now (cu_rev w) (objs w k) x"])

lemma write_instance_law:
  assumes "cu_instances w (key_of (ci_meta j)) = Some i" "writable ci_meta (Some i) j"
  shows "\<exists>z n. write_instance adjust now j w = (AInstance (Inr z), put_or_remove (key_of (ci_meta j)) z n w)
    \<and> stored_as ci_meta adjust (Some i) j z \<and> (z = i \<longrightarrow> n = cu_rev w)"
  using assms saved_stored [of ci_meta adjust "Some i" j now "cu_rev w"]
  by (auto simp: write_instance_def next_rev_def Let_def intro!: exI [of _ "saved ci_meta adjust now (cu_rev w) (Some i) j"])

lemmas serve_defs = serve_cluster_def open_home_def in_home_def stamp_def key_of_def

interpretation served_namespaces: kube_kind "serve_cluster now" FetchNamespace dec_namespace WriteNamespace cu_namespaces
    "\<lambda>m w. w\<lparr>cu_namespaces := m\<rparr>" "\<lambda>x. om_name (ns_meta x)" ns_meta adjust_namespace "\<lambda>_ _. True" for now
  by unfold_locales (auto simp: serve_defs adjust_namespace_def write_object_law [where upd = "\<lambda>m w. w\<lparr>cu_namespaces := m\<rparr>"])

interpretation served_pvcs: kube_kind "serve_cluster now" FetchPVC dec_pvc WritePVC cu_pvcs
    "\<lambda>m w. w\<lparr>cu_pvcs := m\<rparr>" "\<lambda>x. key_of (pvc_meta x)" pvc_meta adjust_pvc "open_home pvc_meta" for now
  by unfold_locales (auto simp: serve_defs adjust_pvc_def write_object_law [where upd = "\<lambda>m w. w\<lparr>cu_pvcs := m\<rparr>"])

interpretation served_deployments: kube_kind "serve_cluster now" FetchDeployment dec_deployment WriteDeployment cu_deployments
    "\<lambda>m w. w\<lparr>cu_deployments := m\<rparr>" "\<lambda>x. key_of (de_meta x)" de_meta adjust_deployment "open_home de_meta" for now
  by unfold_locales (auto simp: serve_defs adjust_deployment_def write_object_law [where upd = "\<lambda>m w. w\<lparr>cu_deployments := m\<rparr>"])

interpretation served_services: kube_kind "serve_cluster now" FetchService dec_service WriteService cu_services
    "\<lambda>m w. w\<lparr>cu_services := m\<rparr>" "\<lambda>x. key_of (sv_meta x)" sv_meta adjust_service "open_home sv_meta" for now
  by unfold_locales (auto simp: serve_defs adjust_service_def write_object_law [where upd = "\<lambda>m w. w\<lparr>cu_services := m\<rparr>"])

interpretation served_netpols: kube_kind "serve_cluster now" FetchNetpol dec_netpol WriteNetpol cu_netpols
    "\<lambda>m w. w\<lparr>cu_netpols := m\<rparr>" "\<lambda>x. key_of (np_meta x)" np_meta adjust_netpol "open_home np_meta" for now
  by unfold_locales (auto simp: serve_defs adjust_netpol_def write_object_law [where upd = "\<lambda>m w. w\<lparr>cu_netpols := m\<rparr>"])

interpretation served: api_server "serve_cluster now" for now
  by unfold_locales (auto simp: serve_cluster_def answer_answers write_instance_law)

section \<open>The properties\<close>

definition sample_cluster :: "claw_instance \<Rightarrow> cluster" where
  "sample_cluster i = \<lparr>cu_rev = 7, cu_instances = [key_of (ci_meta i) \<mapsto> i], cu_namespaces = Map.empty, cu_pvcs = Map.empty,
     cu_deployments = Map.empty, cu_services = Map.empty, cu_netpols = Map.empty, cu_events = [], cu_posts = []\<rparr>"

definition sample_doomed :: claw_instance where
  "sample_doomed = sample_instance\<lparr>ci_meta := (ci_meta sample_instance)\<lparr>om_deleted := Some 9, om_finalizers := [finalizerName]\<rparr>\<rparr>"

lemma sample_cluster_ok: "cluster_ok (sample_cluster i)" "housed (sample_cluster i)" "home_open i' (sample_cluster i)"
  "cu_instances (sample_cluster i) (key_of (ci_meta i)) = Some i"
  by (simp_all add: sample_cluster_def cluster_ok_def keyed_def housed_def empty_of_def home_open_def)

lemma sample_lib_more: "condition_laws sample_lib" "finalizer_lists sample_lib"
  by (simp_all add: condition_laws_def finalizer_lists_def sample_lib_def)

lemma sample_key: "key_of (ci_meta sample_instance) = (''clawbake'', ''u1'')" "key_of (ci_meta sample_doomed) = (''clawbake'', ''u1'')"
  by (simp_all add: key_of_def sample_doomed_def sample_instance_def named_meta_def empty_meta_def)

lemma sample_quantities: "quantities_ok (ol_quantity_ok sample_lib) (ci_spec sample_instance)"
  by (auto simp: quantities_ok_def quantities_of_def sample_lib_def sample_instance_def sample_resources_def sample_quantity_def)





end
