(* ===== verification/Lifecycle.thy ===== *)
theory Lifecycle
  imports Convergence Handlers
begin

text \<open>
  The life of an instance, from the server's create handler to nothing left: the handler's instance is stored in the
  cluster, the operator makes its objects, the cluster starts the pod, the operator declares the instance running and has its
  user told, someone deletes it, and the operator takes it away. The steps of others are functions on the cluster; the
  operator's are calls of \<^verbatim>\<open>Reconcile\<close>, against any server that keeps its laws.
\<close>

section \<open>The steps of others\<close>

text \<open>The instance \<^verbatim>\<open>CreateInstance\<close> makes, as the server stores it.\<close>

definition stored_new :: "string \<Rightarrow> int \<Rightarrow> string \<Rightarrow> string \<Rightarrow> labels \<Rightarrow> instance_default \<Rightarrow> string \<Rightarrow> string \<Rightarrow> claw_instance" where
  "stored_new v c namespace uid labels defaults token config =
     adjust_instance v (Some c) None None (new_instance namespace uid labels defaults token config)"

text \<open>The pods of its deployment become ready.\<close>

definition becomes_ready :: "claw_instance \<Rightarrow> string \<Rightarrow> int \<Rightarrow> cluster \<Rightarrow> cluster" where
  "becomes_ready i v n w = (case cu_deployments w (home_ns i, ''openclaw'') of
     None \<Rightarrow> w
   | Some d \<Rightarrow> w\<lparr>cu_deployments := (cu_deployments w)((home_ns i, ''openclaw'') \<mapsto>
       d\<lparr>de_meta := (de_meta d)\<lparr>om_version := v\<rparr>, de_readyReplicas := n\<rparr>)\<rparr>)"

text \<open>It is deleted: the server marks it, for it has a finalizer.\<close>

definition marked :: "string \<Rightarrow> int \<Rightarrow> claw_instance \<Rightarrow> claw_instance" where
  "marked v t i = i\<lparr>ci_meta := (ci_meta i)\<lparr>om_version := v, om_deleted := Some t\<rparr>\<rparr>"

definition is_deleted :: "key \<Rightarrow> string \<Rightarrow> int \<Rightarrow> cluster \<Rightarrow> cluster" where
  "is_deleted k v t w = (case cu_instances w k of None \<Rightarrow> w | Some i \<Rightarrow> w\<lparr>cu_instances := (cu_instances w)(k \<mapsto> marked v t i)\<rparr>)"

definition phase_at :: "cluster \<Rightarrow> key \<Rightarrow> string option" where
  "phase_at w k = map_option (\<lambda>i. phase i) (cu_instances w k)"

section \<open>What each step keeps\<close>

lemma cluster_key: "cluster_ok w \<Longrightarrow> cu_instances w k = Some i \<Longrightarrow> key_of (ci_meta i) = k"
  by (cases k) (simp add: cluster_ok_def keyed_def)

lemma others_kept_trans: "others_kept i w w1 \<Longrightarrow> others_kept i w1 w2 \<Longrightarrow> others_kept i w w2"
  by (simp add: others_kept_def)

lemma others_kept_cong: "key_of (ci_meta j) = key_of (ci_meta i) \<Longrightarrow> others_kept j w w' = others_kept i w w'"
  by (simp add: others_kept_def home_ns_def key_of_def)

lemma becomes_ready_keeps:
  "cluster_ok w \<Longrightarrow> cluster_ok (becomes_ready i v n w)" "cu_instances (becomes_ready i v n w) = cu_instances w"
  "cu_posts (becomes_ready i v n w) = cu_posts w" "others_kept i w (becomes_ready i v n w)"
  "home_open i (becomes_ready i v n w) = home_open i w"
  by (auto simp: becomes_ready_def cluster_ok_def keyed_def key_of_def others_kept_def home_open_def split: option.split)

lemma becomes_ready_housed: "housed w \<Longrightarrow> housed (becomes_ready i v n w)"
  by (auto simp: becomes_ready_def housed_def empty_of_def split: option.split)

lemma becomes_ready_replicas:
  "desired lib r i w \<Longrightarrow> ready_replicas i (becomes_ready i v n w) = n"
  by (auto simp: desired_def becomes_ready_def ready_replicas_def)

lemma is_deleted_keeps:
  assumes "cu_instances w (key_of (ci_meta i)) = Some j" "key_of (ci_meta j) = key_of (ci_meta i)"
  shows "cluster_ok w \<Longrightarrow> cluster_ok (is_deleted (key_of (ci_meta i)) v t w)"
    "cu_instances (is_deleted (key_of (ci_meta i)) v t w) (key_of (ci_meta i)) = Some (marked v t j)"
    "cu_posts (is_deleted (key_of (ci_meta i)) v t w) = cu_posts w" "others_kept i w (is_deleted (key_of (ci_meta i)) v t w)"
    "housed w \<Longrightarrow> housed (is_deleted (key_of (ci_meta i)) v t w)"
  using assms
  by (auto simp: is_deleted_def marked_def cluster_ok_def keyed_def key_of_def others_kept_def housed_def empty_of_def)

lemma converged_housed:
  assumes "converged lib r url_ok serverURL i w x w'" "housed w"
  shows "housed w'"
  unfolding housed_def empty_of_def
proof (intro allI impI)
  fix ns k
  assume none: "cu_namespaces w' ns = None"
  with assms(1) have "ns \<noteq> home_ns i" by (auto simp: converged_def desired_def Let_def)
  with assms none show "cu_pvcs w' (ns, k) = None \<and> cu_deployments w' (ns, k) = None \<and> cu_services w' (ns, k) = None \<and> cu_netpols w' (ns, k) = None"
    by (simp add: converged_def others_kept_def housed_def empty_of_def Let_def)
qed

lemma stored_new_simps:
  "key_of (ci_meta (stored_new v c namespace uid labels defaults token config)) = (namespace, uid)"
  "om_deleted (ci_meta (stored_new v c namespace uid labels defaults token config)) = None"
  "om_finalizers (ci_meta (stored_new v c namespace uid labels defaults token config)) = []"
  "phase (stored_new v c namespace uid labels defaults token config) = []"
  "instance_name (stored_new v c namespace uid labels defaults token config) = uid"
  by (simp_all add: stored_new_def adjust_instance_def new_instance_def named_meta_def empty_meta_def empty_status_def stamp_def key_of_def)

text \<open>What \<open>converged\<close> says of the instance.\<close>

lemma converged_instance:
  assumes "converged lib r url_ok serverURL i w x w'" "key_of (ci_meta i) = k"
  obtains j where "cu_instances w' k = Some j" "ci_spec j = ci_spec i" "om_deleted (ci_meta j) = None" "key_of (ci_meta j) = k"
    "om_finalizers (ci_meta j) = finalizers_with lib i" "phase_at w' k = Some (if ready_replicas i w \<ge> 1 then PhaseRunning else PhaseStarting)"
    "phase j = (if ready_replicas i w \<ge> 1 then PhaseRunning else PhaseStarting)"
proof -
  obtain j where "cu_instances w' k = Some j" "ci_spec j = ci_spec i" "om_deleted (ci_meta j) = None"
    "om_finalizers (ci_meta j) = finalizers_with lib i" "phase j = (if ready_replicas i w \<ge> 1 then PhaseRunning else PhaseStarting)"
    using assms by (auto simp: converged_def Let_def)
  moreover have "key_of (ci_meta j) = k" using assms(1) calculation(1) by (metis cluster_key converged_def)
  ultimately show ?thesis using that by (simp add: phase_at_def)
qed

lemma converged_facts:
  assumes "converged lib r url_ok serverURL i w x w'"
  shows "x = Returned (if ready_replicas i w \<ge> 1 then 0 else 5)" "others_kept i w w'" "cluster_ok w'" "home_open i w'" "desired lib r i w'"
    "cu_posts w' = cu_posts w @ (if ready_replicas i w \<ge> 1 \<and> phase i \<noteq> PhaseRunning then notice url_ok serverURL i else [])"
  using assms by (simp_all add: converged_def Let_def)

lemma new_finalizers:
  assumes "finalizer_lists lib"
  shows "om_finalizers (ci_meta i) = [] \<Longrightarrow> finalizers_with lib i = [finalizerName]"
    "om_finalizers (ci_meta i) = [finalizerName] \<Longrightarrow> finalizers_with lib i = [finalizerName]"
  using assms by (auto simp: finalizers_with_def has_finalizer_def add_finalizer_def finalizer_lists_def)

section \<open>The life of an instance\<close>

text \<open>What is so at the ends of the operator's three steps.\<close>

definition lived :: "claw_instance \<Rightarrow> key \<Rightarrow> (string \<times> string) list \<Rightarrow> cluster \<Rightarrow> int outcome \<times> cluster \<Rightarrow> int outcome \<times> cluster \<Rightarrow> int outcome \<times> cluster \<Rightarrow> bool" where
  "lived i k posts w a b c \<longleftrightarrow>
     fst a = Returned 5 \<and> phase_at (snd a) k = Some PhaseStarting \<and> cu_posts (snd a) = cu_posts w
   \<and> fst b = Returned 0 \<and> phase_at (snd b) k = Some PhaseRunning \<and> cu_posts (snd b) = cu_posts w @ posts
   \<and> fst c = Returned 0 \<and> phase_at (snd c) k = None \<and> cu_posts (snd c) = cu_posts w @ posts
   \<and> home_goes i (snd c) \<and> others_kept i w (snd c) \<and> cluster_ok (snd c)"

text \<open>The two steps up.\<close>

lemma comes_up:
  fixes lib r url_ok serverURL namespace uid
  defines "reconcile \<equiv> Reconcile lib r (Some (NotifyInstanceReady url_ok serverURL)) namespace uid"
  assumes lib: "api_server serve" "finalizer_lists lib" "condition_laws lib"
    and i: "key_of (ci_meta i) = (namespace, uid)" "om_deleted (ci_meta i) = None" "om_finalizers (ci_meta i) = []" "phase i = []"
      "quantities_ok (ol_quantity_ok lib) (ci_spec i)"
    and w: "cluster_ok w" "housed w" "cu_instances w (namespace, uid) = Some i" "cu_namespaces w (home_ns i) = None"
    and n: "n \<ge> 1"
    and a: "a = run serve reconcile w" and b: "b = run serve reconcile (becomes_ready i v' n (snd a))"
  shows "fst a = Returned 5 \<and> phase_at (snd a) (namespace, uid) = Some PhaseStarting \<and> cu_posts (snd a) = cu_posts w
      \<and> fst b = Returned 0 \<and> phase_at (snd b) (namespace, uid) = Some PhaseRunning \<and> cu_posts (snd b) = cu_posts w @ notice url_ok serverURL i"
    "cluster_ok (snd b)" "housed (snd b)" "others_kept i w (snd b)"
    "\<exists>j. cu_instances (snd b) (namespace, uid) = Some j \<and> om_finalizers (ci_meta j) = [finalizerName]"
proof -
  let ?k = "(namespace, uid)"
  note laws = lib(1) finalizer_lists_laws [OF lib(2)] and key = i(1)
  have zero: "ready_replicas i w = 0" using w(2,4) by (simp add: housed_def empty_of_def ready_replicas_def)
  have one: "converged lib r url_ok serverURL i w (fst a) (snd a)"
    by (rule api_server.Reconcile_run [OF laws lib(3) w(1,3) _ i(2,5)]) (simp_all add: a reconcile_def home_open_def w(4))
  obtain i1 where i1: "cu_instances (snd a) ?k = Some i1" "ci_spec i1 = ci_spec i" "om_deleted (ci_meta i1) = None" "key_of (ci_meta i1) = ?k"
    "om_finalizers (ci_meta i1) = [finalizerName]" "phase_at (snd a) ?k = Some PhaseStarting" "phase i1 = PhaseStarting"
    using converged_instance [OF one key] new_finalizers(1) [OF lib(2) i(3)] by (auto simp: zero)
  note one_facts = converged_facts [OF one]
  define w1 where "w1 = becomes_ready i v' n (snd a)"
  have name1: "instance_name i1 = instance_name i" using i1(4) key by (simp add: key_of_def)
  note cong1 = desired_cong [OF name1 i1(2)] home_cong [OF name1]
  have n1: "ready_replicas i1 w1 = n" using becomes_ready_replicas [OF one_facts(5)] by (simp add: w1_def cong1)
  have w1: "cluster_ok w1" "cu_instances w1 ?k = Some i1" "home_open i1 w1"
    using one_facts(3,4) i1(1) becomes_ready_keeps(5) [of i v' n "snd a"] unfolding w1_def
    by (simp_all add: becomes_ready_keeps(1,2)) (simp only: home_open_def cong1)
  have two: "converged lib r url_ok serverURL i1 w1 (fst b) (snd b)"
    by (rule api_server.Reconcile_run [OF laws lib(3) w1 i1(3)]) (simp_all add: b reconcile_def w1_def i1(2) i(5))
  obtain i2 where i2: "cu_instances (snd b) ?k = Some i2" "key_of (ci_meta i2) = ?k" "om_finalizers (ci_meta i2) = [finalizerName]"
    "phase_at (snd b) ?k = Some PhaseRunning"
    using converged_instance [OF two i1(4)] new_finalizers(2) [OF lib(2) i1(5)] n by (auto simp: n1)
  note two_facts = converged_facts [OF two]
  have kept: "others_kept i w (snd b)"
    using one_facts(2) becomes_ready_keeps(4) [of i "snd a" v' n] two_facts(2) others_kept_trans
      others_kept_cong [of i1 i] i1(4) key unfolding w1_def by metis
  have housed: "housed (snd b)"
    using converged_housed [OF one w(2)] by (intro converged_housed [OF two]) (simp add: w1_def becomes_ready_housed)
  show "cluster_ok (snd b)" by (rule two_facts(3))
  show "housed (snd b)" by (rule housed)
  show "others_kept i w (snd b)" by (rule kept)
  show "\<exists>j. cu_instances (snd b) ?k = Some j \<and> om_finalizers (ci_meta j) = [finalizerName]" using i2(1,3) by blast
  have "notice url_ok serverURL i1 = notice url_ok serverURL i" by (rule cong1(4))
  then show "fst a = Returned 5 \<and> phase_at (snd a) ?k = Some PhaseStarting \<and> cu_posts (snd a) = cu_posts w
      \<and> fst b = Returned 0 \<and> phase_at (snd b) ?k = Some PhaseRunning \<and> cu_posts (snd b) = cu_posts w @ notice url_ok serverURL i"
    using one_facts(1,6) two_facts(1,6) i1(6,7) i2(4) n
    by (simp add: zero n1 [unfolded w1_def] w1_def becomes_ready_keeps(3) phase_defs)
qed

text \<open>Property C4. The life of an instance. The instance the create handler makes is stored in a cluster where its namespace is not there
  yet. One call of \<^verbatim>\<open>Reconcile\<close>, against any server that keeps its laws, makes its objects and leaves it Starting, to
  be looked at again in five seconds; when its pod has become ready, one more leaves it Running and notifies the server, for
  the first and only time; when it was deleted, one more removes it, its finalizer being the only one, with its namespace and all
  that is in it. Nothing else in the cluster is touched on the way.\<close>

theorem instance_lifecycle:
  fixes lib r url_ok serverURL namespace uid
  defines "reconcile \<equiv> Reconcile lib r (Some (NotifyInstanceReady url_ok serverURL)) namespace uid"
  assumes lib: "api_server serve" "finalizer_lists lib" "condition_laws lib"
    and i: "i = stored_new v c namespace uid labels defaults token config" "quantities_ok (ol_quantity_ok lib) (ci_spec i)"
    and w: "cluster_ok w" "housed w" "cu_instances w (namespace, uid) = Some i" "cu_namespaces w (home_ns i) = None"
      "\<And>k. cu_instances w (home_ns i, k) = None"
    and n: "n \<ge> 1"
    and a: "a = run serve reconcile w" and b: "b = run serve reconcile (becomes_ready i v' n (snd a))"
    and c: "d = run serve reconcile (is_deleted (namespace, uid) v'' t (snd b))"
  shows "lived i (namespace, uid) (notice url_ok serverURL i) w a b d"
proof -
  let ?k = "(namespace, uid)"
  have key: "key_of (ci_meta i) = ?k" and fresh: "om_deleted (ci_meta i) = None" "om_finalizers (ci_meta i) = []" "phase i = []"
    by (simp_all add: i(1) stored_new_simps)
  note up = comes_up [OF lib key fresh i(2) w(1-4) n a [unfolded reconcile_def] b [unfolded reconcile_def]]
  obtain i2 where i2: "cu_instances (snd b) ?k = Some i2" "om_finalizers (ci_meta i2) = [finalizerName]" using up(5) by blast
  have key2: "key_of (ci_meta i2) = ?k" by (rule cluster_key [OF up(2) i2(1)])
  define i3 w2 where "i3 = marked v'' t i2" and "w2 = is_deleted ?k v'' t (snd b)"
  have i3: "key_of (ci_meta i3) = ?k" "om_deleted (ci_meta i3) \<noteq> None" "om_finalizers (ci_meta i3) = [finalizerName]"
    "has_finalizer lib i3"
    using i2(2) key2 lib(2) by (simp_all add: i3_def marked_def key_of_def has_finalizer_def finalizer_lists_def)
  have home3: "home_ns i3 = home_ns i" using i3(1) key by (simp add: home_ns_def key_of_def)
  note w2 = is_deleted_keeps [OF i2(1) [folded key] key2 [folded key], of v'' t, unfolded key, folded w2_def i3_def]
  have elsewhere: "cu_instances w2 (home_ns i3, k) = None" for k
    using w(3,5) up(4) w2(4) key unfolding home3 others_kept_def by (metis option.distinct(1))
  have three: "removed_with_home i3 w2 (fst d) (snd d)"
    by (rule api_server.deletion_run [OF lib(1,2) w2(1) [OF up(2)] w2(5) [OF up(3)] w2(2) i3(2,4) elsewhere])
      (simp add: c reconcile_def w2_def)
  have gone: "cu_instances (snd d) ?k = None"
    using three i3(1,3) by (auto simp: removed_with_home_def split: option.splits)
  have "others_kept i w (snd d)"
    using up(4) w2(4) three others_kept_trans others_kept_cong [of i3 i] i3(1) key unfolding removed_with_home_def by metis
  moreover have "home_goes i (snd d)" using three unfolding removed_with_home_def home_goes_def home3 by simp
  ultimately show ?thesis
    using three up(1) w2(3) gone by (simp add: lived_def removed_with_home_def phase_at_def)
qed

text \<open>One such life.\<close>

definition sample_new :: claw_instance where
  "sample_new = stored_new ''1'' 4 ''clawbake'' ''u1'' [] (zero_default\<lparr>df_image := ''openclaw:1'', df_cpuRequest := ''500m'',
     df_memoryRequest := ''1Gi'', df_cpuLimit := ''2'', df_memoryLimit := ''2Gi'', df_storageSize := ''10Gi''\<rparr>) ''t'' ''{}''"

definition sample_step :: "cluster \<Rightarrow> int outcome \<times> cluster" where
  "sample_step = run (serve_cluster 5) (Reconcile sample_lib sample_reconciler (Some (NotifyInstanceReady (\<lambda>_. True) ''http://s'')) ''clawbake'' ''u1'')"

definition sample_up :: "int outcome \<times> cluster" where
  "sample_up = sample_step (becomes_ready sample_new ''9'' 1 (snd (sample_step (sample_cluster sample_new))))"

lemma instance_lifecycle_witness:
  "lived sample_new (''clawbake'', ''u1'') (notice (\<lambda>_. True) ''http://s'' sample_new) (sample_cluster sample_new)
     (sample_step (sample_cluster sample_new)) sample_up (sample_step (is_deleted (''clawbake'', ''u1'') ''12'' 99 (snd sample_up)))"
proof -
  have key: "key_of (ci_meta sample_new) = (''clawbake'', ''u1'')" by (simp add: sample_new_def stored_new_simps)
  have ok: "quantities_ok (ol_quantity_ok sample_lib) (ci_spec sample_new)"
    by (auto simp: quantities_ok_def quantities_of_def sample_lib_def sample_new_def stored_new_def adjust_instance_def new_instance_def
        zero_default_def sample_quantity_def)
  have apart: "cu_instances (sample_cluster sample_new) (home_ns sample_new, k) = None" "cu_namespaces (sample_cluster sample_new) n = None" for k n
    unfolding sample_cluster_def key by (simp_all add: home_ns_def)
  show ?thesis
    unfolding sample_up_def sample_step_def
    by (rule instance_lifecycle [OF served.api_server_axioms sample_lib_more(2,1) sample_new_def ok sample_cluster_ok(1,2)
          sample_cluster_ok(4) [of sample_new, unfolded key] apart(2,1) _ refl refl refl]) simp
qed

end
