(* ===== verification/Creation.thy ===== *)
theory Creation
  imports System
begin

text \<open>
  A gateway configuration on its way: from the template an administrator stored, through the values and the
  override of the one who creates an instance, into the instance; from the edit form into the instance; and from
  the instance into the pod, which the operator starts and the server's proxy reaches.
\<close>

section \<open>Creating\<close>

lemma fill_plain: "hole_names t = [] \<Longrightarrow> fill vals t = unparse t"
  by (induction t rule: hole_names.induct) auto

lemma substitute_plain: "ExtractPlaceholders s = [] \<Longrightarrow> SubstitutePlaceholders s vals = Inr s"
  using ExtractPlaceholders_set(1) [of s] fill_plain [of "segments s"]
  by (simp add: SubstitutePlaceholders_def unparse_segments)

lemma accepted_template:
  assumes "config_problem lib template = None" "\<forall>n \<in> set (ExtractPlaceholders template). vals n \<noteq> None"
  shows "\<exists>r. SubstitutePlaceholders template vals = Inr r \<and> json_valid r
    \<and> build_config lib template vals override = apply_override lib r override"
proof (cases "ExtractPlaceholders template = []")
  case True
  with assms show ?thesis
    by (auto simp: config_problem_def build_config_def substitute_plain split: if_splits)
next
  case False
  with assms(1) have "ValidateTemplate template = None"
    by (auto simp: config_problem_def split: option.splits)
  with validated_template [OF this False assms(2)] False assms(2) show ?thesis
    by (auto simp: build_config_def Let_def filter_empty_conv)
qed

lemma null_valid: "json_valid ''null''"
  by (simp add: json_valid_def at_eof_def begin_value_def isSpace_def end_value_def end_top_def expect_def)

lemma apply_override_spec:
  assumes "float_text (wl_floatText lib)" "json_valid r"
  shows "case apply_override lib r override of
      Inr c \<Rightarrow> json_valid c
        \<and> (override = [] \<and> c = r
           \<or> (\<exists>b m. override \<noteq> [] \<and> unmarshal_map (wl_floatText lib) r = Inr (Some b) \<and> unmarshal_map (wl_floatText lib) override = Inr m
                \<and> unmarshal_map (wl_floatText lib) c = Inr (Some (deepMerge b (map_or_empty m))))
           \<or> override \<noteq> [] \<and> unmarshal_map (wl_floatText lib) r = Inr None \<and> c = ''null'')
    | Inl e \<Rightarrow> override \<noteq> []
        \<and> (e = OverrideNotJSON \<and> \<not> json_valid override \<or> (\<exists>x. e = MergeFailed x)
           \<or> (\<exists>x. e = MergePanics x \<and> unmarshal_map (wl_floatText lib) r = Inr None))"
proof (cases "override = [] \<or> \<not> json_valid override")
  case True
  with assms(2) show ?thesis by (auto simp: apply_override_def)
next
  case False
  let ?u = "unmarshal_map (wl_floatText lib)"
  consider e where "?u r = Inl e" | b m where "?u r = Inr (Some b)" "?u override = Inr m"
    | b e where "?u r = Inr b" "?u override = Inl e" | m where "?u r = Inr None" "?u override = Inr m"
    by (metis not_None_eq old.sum.exhaust)
  then show ?thesis
  proof cases
    case 2
    with False MergeJSON_objects [OF 2] unmarshal_merged [OF assms(1) 2] show ?thesis
      by (auto simp: apply_override_def)
  qed (use False null_valid in \<open>auto simp: apply_override_def MergeJSON_def split: option.splits list.splits\<close>)
qed



section \<open>Editing\<close>

lemma generation_differs: "generation_text (with_config c i) \<noteq> generation_text i"
proof
  assume "generation_text (with_config c i) = generation_text i"
  then have "sint (sp_configGeneration (ci_spec i) + 1) = sint (sp_configGeneration (ci_spec i))"
    by (simp add: generation_text_def with_config_def show_int_inject)
  then have "sp_configGeneration (ci_spec i) + 1 = sp_configGeneration (ci_spec i)" by (rule signed_word_eqI)
  then show False by simp
qed



section \<open>Reaching\<close>

definition service_port_of :: "environment \<Rightarrow> string \<Rightarrow> 32 word option" where
  "service_port_of env name =
     (case service_mutate (operator_settings env) sample_instance (new_service [] []) of
        Returned svc \<Rightarrow> map_option se_port (find (\<lambda>p. se_name p = name) (ss_ports (sv_spec svc)))
      | _ \<Rightarrow> None)"

text \<open>Property C29. The server's proxy and the operator agree on ports only by convention: the gateway's port is the
  same in both; the terminal's and the shell's path reach the port of the instance's service of that name
  exactly when the operator is not configured with another number (up to a multiple of \<open>2^32\<close>) and that
  service port exists at all.\<close>

theorem proxy_ports_agree:
  "service_port_of env ''http'' = Some (word_of_nat (pr_port (classifyProxyPath ''/proxy/web/'')))
   \<and> (service_port_of env ''tui'' = Some (word_of_nat (pr_port (classifyProxyPath ''/proxy/tui/''))) \<longleftrightarrow>
        env ''INSTANCE_TTYD_ENABLED'' \<noteq> ''false'' \<and> env ''INSTANCE_TUI_ENABLED'' \<noteq> ''false''
        \<and> (case parse_int64 (env ''INSTANCE_TUI_PORT'') of None \<Rightarrow> True | Some v \<Rightarrow> v mod 2 ^ 32 = 7681))
   \<and> (service_port_of env ''shell'' = Some (word_of_nat (pr_port (classifyProxyPath ''/proxy/shell/''))) \<longleftrightarrow>
        env ''INSTANCE_TTYD_ENABLED'' \<noteq> ''false'' \<and> env ''INSTANCE_SHELL_ENABLED'' \<noteq> ''false''
        \<and> (case parse_int64 (env ''INSTANCE_SHELL_PORT'') of None \<Rightarrow> True | Some v \<Rightarrow> v mod 2 ^ 32 = 7682))"
proof -
  have port: "(word_of_int v = (word_of_int n :: 32 word)) = (v mod 2 ^ 32 = n)" if "0 \<le> n" "n < 2 ^ 32" for v n :: int
    using that by (simp add: word_of_int_eq_iff take_bit_eq_mod)
  have tui: "(port_setting env key 7681 = 7681) = (case parse_int64 (env key) of None \<Rightarrow> True | Some v \<Rightarrow> v mod 2 ^ 32 = 7681)" for key
    using port [of 7681] by (cases "env key = []") (auto simp: port_setting_def Let_def parse_int64_Nil split: option.splits)
  have shell: "(port_setting env key 7682 = 7682) = (case parse_int64 (env key) of None \<Rightarrow> True | Some v \<Rightarrow> v mod 2 ^ 32 = 7682)" for key
    using port [of 7682] by (cases "env key = []") (auto simp: port_setting_def Let_def parse_int64_Nil split: option.splits)
  show ?thesis
    unfolding tui [symmetric] shell [symmetric]
    by (auto simp: service_port_of_def service_mutate_def operator_settings_def Let_def tcp_service_port_def
        classifyProxyPath_def hasPrefix_def proxy_consts)
qed

section \<open>Telling the owner\<close>

text \<open>A world with the database, the tasks that were started and the messages that were posted.\<close>

type_synonym notice_world = "db \<times> task list \<times> (string \<times> string) list"

definition serve_notice :: "string \<Rightarrow> int \<Rightarrow> scall \<Rightarrow> notice_world \<Rightarrow> sanswer \<times> notice_world" where
  "serve_notice fresh now c w = (case w of (d, tasks, posts) \<Rightarrow>
     (case c of
        Query q \<Rightarrow> (case serve_query fresh now q d of (a, d') \<Rightarrow> (a, (d', tasks, posts)))
      | Spawn t \<Rightarrow> (AError None, (d, tasks @ [t], posts))
      | SlackPost channel message \<Rightarrow> (AError None, (d, tasks, posts @ [(channel, message)]))
      | _ \<Rightarrow> (AError (Some odd_answer), w)))"

lemma GetUserByID_member: "users_ok (db_users d) \<Longrightarrow> v \<in> set (db_users d) \<Longrightarrow> GetUserByID (us_id v) d = (v, None)"
  by (simp add: GetUserByID_def filter_has_id)

text \<open>Property C30. A notification reaches the owner and nobody else: the request the operator makes for a
  user's instance starts one task, and that task posts one message, to the Slack account linked
  to the user whose identifier the instance bears, or none if that user has no account there.\<close>

theorem ready_reaches_owner:
  assumes "uuid_laws (sv_lib sv)" "bt_lib b = sv_lib sv" "sv_bot sv" "db_ok d" "v \<in> set (db_users d)"
    and "length (uu_bytes (us_id v)) = 16" "sp_userId (ci_spec i) = user_uid (sv_lib sv) v" "user_uid (sv_lib sv) v \<noteq> []"
    and "wl_bindReady (sv_lib sv) rq = Inr \<lparr>nr_instanceName = instance_name i, nr_userID = sp_userId (ci_spec i)\<rparr>"
  shows "run (serve_notice fresh now) (NotifyInstanceReadyHandler sv rq u) (d, [], [])
      = (NoContent StatusOK [], (d, [NotifyReady (instance_name i) (sp_userId (ci_spec i))], []))
    \<and> run (serve_notice fresh now) (run_task b (NotifyReady (instance_name i) (sp_userId (ci_spec i)))) (d, [], [])
      = ((), (d, [], case us_slackUserID v of None \<Rightarrow> [] | Some c \<Rightarrow> [(c, ready_message b (instance_name i))]))"
proof -
  have us: "users_ok (db_users d)" using assms(4) by (simp add: db_ok_def)
  with assms(5) have v: "uu_valid (us_id v)" by (auto simp: users_ok_def)
  then have uid: "wl_uuidParse (sv_lib sv) (user_uid (sv_lib sv) v) = Some (uu_bytes (us_id v))"
    using assms(1,6) by (simp add: uuid_laws_def user_uid_def)
  have id: "\<lparr>uu_bytes = uu_bytes (us_id v), uu_valid = True\<rparr> = us_id v" using v by (cases "us_id v") auto
  show ?thesis
    using assms uid id GetUserByID_member [OF us assms(5)]
    by (auto simp: NotifyInstanceReadyHandler_def bot_NotifyInstanceReady_def serve_notice_def dec_userRow_def ask_def
        split: option.splits)
qed

definition sample_linked_db :: db where
  "sample_linked_db = sample_db\<lparr>db_users := map (\<lambda>u. u\<lparr>us_slackUserID := Some ''U1''\<rparr>) (db_users sample_db)\<rparr>"

definition notice_lib :: web_lib where
  "notice_lib = sample_web_lib\<lparr>wl_bindReady :=
     \<lambda>_. Inr \<lparr>nr_instanceName = ''0123456789abcdef'', nr_userID = ''0123456789abcdef''\<rparr>\<rparr>"

lemma ready_reaches_owner_witness:
  "run (serve_notice [] 7) (run_task (sample_bot\<lparr>bt_lib := notice_lib\<rparr>) (NotifyReady ''0123456789abcdef'' ''0123456789abcdef''))
      (sample_linked_db, [], [])
    = ((), (sample_linked_db, [], [(''U1'', ready_message (sample_bot\<lparr>bt_lib := notice_lib\<rparr>) ''0123456789abcdef'')]))"
proof -
  let ?v = "hd (db_users sample_linked_db)"
  let ?i = "new_instance ''clawbake'' ''0123456789abcdef'' [] zero_default [] []"
  have laws: "uuid_laws notice_lib" using sample_web_lib_laws by (simp add: uuid_laws_def notice_lib_def)
  have ok: "db_ok sample_linked_db" using sample_db_ok by (simp add: sample_linked_db_def sample_db_def db_ok_def users_ok_def)
  have v: "?v \<in> set (db_users sample_linked_db)" "length (uu_bytes (us_id ?v)) = 16" "us_slackUserID ?v = Some ''U1''"
    and uid: "user_uid notice_lib ?v = ''0123456789abcdef''"
    by (simp_all add: sample_linked_db_def sample_db_def user_uid_def notice_lib_def sample_web_lib_def)
  have i: "instance_name ?i = ''0123456789abcdef''" "sp_userId (ci_spec ?i) = ''0123456789abcdef''"
    by (simp_all add: new_instance_def named_meta_def)
  have bound: "wl_bindReady notice_lib rq = Inr \<lparr>nr_instanceName = ''0123456789abcdef'', nr_userID = ''0123456789abcdef''\<rparr>" for rq
    by (simp add: notice_lib_def)
  show ?thesis
    using ready_reaches_owner [of "sample_server\<lparr>sv_lib := notice_lib\<rparr>" "sample_bot\<lparr>bt_lib := notice_lib\<rparr>"
        sample_linked_db ?v ?i sample_request "[]" 7 None] laws ok v uid i bound
    by (simp add: sample_server_def)
qed

end
