(* ===== verification/Templ.thy ===== *)
theory Templ
  imports Server
begin

text \<open>
  What the code generated by \<^verbatim>\<open>templ\<close> uses of its runtime. Rendering is a program of writes, each of which may
  fail; a component is a function of the context it is rendered in. The first error ends the rendering.
\<close>

section \<open>Rendering\<close>

text \<open>\<open>WriteLit\<close> is \<^verbatim>\<open>templruntime.WriteString\<close> with its number, \<open>WriteText\<close> the buffer's own
  \<^verbatim>\<open>WriteString\<close>, \<open>WriteCSS\<close> what \<^verbatim>\<open>RenderCSSItems\<close> writes. Each call is answered by its error.\<close>

datatype tcall =
  CtxErr
| WriteLit nat string
| WriteText string
| WriteCSS string
| ReleaseBuffer

datatype terror =
  Plain go_error
| TemplError go_error string nat nat

type_synonym tprog = "(tcall, go_error option, terror option) prog"

text \<open>
  The context: the children \<^verbatim>\<open>templ.WithChildren\<close> put into it, and whether the writer is the buffer
  of a component around this one.
\<close>

record render_ctx =
  rc_children :: "tprog option"
  rc_buffered :: bool

type_synonym component = "render_ctx \<Rightarrow> tprog"

definition in_buffer :: "render_ctx \<Rightarrow> tprog \<Rightarrow> tprog" where
  "in_buffer ctx p =
     (if rc_buffered ctx then p
      else bind p (\<lambda>err. Call ReleaseBuffer (\<lambda>bufErr. Ret (if err = None then map_option Plain bufErr else err))))"

definition GeneratedTemplate :: "(tprog \<Rightarrow> tprog) \<Rightarrow> component" where
  "GeneratedTemplate body ctx =
     Call CtxErr (\<lambda>err. case err of
       Some e \<Rightarrow> Ret (Some (Plain e))
     | None \<Rightarrow> in_buffer ctx (body (case rc_children ctx of Some children \<Rightarrow> children | None \<Rightarrow> Ret None)))"

text \<open>A component rendered inside another one: the buffer is shared, the children are cleared or given.\<close>

definition nested :: "component \<Rightarrow> tprog" where
  "nested c = c \<lparr>rc_children = None, rc_buffered = True\<rparr>"

definition with_children :: "component \<Rightarrow> tprog \<Rightarrow> tprog" where
  "with_children c children = c \<lparr>rc_children = Some children, rc_buffered = True\<rparr>"

text \<open>Statements one after the other, each followed by \<^verbatim>\<open>if err != nil { return err }\<close>.\<close>

primrec seq :: "tprog list \<Rightarrow> tprog" where
  "seq [] = Ret None"
| "seq (p # ps) = bind p (\<lambda>err. case err of None \<Rightarrow> seq ps | Some e \<Rightarrow> Ret (Some e))"

definition lit :: "nat \<Rightarrow> string \<Rightarrow> tprog" where
  "lit n s = ask (WriteLit n s) (map_option Plain)"

abbreviation if_then :: "bool \<Rightarrow> tprog list \<Rightarrow> tprog" where
  "if_then b ps \<equiv> (if b then seq ps else seq [])"

text \<open>A line break of a literal, with the tabs of the next line.\<close>

definition nl :: "nat \<Rightarrow> string" where
  "nl n = CHR 0x0A # replicate n (CHR 0x09)"

text \<open>
  What the code calls of the runtime on data: escaping, joining a value with the errors it came with,
  the text of a list of class names and the style sheets they bring; \<open>tl_version\<close> is the variable \<^verbatim>\<open>AppVersion\<close>.
\<close>

record templ_lib =
  tl_escape :: "string \<Rightarrow> string"
  tl_joinString :: "string \<Rightarrow> string \<times> go_error option"
  tl_joinURL :: "string \<Rightarrow> string \<times> go_error option"
  tl_classes :: "string list \<Rightarrow> string"
  tl_css :: "string list \<Rightarrow> string"
  tl_version :: string
  tl_uuidValue :: "string \<Rightarrow> string"

definition write_joined :: "templ_lib \<Rightarrow> (string \<times> go_error option) \<Rightarrow> string \<Rightarrow> nat \<Rightarrow> nat \<Rightarrow> tprog" where
  "write_joined lib joined file line col =
     (case joined of
        (v, Some e) \<Rightarrow> Ret (Some (TemplError e file line col))
      | (v, None) \<Rightarrow> ask (WriteText (tl_escape lib v)) (map_option Plain))"

definition str :: "templ_lib \<Rightarrow> string \<Rightarrow> nat \<Rightarrow> nat \<Rightarrow> string \<Rightarrow> tprog" where
  "str lib file line col v = write_joined lib (tl_joinString lib v) file line col"

definition url :: "templ_lib \<Rightarrow> string \<Rightarrow> nat \<Rightarrow> nat \<Rightarrow> string \<Rightarrow> tprog" where
  "url lib file line col v = write_joined lib (tl_joinURL lib v) file line col"

definition css :: "templ_lib \<Rightarrow> string list \<Rightarrow> tprog" where
  "css lib classes = ask (WriteCSS (tl_css lib classes)) (map_option Plain)"

section \<open>What is written\<close>

primrec written :: "tcall \<Rightarrow> string" where
  "written CtxErr = []"
| "written (WriteLit n s) = s"
| "written (WriteText s) = s"
| "written (WriteCSS s) = s"
| "written ReleaseBuffer = []"

text \<open>The whole text, when nothing fails, and the result.\<close>

primrec html_of :: "tprog \<Rightarrow> string" where
  "html_of (Ret e) = []"
| "html_of (Call c k) = written c @ html_of (k None)"

primrec result_of :: "tprog \<Rightarrow> terror option" where
  "result_of (Ret e) = e"
| "result_of (Call c k) = result_of (k None)"

lemma html_of_bind: "html_of (bind p f) = html_of p @ html_of (f (result_of p))"
  by (induction p) auto

lemma result_of_bind: "result_of (bind p f) = result_of (f (result_of p))"
  by (induction p) auto

lemma html_of_run: "run (\<lambda>c w. (None, w @ written c)) p w = (result_of p, w @ html_of p)"
  by (induction p arbitrary: w) auto

text \<open>\<^verbatim>\<open>html.EscapeString\<close>, and reading it back.\<close>

definition escape_char :: "char \<Rightarrow> string" where
  "escape_char c =
     (if c = CHR ''<'' then ''&lt;'' else if c = CHR ''>'' then ''&gt;'' else if c = CHR ''&'' then ''&amp;''
      else if c = CHR 0x22 then ''&#34;'' else if c = CHR 0x27 then ''&#39;'' else [c])"

definition html_escape :: "string \<Rightarrow> string" where
  "html_escape s = concat (map escape_char s)"

definition entities :: "(string \<times> char) list" where
  "entities = [(''lt;'', CHR ''<''), (''gt;'', CHR ''>''), (''amp;'', CHR ''&''), (''#34;'', CHR 0x22), (''#39;'', CHR 0x27)]"

definition entity_of :: "string \<Rightarrow> (string \<times> char) option" where
  "entity_of s = find (\<lambda>(e, c). hasPrefix s e) entities"

function unescape :: "string \<Rightarrow> string" where
  "unescape [] = []"
| "unescape (c # s) =
     (case (if c = CHR ''&'' then entity_of s else None) of
        Some (e, d) \<Rightarrow> d # unescape (drop (length e) s)
      | None \<Rightarrow> c # unescape s)"
  by pat_completeness auto
termination by (relation "measure length") auto

definition plain_text :: "string \<Rightarrow> bool" where
  "plain_text s \<longleftrightarrow> (\<forall>c \<in> set s. c \<noteq> CHR ''<'' \<and> c \<noteq> CHR ''>'' \<and> c \<noteq> CHR 0x22 \<and> c \<noteq> CHR 0x27)"

lemma html_escape_simps [simp]:
  "html_escape [] = []" "html_escape (c # s) = escape_char c @ html_escape s" "html_escape (s @ t) = html_escape s @ html_escape t"
  by (simp_all add: html_escape_def)

lemma plain_text_simps [simp]: "plain_text []" "plain_text (s @ t) \<longleftrightarrow> plain_text s \<and> plain_text t"
  by (auto simp: plain_text_def)

lemma plain_html_escape [simp]: "plain_text (html_escape s)"
  by (induction s) (auto simp: escape_char_def plain_text_def)

lemma unescape_char: "unescape (escape_char c @ s) = c # unescape s"
  by (auto simp: escape_char_def entity_of_def entities_def hasPrefix_def)

lemma unescape_html_escape [simp]: "unescape (html_escape s) = s"
  by (induction s) (simp_all add: unescape_char)

text \<open>
  What is documented of the runtime: text is escaped as by \<^verbatim>\<open>html.EscapeString\<close>, nothing goes wrong when a
  plain value is joined, and a list of distinct class names without style sheets is written as it is.
\<close>

definition templ_laws :: "templ_lib \<Rightarrow> bool" where
  "templ_laws lib \<longleftrightarrow>
     (\<forall>s. tl_escape lib s = html_escape s \<and> tl_joinString lib s = (s, None) \<and> tl_joinURL lib s = (s, None))
   \<and> (\<forall>a b. a \<noteq> b \<longrightarrow> CHR '' '' \<notin> set (a @ b) \<longrightarrow> a \<noteq> [] \<longrightarrow> b \<noteq> [] \<longrightarrow>
        tl_classes lib [a @ '' '' @ b] = a @ '' '' @ b \<and> tl_css lib [a @ '' '' @ b] = [])"

section \<open>Errors\<close>

text \<open>Nothing is written after an error: it is returned at once, or after the buffer was released.\<close>

primrec stops :: "terror \<Rightarrow> tprog \<Rightarrow> bool" where
  "stops e (Ret r) \<longleftrightarrow> r = Some e"
| "stops e (Call c k) \<longleftrightarrow> c = ReleaseBuffer \<and> (\<forall>a. k a = Ret (Some e))"

primrec fail_fast :: "tprog \<Rightarrow> bool" where
  "fail_fast (Ret e) = True"
| "fail_fast (Call c k) \<longleftrightarrow> (\<forall>e. stops (Plain e) (k (Some e))) \<and> fail_fast (k None)"

text \<open>Without a buffer of its own, an error is returned at once.\<close>

primrec at_once :: "tprog \<Rightarrow> bool" where
  "at_once (Ret e) = True"
| "at_once (Call c k) \<longleftrightarrow> (\<forall>e. k (Some e) = Ret (Some (Plain e))) \<and> at_once (k None)"

lemma at_once_seq: "at_once (seq [])" "at_once p \<Longrightarrow> at_once (seq ps) \<Longrightarrow> at_once (seq (p # ps))"
proof -
  show "at_once (seq [])" by simp
  assume "at_once p" "at_once (seq ps)"
  then show "at_once (seq (p # ps))" by (induction p) (auto split: option.splits)
qed

lemma at_once_simps:
  "at_once (lit n t)" "at_once (str lib f l c v)" "at_once (url lib f l c v)" "at_once (css lib cs)"
  by (simp_all add: lit_def str_def url_def write_joined_def css_def ask_def split: option.splits prod.splits)

lemma at_once_nested:
  assumes "\<And>children. at_once children \<Longrightarrow> at_once (body children)"
  shows "at_once (nested (GeneratedTemplate body))" "at_once p \<Longrightarrow> at_once (with_children (GeneratedTemplate body) p)"
  using assms by (simp_all add: nested_def with_children_def GeneratedTemplate_def in_buffer_def)

lemma fail_fast_component:
  assumes "at_once (body (Ret None))" "result_of (body (Ret None)) = None"
  shows "fail_fast (GeneratedTemplate body \<lparr>rc_children = None, rc_buffered = False\<rparr>)"
proof -
  have "fail_fast (bind q (\<lambda>err. Call ReleaseBuffer (\<lambda>a. Ret (if err = None then map_option Plain a else err))))"
    if "at_once q" "result_of q = None" for q using that by (induction q) auto
  with assms show ?thesis by (auto simp: GeneratedTemplate_def in_buffer_def)
qed

text \<open>The text written by the calls that did not fail.\<close>

definition sent :: "(tcall, go_error option) history \<Rightarrow> string" where
  "sent h = concat (map (\<lambda>(c, a). if a = None then written c else []) h)"

definition failures :: "(tcall, go_error option) history \<Rightarrow> go_error list" where
  "failures h = List.map_filter snd h"

lemma sent_simps [simp]:
  "sent [] = []" "sent ((c, a) # h) = (if a = None then written c else []) @ sent h"
  by (simp_all add: sent_def)

lemma failures_simps [simp]:
  "failures [] = []" "failures ((c, None) # h) = failures h" "failures ((c, Some e) # h) = e # failures h"
  by (simp_all add: failures_def map_filter_simps)

lemma stops_run:
  assumes "exec R p h r" "stops e p"
  shows "r = Some e \<and> sent h = []"
  using assms by (cases p) (auto simp: exec_Call_iff)

lemma fail_fast_run:
  assumes "exec (\<lambda>_ _. True) p h r" "fail_fast p"
  shows "(failures h = [] \<longrightarrow> sent h = html_of p \<and> r = result_of p)
    \<and> (failures h \<noteq> [] \<longrightarrow> r = Some (Plain (hd (failures h))) \<and> (\<exists>rest. html_of p = sent h @ rest))"
  using assms
proof (induction rule: exec.induct)
  case (exec_Ret a)
  then show ?case by simp
next
  case (exec_Call c a k h r)
  show ?case
  proof (cases a)
    case None
    with exec_Call show ?thesis by auto
  next
    case (Some e)
    with exec_Call.prems have "stops (Plain e) (k (Some e))" by simp
    with stops_run [OF exec_Call.hyps(2) [unfolded Some]] Some show ?thesis by simp
  qed
qed

end
