(* ===== verification/Html.thy ===== *)
theory Html
  imports Templ
begin

text \<open>
  How a browser reads what is written: tags, attributes, quoted values, text, the content of text areas and
  of scripts, one character at a time. What is not of the forms the templates use is \<open>HBad\<close>. The
  specification of a safe rendering: data is written only where it cannot end what it stands in, never into a
  script or a style, and into an address only behind a constant local path.
\<close>

section \<open>Reading\<close>

text \<open>
  \<open>HOpen t\<close>: in the name of a tag; \<open>HIn t as\<close>: behind its attributes \<open>as\<close>; \<open>HName t as n\<close>, \<open>HEq t as n\<close>,
  \<open>HVal t as n q v\<close>: in an attribute's name, behind its \<^verbatim>\<open>=\<close>, in its value with quote \<open>q\<close>; \<open>HArea v\<close>: in the
  content of a text area; \<open>HRaw k\<close>: in a script, of whose end \<open>k\<close> characters are read.
\<close>

datatype hstate =
  HText
| HOpen string
| HIn string bindings
| HName string bindings string
| HEq string bindings string
| HVal string bindings string char string
| HArea string
| HRaw nat
| HBad

datatype event =
  ETag string bindings
| EArea string

definition script_end :: string where
  "script_end = ''</script>''"

definition closed_tag :: "string \<Rightarrow> hstate" where
  "closed_tag t = (if t = ''script'' then HRaw 0 else if t = ''textarea'' then HArea [] else HText)"

definition quotes :: "char set" where
  "quotes = {CHR 0x22, CHR 0x27}"

fun hstep :: "hstate \<Rightarrow> char \<Rightarrow> hstate" where
  "hstep HText c = (if c = CHR ''<'' then HOpen [] else HText)"
| "hstep (HOpen t) c = (if c = CHR '' '' then HIn t [] else if c = CHR ''>'' then closed_tag t
     else if c = CHR ''<'' \<or> c = CHR ''='' \<or> c \<in> quotes then HBad else HOpen (t @ [c]))"
| "hstep (HIn t as) c = (if c = CHR '' '' then HIn t as else if c = CHR ''>'' then closed_tag t
     else if c = CHR ''<'' \<or> c = CHR ''='' \<or> c \<in> quotes then HBad else HName t as [c])"
| "hstep (HName t as n) c = (if c = CHR '' '' then HIn t (as @ [(n, [])]) else if c = CHR ''>'' then closed_tag t
     else if c = CHR ''='' then HEq t as n else if c = CHR ''<'' \<or> c \<in> quotes then HBad else HName t as (n @ [c]))"
| "hstep (HEq t as n) c = (if c \<in> quotes then HVal t as n c [] else HBad)"
| "hstep (HVal t as n q v) c = (if c = q then HIn t (as @ [(n, v)]) else HVal t as n q (v @ [c]))"
| "hstep (HArea v) c = (if c = CHR ''<'' then HOpen [] else HArea (v @ [c]))"
| "hstep (HRaw k) c = (if script_end ! k = c then (if k = 8 then HText else HRaw (k + 1))
     else HRaw (if c = CHR ''<'' then 1 else 0))"
| "hstep HBad c = HBad"

fun hemit :: "hstate \<Rightarrow> char \<Rightarrow> event list" where
  "hemit (HOpen t) c = (if c = CHR ''>'' then [ETag t []] else [])"
| "hemit (HIn t as) c = (if c = CHR ''>'' then [ETag t as] else [])"
| "hemit (HName t as n) c = (if c = CHR ''>'' then [ETag t (as @ [(n, [])])] else [])"
| "hemit (HArea v) c = (if c = CHR ''<'' then [EArea v] else [])"
| "hemit s c = []"

primrec after :: "hstate \<Rightarrow> string \<Rightarrow> hstate" where
  "after s [] = s"
| "after s (c # cs) = after (hstep s c) cs"

primrec events :: "hstate \<Rightarrow> string \<Rightarrow> event list" where
  "events s [] = []"
| "events s (c # cs) = hemit s c @ events (hstep s c) cs"

lemma after_append [simp]: "after s (a @ b) = after (after s a) b"
  by (induction a arbitrary: s) auto

lemma events_append [simp]: "events s (a @ b) = events s a @ events (after s a) b"
  by (induction a arbitrary: s) auto

text \<open>Text that holds no special characters goes on with what it stands in.\<close>

lemma plain_text_Cons:
  "plain_text (c # s) \<longleftrightarrow> c \<noteq> CHR ''<'' \<and> c \<noteq> CHR ''>'' \<and> c \<noteq> CHR 0x22 \<and> c \<noteq> CHR 0x27 \<and> plain_text s"
  by (auto simp: plain_text_def)

lemma after_plain:
  assumes "plain_text d"
  shows "after HText d = HText" "events HText d = []"
    "after (HArea v) d = HArea (v @ d)" "events (HArea v) d = []"
    "q \<in> quotes \<Longrightarrow> after (HVal t as n q v) d = HVal t as n q (v @ d)" "q \<in> quotes \<Longrightarrow> events (HVal t as n q v) d = []"
  using assms by (induction d arbitrary: v) (auto simp: plain_text_Cons quotes_def)

lemma after_nl [simp]: "after (HRaw 0) (nl n) = HRaw 0" "events (HRaw 0) (nl n) = []"
proof -
  have "after (HRaw 0) (replicate n (CHR 0x09)) = HRaw 0 \<and> events (HRaw 0) (replicate n (CHR 0x09)) = []" for n
    by (induction n) (auto simp: script_end_def)
  then show "after (HRaw 0) (nl n) = HRaw 0" "events (HRaw 0) (nl n) = []" by (simp_all add: nl_def script_end_def)
qed

section \<open>Safe places\<close>

definition url_attrs :: "string set" where
  "url_attrs = {''href'', ''action'', ''src'', ''hx-get'', ''hx-post'', ''hx-delete''}"

text \<open>A path of this host.\<close>

definition local_path :: "string \<Rightarrow> bool" where
  "local_path u \<longleftrightarrow> (\<exists>r. u = CHR ''/'' # r \<and> (\<forall>c r'. r = c # r' \<longrightarrow> c \<noteq> CHR ''/'' \<and> c \<noteq> CHR 0x5C))"

text \<open>May the text \<open>d\<close>, made from data, be written here?\<close>

fun data_ok :: "hstate \<Rightarrow> string \<Rightarrow> bool" where
  "data_ok HText d = True"
| "data_ok (HArea v) d = True"
| "data_ok (HVal t as n q v) d = (q \<in> quotes \<and> take 2 n \<noteq> ''on'' \<and> n \<noteq> ''style'' \<and> (n \<in> url_attrs \<longrightarrow> local_path (v @ d)))"
| "data_ok s d = False"

text \<open>Along the successful run of a program, from the state the text before it leaves.\<close>

primrec safe :: "hstate \<Rightarrow> tprog \<Rightarrow> bool" where
  "safe s (Ret e) = True"
| "safe s (Call c k) = ((case c of WriteText d \<Rightarrow> plain_text d \<and> data_ok s d | WriteCSS d \<Rightarrow> d = [] | _ \<Rightarrow> True)
     \<and> safe (after s (written c)) (k None))"

lemma safe_bind: "safe s (bind p f) \<longleftrightarrow> safe s p \<and> safe (after s (html_of p)) (f (result_of p))"
  by (induction p arbitrary: s) auto

section \<open>Structure\<close>

text \<open>The text of the literals alone, and what is left of a reading when all values are blanked.\<close>

primrec html_blank :: "tprog \<Rightarrow> string" where
  "html_blank (Ret e) = []"
| "html_blank (Call c k) = (case c of WriteText d \<Rightarrow> [] | _ \<Rightarrow> written c) @ html_blank (k None)"

definition blank :: "bindings \<Rightarrow> bindings" where
  "blank as = map (\<lambda>(n, v). (n, [])) as"

fun shape :: "event \<Rightarrow> event" where
  "shape (ETag t as) = ETag t (blank as)"
| "shape (EArea v) = EArea []"

fun blank_state :: "hstate \<Rightarrow> hstate" where
  "blank_state (HIn t as) = HIn t (blank as)"
| "blank_state (HName t as n) = HName t (blank as) n"
| "blank_state (HEq t as n) = HEq t (blank as) n"
| "blank_state (HVal t as n q v) = HVal t (blank as) n q []"
| "blank_state (HArea v) = HArea []"
| "blank_state s = s"

lemma blank_simps [simp]: "blank [] = []" "blank (as @ cs) = blank as @ blank cs" "blank ((n, v) # as) = (n, []) # blank as"
  by (simp_all add: blank_def)

lemma hstep_blank:
  assumes "blank_state s = blank_state s'"
  shows "blank_state (hstep s c) = blank_state (hstep s' c)" "map shape (hemit s c) = map shape (hemit s' c)"
  using assms by (cases s; cases s'; simp add: closed_tag_def)+

lemma read_blank:
  assumes "blank_state s = blank_state s'"
  shows "blank_state (after s t) = blank_state (after s' t) \<and> map shape (events s t) = map shape (events s' t)"
  using assms
proof (induction t arbitrary: s s')
  case (Cons c t)
  from Cons.IH [OF hstep_blank(1) [OF Cons.prems]] hstep_blank(2) [OF Cons.prems] show ?case by simp
qed simp

lemma data_blank:
  assumes "data_ok s d" "plain_text d"
  shows "blank_state (after s d) = blank_state s" "events s d = []"
  using assms by (cases s; simp add: after_plain)+

lemma safe_structure:
  assumes "safe s p" "blank_state s = blank_state s'"
  shows "blank_state (after s (html_of p)) = blank_state (after s' (html_blank p))
    \<and> map shape (events s (html_of p)) = map shape (events s' (html_blank p))"
  using assms
proof (induction p arbitrary: s s')
  case (Call c k)
  let ?t = "case c of WriteText d \<Rightarrow> [] | _ \<Rightarrow> written c"
  have step: "blank_state (after s (written c)) = blank_state (after s' ?t)
      \<and> map shape (events s (written c)) = map shape (events s' ?t)"
  proof (cases c)
    case (WriteText d)
    with Call.prems(1) have "data_ok s d" "plain_text d" by auto
    with data_blank [OF this] WriteText Call.prems(2) show ?thesis by simp
  qed (use read_blank [OF Call.prems(2)] Call.prems(2) in auto)
  from Call.prems(1) have "safe (after s (written c)) (k None)" by simp
  from Call.IH [OF _ this, of "after s' ?t"] step show ?case by auto
qed simp

section \<open>The combinators\<close>

named_theorems templ_simps

lemma html_of_simps [templ_simps]:
  "html_of (seq []) = []" "html_of (seq (p # ps)) = html_of p @ (if result_of p = None then html_of (seq ps) else [])"
  "html_of (lit n t) = t"
  by (simp_all add: lit_def ask_def html_of_bind split: option.splits)

lemma result_of_simps [templ_simps]:
  "result_of (seq []) = None" "result_of (seq (p # ps)) = (case result_of p of None \<Rightarrow> result_of (seq ps) | Some e \<Rightarrow> Some e)"
  "result_of (lit n t) = None"
  by (simp_all add: lit_def ask_def result_of_bind split: option.splits)

lemma safe_simps [templ_simps]:
  "safe s (seq []) = True"
  "safe s (seq (p # ps)) \<longleftrightarrow> safe s p \<and> (result_of p = None \<longrightarrow> safe (after s (html_of p)) (seq ps))"
  "safe s (lit n t) = True"
  by (simp_all add: lit_def ask_def safe_bind split: option.splits)

declare seq.simps [simp del]

lemma templ_lawsD:
  assumes "templ_laws lib"
  shows "tl_escape lib s = html_escape s" "tl_joinString lib s = (s, None)" "tl_joinURL lib s = (s, None)"
    "a \<noteq> b \<Longrightarrow> CHR '' '' \<notin> set (a @ b) \<Longrightarrow> a \<noteq> [] \<Longrightarrow> b \<noteq> [] \<Longrightarrow>
       tl_classes lib [a @ '' '' @ b] = a @ '' '' @ b \<and> tl_css lib [a @ '' '' @ b] = []"
  using assms unfolding templ_laws_def by blast+

lemma data_simps [templ_simps]:
  assumes "templ_laws lib"
  shows "html_of (str lib f l c v) = html_escape v" "result_of (str lib f l c v) = None"
    "safe s (str lib f l c v) = data_ok s (html_escape v)"
    "html_of (url lib f l c v) = html_escape v" "result_of (url lib f l c v) = None"
    "safe s (url lib f l c v) = data_ok s (html_escape v)"
  using assms by (simp_all add: str_def url_def write_joined_def ask_def templ_lawsD)

text \<open>A component inside another, and one on its own, write the same text.\<close>

lemma in_buffer_simps [templ_simps]:
  "html_of (in_buffer ctx p) = html_of p" "result_of (in_buffer ctx p) = result_of p" "safe s (in_buffer ctx p) = safe s p"
  by (simp_all add: in_buffer_def html_of_bind result_of_bind safe_bind)

definition children_of :: "render_ctx \<Rightarrow> tprog" where
  "children_of ctx = (case rc_children ctx of Some children \<Rightarrow> children | None \<Rightarrow> Ret None)"

lemma component_simps [templ_simps]:
  "html_of (GeneratedTemplate body ctx) = html_of (body (children_of ctx))"
  "result_of (GeneratedTemplate body ctx) = result_of (body (children_of ctx))"
  "safe s (GeneratedTemplate body ctx) = safe s (body (children_of ctx))"
  by (simp_all add: GeneratedTemplate_def children_of_def in_buffer_simps)

lemma children_of_simps [templ_simps]:
  "children_of \<lparr>rc_children = None, rc_buffered = b\<rparr> = Ret None"
  "children_of \<lparr>rc_children = Some p, rc_buffered = b\<rparr> = p"
  by (simp_all add: children_of_def)

lemma seq_map_simps:
  assumes "\<And>x. x \<in> set xs \<Longrightarrow> result_of (f x) = None"
  shows "html_of (seq (map f xs)) = concat (map (\<lambda>x. html_of (f x)) xs)" "result_of (seq (map f xs)) = None"
  using assms by (induction xs) (auto simp: templ_simps)

lemma after_concat:
  assumes "\<And>x. x \<in> set xs \<Longrightarrow> after s (f x) = s"
  shows "after s (concat (map f xs)) = s" "events s (concat (map f xs)) = concat (map (\<lambda>x. events s (f x)) xs)"
  using assms by (induction xs) auto

lemma seq_map_safe:
  assumes "\<And>x. x \<in> set xs \<Longrightarrow> result_of (f x) = None \<and> safe s (f x) \<and> after s (html_of (f x)) = s"
  shows "safe s (seq (map f xs))"
  using assms by (induction xs) (auto simp: templ_simps)

lemma css_simps [templ_simps]:
  "result_of (css lib cs) = None" "html_of (css lib cs) = tl_css lib cs" "safe s (css lib cs) \<longleftrightarrow> tl_css lib cs = []"
  by (simp_all add: css_def ask_def)

lemma if_simps [templ_simps]:
  "after s (if b then t else t') = (if b then after s t else after s t')"
  "events s (if b then t else t') = (if b then events s t else events s t')"
  "html_of (if b then p else q) = (if b then html_of p else html_of q)"
  "result_of (if b then p else q) = (if b then result_of p else result_of q)"
  "safe s (if b then p else q) = (if b then safe s p else safe s q)"
  by simp_all

lemmas read_simps = quotes_def closed_tag_def url_attrs_def script_end_def local_path_def escape_char_def

text \<open>
  Where a program's text ends, if it succeeds and is safe. A component is \<open>clean\<close> if it goes from text to text.
\<close>

definition go :: "hstate \<Rightarrow> tprog \<Rightarrow> hstate option" where
  "go s p = (if result_of p = None \<and> safe s p then Some (after s (html_of p)) else None)"

lemma go_simps:
  "go s (seq []) = Some s"
  "go s (seq (p # ps)) = (case go s p of None \<Rightarrow> None | Some s' \<Rightarrow> go s' (seq ps))"
  "go s (lit n t) = Some (after s t)"
  "go s (if b then p else q) = (if b then go s p else go s q)"
  "go s (css lib cs) = (if tl_css lib cs = [] then Some s else None)"
  "go s (GeneratedTemplate body ctx) = go s (body (children_of ctx))"
  by (auto simp: go_def templ_simps split: option.splits)

lemma go_data:
  assumes "templ_laws lib"
  shows "go s (str lib f l c v) = (if data_ok s (html_escape v) then Some (after s (html_escape v)) else None)"
    "go s (url lib f l c v) = (if data_ok s (html_escape v) then Some (after s (html_escape v)) else None)"
  using assms by (simp_all add: go_def templ_simps)

abbreviation clean :: "tprog \<Rightarrow> bool" where
  "clean p \<equiv> go HText p = Some HText"

lemma cleanD: "clean p \<Longrightarrow> result_of p = None \<and> safe HText p \<and> after HText (html_of p) = HText"
  by (simp add: go_def split: if_splits)

lemma go_map:
  assumes "\<And>x. x \<in> set xs \<Longrightarrow> go s (f x) = Some s"
  shows "go s (seq (map f xs)) = Some s"
  using assms by (induction xs) (auto simp: go_simps)

end
