(* ===== verification/Templates.thy ===== *)
theory Templates
  imports Proxy OperatorSafety
begin

text \<open>
  What the pages of an instance offer: \<^verbatim>\<open>web/templates/helpers.go\<close>, and the conditions of \<^verbatim>\<open>instance_card.templ\<close>, of
  which the build makes \<^verbatim>\<open>instance_card_templ.go\<close>. A template is modelled by what it decides: the badge (its class,
  what it polls, its text) and the links, in order; the HTML around them is in \<open>Pages\<close>.
\<close>

definition statusClass :: "string \<Rightarrow> string" where
  "statusClass p =
     (if p = ''Running'' then ''running''
      else if p \<in> {''Pending'', ''Creating'', ''Starting''} then ''pending''
      else if p = ''Failed'' then ''failed''
      else if p = ''Terminating'' then ''terminating''
      else ''unknown'')"

definition isTerminalPhase :: "string \<Rightarrow> bool" where
  "isTerminalPhase p \<longleftrightarrow> p = ''Running'' \<or> p = ''Failed''"

definition displayPhase :: "string \<Rightarrow> string" where
  "displayPhase p = (if p = [] then ''Pending'' else p)"

record badge =
  bg_id :: string
  bg_class :: string
  bg_poll :: "string option"
  bg_text :: string

definition StatusBadge :: "claw_instance \<Rightarrow> badge" where
  "StatusBadge i = \<lparr>
     bg_id = ''status-'' @ instance_name i,
     bg_class = ''badge badge-'' @ statusClass (phase i),
     bg_poll = (if \<not> isTerminalPhase (phase i) then Some (''/ui/instances/'' @ instance_name i @ ''/status'') else None),
     bg_text = displayPhase (phase i)\<rparr>"

text \<open>The links of \<^verbatim>\<open>instanceLinksOOB\<close> and, in both branches, of \<^verbatim>\<open>instanceLinksDetailOOB\<close>.\<close>

definition instanceLinksOOB :: "bool \<Rightarrow> bool \<Rightarrow> string list" where
  "instanceLinksOOB tuiEnabled shellEnabled =
     [''/proxy/web/''] @ (if tuiEnabled then [''/proxy/tui/''] else []) @ (if shellEnabled then [''/proxy/shell/''] else [])"

definition instanceLinksDetailOOB :: "bool \<Rightarrow> bool \<Rightarrow> string list" where
  "instanceLinksDetailOOB tuiEnabled shellEnabled =
     (if tuiEnabled \<or> shellEnabled
      then [''/proxy/web/''] @ (if tuiEnabled then [''/proxy/tui/''] else []) @ (if shellEnabled then [''/proxy/shell/''] else [])
      else [''/proxy/web/''])"

definition InstanceLinks :: "claw_instance \<Rightarrow> bool \<Rightarrow> bool \<Rightarrow> bool \<Rightarrow> string list" where
  "InstanceLinks i tuiEnabled shellEnabled isOwner =
     (if phase i = ''Running'' \<and> isOwner then instanceLinksOOB tuiEnabled shellEnabled else [])"

definition InstanceLinksDetail :: "claw_instance \<Rightarrow> bool \<Rightarrow> bool \<Rightarrow> bool \<Rightarrow> string list" where
  "InstanceLinksDetail i tuiEnabled shellEnabled isOwner =
     (if phase i = ''Running'' \<and> isOwner then instanceLinksDetailOOB tuiEnabled shellEnabled else [])"

definition StatusPoll :: "claw_instance \<Rightarrow> bool \<Rightarrow> bool \<Rightarrow> bool \<Rightarrow> bool \<Rightarrow> badge \<times> string list" where
  "StatusPoll i tuiEnabled shellEnabled isOwner detail =
     (StatusBadge i,
      if phase i = ''Running'' \<and> isOwner
      then (if detail then instanceLinksDetailOOB tuiEnabled shellEnabled else instanceLinksOOB tuiEnabled shellEnabled)
      else [])"

text \<open>For every phase the operator records, the badge has a class of its own and shows the phase; it keeps
  polling the instance's own status until the instance runs or has failed. From both of these the operator may
  still move on, which an open page no longer learns.\<close>

theorem badge_follows_lifecycle:
  assumes "lifecycle_step p (phase i)"
  shows "statusClass (phase i) \<noteq> ''unknown'' \<and> bg_text (StatusBadge i) = phase i
    \<and> bg_poll (StatusBadge i) =
        (if phase i \<in> {PhaseRunning, PhaseFailed} then None else Some (''/ui/instances/'' @ instance_name i @ ''/status''))
    \<and> lifecycle_step PhaseFailed PhaseRunning \<and> lifecycle_step PhaseRunning PhaseStarting"
  using assms
  by (auto simp: lifecycle_step_iff StatusBadge_def statusClass_def displayPhase_def isTerminalPhase_def PhasePending_def
      PhaseCreating_def PhaseStarting_def PhaseRunning_def PhaseFailed_def PhaseTerminating_def)

lemma badge_follows_lifecycle_witness:
  "bg_poll (StatusBadge (set_phase PhaseFailed sample_instance)) = None"
  using badge_follows_lifecycle [of PhaseRunning "set_phase PhaseFailed sample_instance"]
  by (simp add: lifecycle_step_iff PhaseRunning_def PhaseFailed_def PhasePending_def)

text \<open>The owner of a running instance, and nobody else, is offered links, the same on the card, on the detail page
  and when a poll finds the instance running; each link is a path the proxy takes to the port it is named
  after, and to the root of what listens there.\<close>

theorem links_reach_ports:
  "map (pr_port \<circ> classifyProxyPath) (InstanceLinks i tui shell own)
     = (if phase i = PhaseRunning \<and> own
        then [portWeb] @ (if tui then [portTUI] else []) @ (if shell then [portShell] else []) else [])
   \<and> map (\<lambda>l. stripRoutePrefix l (pr_prefix (classifyProxyPath l))) (InstanceLinks i tui shell own)
     = replicate (length (InstanceLinks i tui shell own)) ''/''
   \<and> InstanceLinksDetail i tui shell own = InstanceLinks i tui shell own
   \<and> snd (StatusPoll i tui shell own detail) = InstanceLinks i tui shell own"
  by (simp add: InstanceLinks_def InstanceLinksDetail_def StatusPoll_def instanceLinksOOB_def instanceLinksDetailOOB_def
      classifyProxyPath_def stripRoutePrefix_def hasPrefix_def proxy_consts PhaseRunning_def)

end
