(* ===== verification/Pages.thy ===== *)
theory Pages
  imports Html Templates
begin

text \<open>
  The components of \<^verbatim>\<open>web/templates\<close> as the code generated from them writes them: every literal with its
  number, every value with the place of the template it comes from, in order; and the pages the
  handlers render (\<^verbatim>\<open>render\<close> in \<^verbatim>\<open>internal/handler/pages.go\<close>).
\<close>

abbreviation login_templ :: string where "login_templ \<equiv> ''web/templates/login.templ''"
abbreviation layout_templ :: string where "layout_templ \<equiv> ''web/templates/layout.templ''"
abbreviation instance_card_templ :: string where "instance_card_templ \<equiv> ''web/templates/instance_card.templ''"
abbreviation dashboard_templ :: string where "dashboard_templ \<equiv> ''web/templates/dashboard.templ''"
abbreviation instance_detail_templ :: string where "instance_detail_templ \<equiv> ''web/templates/instance_detail.templ''"
abbreviation instance_edit_config_templ :: string where
  "instance_edit_config_templ \<equiv> ''web/templates/instance_edit_config.templ''"
abbreviation admin_users_templ :: string where "admin_users_templ \<equiv> ''web/templates/admin_users.templ''"
abbreviation admin_defaults_templ :: string where "admin_defaults_templ \<equiv> ''web/templates/admin_defaults.templ''"

definition conditionStatus :: "string \<Rightarrow> string" where
  "conditionStatus s = s"

section \<open>\<^verbatim>\<open>login_templ.go\<close>\<close>

definition Login_html :: "templ_lib \<Rightarrow> component" where
  "Login_html lib = GeneratedTemplate (\<lambda>_. seq [
     lit 1 (''<!doctype html><html lang=\"en\" data-theme=\"light\"><head><meta charset=\"UTF-8\">''
        @ ''<meta name=\"viewport\" content=\"width=device-width, initial-scale=1\">''
        @ ''<title>Login - Clawbake</title><link rel=\"stylesheet\" ''
        @ ''href=\"https://cdn.jsdelivr.net/npm/@picocss/pico@2/css/pico.min.css\">''
        @ ''<link rel=\"stylesheet\" href=\"/static/app.css\"></head><body>''
        @ ''<main class=\"container login-container\"><article><header><h1>Clawbake</h1>''
        @ ''<p>Manage your openclaw instances</p></header>''
        @ ''<a href=\"/auth/login\" role=\"button\">Sign in with Google</a></article></main></body></html>'')])"

definition DevLogin_html :: "templ_lib \<Rightarrow> component" where
  "DevLogin_html lib = GeneratedTemplate (\<lambda>_. seq [
     lit 2 (''<!doctype html><html lang=\"en\" data-theme=\"light\"><head><meta charset=\"UTF-8\">''
        @ ''<meta name=\"viewport\" content=\"width=device-width, initial-scale=1\">''
        @ ''<title>Login - Clawbake (Dev)</title><link rel=\"stylesheet\" ''
        @ ''href=\"https://cdn.jsdelivr.net/npm/@picocss/pico@2/css/pico.min.css\">''
        @ ''<link rel=\"stylesheet\" href=\"/static/app.css\"></head><body>''
        @ ''<main class=\"container login-container\"><article><header><h1>Clawbake</h1>''
        @ ''<p>Manage your openclaw instances</p><small><mark>Dev Mode '' @ [CHR 0xE2, CHR 0x80, CHR 0x94] @ '' OIDC not configured</mark></small></header><div class=\"grid\">''
        @ ''<a href=\"/auth/dev-login?role=admin\" role=\"button\">Dev Admin</a> <a ''
        @ ''href=\"/auth/dev-login?role=user\" role=\"button\" class=\"secondary\">Dev User</a></div></article>''
        @ ''</main></body></html>'')])"

section \<open>\<^verbatim>\<open>layout_templ.go\<close>\<close>

definition Layout_html :: "templ_lib \<Rightarrow> string \<Rightarrow> bool \<Rightarrow> component" where
  "Layout_html lib title isAdmin = GeneratedTemplate (\<lambda>children. seq [
     lit 1 (''<!doctype html><html lang=\"en\" data-theme=\"light\"><head><meta charset=\"UTF-8\">''
        @ ''<meta name=\"viewport\" content=\"width=device-width, initial-scale=1\"><title>''),
     str lib layout_templ 12 17 title,
     lit 2 ('' - Clawbake</title><link rel=\"stylesheet\" ''
        @ ''href=\"https://cdn.jsdelivr.net/npm/@picocss/pico@2/css/pico.min.css\">''
        @ ''<link rel=\"stylesheet\" href=\"/static/app.css\"><script src=\"https://unpkg.com/htmx.org@2.0.4\">''
        @ ''</script></head><body><nav class=\"container\"><ul><li><strong>''
        @ ''<a href=\"/\" class=\"contrast\">Clawbake</a></strong> <small class=\"muted\">(''),
     str lib layout_templ 20 102 (tl_version lib),
     lit 3 '')</small></li></ul><ul><li><a href=\"/\">Dashboard</a></li>'',
     if_then isAdmin [
       lit 4 ''<li><a href=\"/ui/admin/users\">Users</a></li><li><a href=\"/ui/admin/defaults\">Defaults</a></li>''],
     lit 5 ''<li><a href=\"/auth/logout\">Logout</a></li></ul></nav><main class=\"container\">'',
     children,
     lit 6 (''</main><script>''
        @ nl 4 @ ''document.body.addEventListener('htmx:responseError', function(e) {''
        @ nl 5 @ ''if (e.detail.xhr.status === 401) window.location = '/';''
        @ nl 4 @ ''});''
        @ nl 4 @ ''document.body.addEventListener('instanceCreated', function() {''
        @ nl 5 @ ''document.getElementById('create-form').innerHTML = '' @ [CHR 0x27, CHR 0x27] @ '';''
        @ nl 5 @ ''var empty = document.getElementById('empty-message');''
        @ nl 5 @ ''if (empty) empty.remove();''
        @ nl 4 @ ''});''
        @ nl 3 @ ''</script></body></html>'')])"

section \<open>\<^verbatim>\<open>instance_card_templ.go\<close>\<close>

definition StatusBadge_html :: "templ_lib \<Rightarrow> claw_instance \<Rightarrow> component" where
  "StatusBadge_html lib i = GeneratedTemplate (\<lambda>_. seq [
     css lib [''badge badge-'' @ statusClass (phase i)],
     lit 3 ''<span id=\"'',
     str lib instance_card_templ 14 32 (''status-'' @ instance_name i),
     lit 4 ''\" class=\"'',
     str lib instance_card_templ 1 0 (tl_classes lib [''badge badge-'' @ statusClass (phase i)]),
     lit 5 ''\"'',
     if_then (\<not> isTerminalPhase (phase i)) [
       lit 6 '' hx-get=\"'',
       str lib instance_card_templ 17 56 (''/ui/instances/'' @ instance_name i @ ''/status''),
       lit 7 ''\" hx-swap=\"outerHTML\" hx-trigger=\"every 5s\"''],
     lit 8 ''>'',
     str lib instance_card_templ 21 39 (displayPhase (phase i)),
     lit 9 ''</span>''])"

definition InstanceLinks_html :: "templ_lib \<Rightarrow> claw_instance \<Rightarrow> bool \<Rightarrow> bool \<Rightarrow> bool \<Rightarrow> component" where
  "InstanceLinks_html lib i tuiEnabled shellEnabled isOwner = GeneratedTemplate (\<lambda>_. seq [
     lit 10 ''<div id=\"'',
     str lib instance_card_templ 25 35 (''links-'' @ instance_name i),
     lit 11 ''\">'',
     if_then (phase i = ''Running'' \<and> isOwner) [
       lit 12 ''<p><a href=\"/proxy/web/\" target=\"_blank\">Web UI</a> '',
       if_then tuiEnabled [
          lit 13 ''&nbsp;|&nbsp; <a href=\"/proxy/tui/\" target=\"_blank\">Text UI</a> ''],
       if_then shellEnabled [
          lit 14 ''&nbsp;|&nbsp; <a href=\"/proxy/shell/\" target=\"_blank\">Shell</a>''],
       lit 15 ''</p>''],
     lit 16 ''</div>''])"

definition InstanceCard_html :: "templ_lib \<Rightarrow> claw_instance \<Rightarrow> (string \<rightharpoonup> string) \<Rightarrow> bool \<Rightarrow> bool \<Rightarrow> string \<Rightarrow> component" where
  "InstanceCard_html lib i userNames tuiEnabled shellEnabled currentUserID = GeneratedTemplate (\<lambda>_. seq [
     lit 38 ''<article id=\"'',
     str lib instance_card_templ 128 42 (''instance-'' @ instance_name i),
     lit 39 ''\"><header><div class=\"instance-header\"><h3><a href=\"'',
     url lib instance_card_templ 131 65 (''/ui/instances/'' @ instance_name i),
     lit 40 ''\">Instance</a></h3>'',
     nested (StatusBadge_html lib i),
     lit 41 ''</div></header>'',
     (case userNames (sp_userId (ci_spec i)) of None \<Rightarrow> seq [] | Some name \<Rightarrow> seq [
       lit 42 ''<p><strong>Owner:</strong> '',
       str lib instance_card_templ 136 36 name,
       lit 43 ''</p>'']),
     lit 44 ''<p><strong>Image:</strong> '',
     str lib instance_card_templ 138 50 (sp_image (ci_spec i)),
     lit 45 ''</p>'',
     nested (InstanceLinks_html lib i tuiEnabled shellEnabled (sp_userId (ci_spec i) = currentUserID)),
     lit 46 ''<footer><a href=\"'',
     url lib instance_card_templ 141 60 (''/ui/instances/'' @ instance_name i),
     lit 47 ''\" role=\"button\" class=\"outline\">Details</a> <button class=\"secondary outline\" hx-delete=\"'',
     str lib instance_card_templ 144 48 (''/ui/instances/'' @ instance_name i),
     lit 48 ''\" hx-confirm=\"Delete this instance?\" hx-target=\"'',
     str lib instance_card_templ 146 44 (''#instance-'' @ instance_name i),
     lit 49 ''\" hx-swap=\"outerHTML\">Delete</button></footer></article>''])"

definition InstanceCreated_html :: "templ_lib \<Rightarrow> claw_instance \<Rightarrow> bool \<Rightarrow> bool \<Rightarrow> string \<Rightarrow> component" where
  "InstanceCreated_html lib i tuiEnabled shellEnabled currentUserID = GeneratedTemplate (\<lambda>_. seq [
     lit 1 ''<div id=\"instance-list\" hx-swap-oob=\"innerHTML\">'',
     nested (InstanceCard_html lib i Map.empty tuiEnabled shellEnabled currentUserID),
     lit 2 ''</div><span id=\"new-instance-btn\" hx-swap-oob=\"innerHTML\"></span>''])"

definition InstanceLinksDetail_html :: "templ_lib \<Rightarrow> claw_instance \<Rightarrow> bool \<Rightarrow> bool \<Rightarrow> bool \<Rightarrow> component" where
  "InstanceLinksDetail_html lib i tuiEnabled shellEnabled isOwner = GeneratedTemplate (\<lambda>_. seq [
     lit 17 ''<div id=\"'',
     str lib instance_card_templ 43 35 (''links-'' @ instance_name i),
     lit 18 ''\">'',
     if_then (phase i = ''Running'' \<and> isOwner) [
       if tuiEnabled \<or> shellEnabled then seq [
          lit 19 ''<div class=\"grid\"><a href=\"/proxy/web/\" target=\"_blank\" role=\"button\">Open Web UI</a> '',
          if_then tuiEnabled [
             lit 20 ''<a href=\"/proxy/tui/\" target=\"_blank\" role=\"button\" class=\"secondary\">Open Text UI</a> ''],
          if_then shellEnabled [
             lit 21 ''<a href=\"/proxy/shell/\" target=\"_blank\" role=\"button\" class=\"secondary\">Open Shell</a>''],
          lit 22 ''</div>'']
       else seq [
          lit 23 ''<p><a href=\"/proxy/web/\" target=\"_blank\" role=\"button\">Open Web UI</a></p>'']],
     lit 24 ''</div>''])"

definition instanceLinksDetailOOB_html :: "templ_lib \<Rightarrow> claw_instance \<Rightarrow> bool \<Rightarrow> bool \<Rightarrow> component" where
  "instanceLinksDetailOOB_html lib i tuiEnabled shellEnabled = GeneratedTemplate (\<lambda>_. seq [
     lit 30 ''<div id=\"'',
     str lib instance_card_templ 100 35 (''links-'' @ instance_name i),
     lit 31 ''\" hx-swap-oob=\"true\">'',
     if tuiEnabled \<or> shellEnabled then seq [
       lit 32 ''<div class=\"grid\"><a href=\"/proxy/web/\" target=\"_blank\" role=\"button\">Open Web UI</a> '',
       if_then tuiEnabled [
          lit 33 ''<a href=\"/proxy/tui/\" target=\"_blank\" role=\"button\" class=\"secondary\">Open Text UI</a> ''],
       if_then shellEnabled [
          lit 34 ''<a href=\"/proxy/shell/\" target=\"_blank\" role=\"button\" class=\"secondary\">Open Shell</a>''],
       lit 35 ''</div>'']
    else seq [
       lit 36 ''<p><a href=\"/proxy/web/\" target=\"_blank\" role=\"button\">Open Web UI</a></p>''],
     lit 37 ''</div>''])"

definition instanceLinksOOB_html :: "templ_lib \<Rightarrow> claw_instance \<Rightarrow> bool \<Rightarrow> bool \<Rightarrow> component" where
  "instanceLinksOOB_html lib i tuiEnabled shellEnabled = GeneratedTemplate (\<lambda>_. seq [
     lit 25 ''<div id=\"'',
     str lib instance_card_templ 84 35 (''links-'' @ instance_name i),
     lit 26 ''\" hx-swap-oob=\"true\"><p><a href=\"/proxy/web/\" target=\"_blank\">Web UI</a> '',
     if_then tuiEnabled [
       lit 27 ''&nbsp;|&nbsp; <a href=\"/proxy/tui/\" target=\"_blank\">Text UI</a> ''],
     if_then shellEnabled [
       lit 28 ''&nbsp;|&nbsp; <a href=\"/proxy/shell/\" target=\"_blank\">Shell</a>''],
     lit 29 ''</p></div>''])"

definition StatusPollResponse_html :: "templ_lib \<Rightarrow> claw_instance \<Rightarrow> bool \<Rightarrow> bool \<Rightarrow> bool \<Rightarrow> bool \<Rightarrow> component" where
  "StatusPollResponse_html lib i tuiEnabled shellEnabled isOwner detail = GeneratedTemplate (\<lambda>_. seq [
     nested (StatusBadge_html lib i),
     if_then (phase i = ''Running'' \<and> isOwner) [
       if detail then seq [
          nested (instanceLinksDetailOOB_html lib i tuiEnabled shellEnabled)]
       else seq [
          nested (instanceLinksOOB_html lib i tuiEnabled shellEnabled)]]])"

section \<open>\<^verbatim>\<open>dashboard_templ.go\<close>\<close>

definition Dashboard_body :: "templ_lib \<Rightarrow> claw_instance list \<Rightarrow> bool \<Rightarrow> bool \<Rightarrow> (string \<rightharpoonup> string) \<Rightarrow> string list \<Rightarrow> bool \<Rightarrow> bool \<Rightarrow> string \<Rightarrow> tprog" where
  "Dashboard_body lib instances isAdmin hasInstance userNames placeholders tuiEnabled shellEnabled currentUserID = seq [
     lit 1 ''<div class=\"dashboard-header\"><h1>Instances</h1><span id=\"new-instance-btn\">'',
     if_then (\<not> hasInstance) [
       lit 2 (''<button onclick=\"document.getElementById('create-dialog').showModal()\">Create Instance</button> ''
           @ ''<dialog id=\"create-dialog\"><article><header>''
           @ ''<button aria-label=\"Close\" rel=\"prev\" onclick=\"document.getElementById('create-dialog').close()\">''
           @ ''</button><h3>Create Instance</h3></header>''
           @ ''<form method=\"POST\" action=\"/ui/instances\" id=\"create-instance-form\" onsubmit=\"return ''
           @ ''validateCreateForm()\">''),
       if_then (length placeholders > 0) [
          lit 3 ''<fieldset><legend>Required Configuration</legend> '',
          seq (map (\<lambda>p. seq [
             lit 4 ''<label>'',
             str lib dashboard_templ 26 15 p,
             lit 5 '' <input type=\"text\" name=\"'',
             str lib dashboard_templ 27 48 (''var_'' @ p),
             lit 6 ''\" required placeholder=\"'',
             str lib dashboard_templ 27 96 (''Enter value for '' @ p),
             lit 7 ''\"></label>'']) placeholders),
          lit 8 ''</fieldset>''],
       lit 9 (''<label>Gateway Config Override (optional) <textarea name=\"gatewayConfigOverride\" ''
           @ ''id=\"gatewayConfigOverride\" rows=\"10\" style=\"font-family: monospace; font-size: 0.85rem;\" ''
           @ ''placeholder='Optional JSON merged over admin defaults, ''
           @ ''e.g.&#10;{\"gateway\":{\"providers\":{\"openai\":{\"apiKey\":\"sk-...\"}}}}'>''
           @ ''</textarea> <small id=\"overrideError\" style=\"color: var(--pico-del-color); display: none;\">''
           @ ''</small></label><script>''
           @ nl 9 @ ''function validateCreateForm() {''
           @ nl 10 @ ''var form = document.getElementById('create-instance-form');''
           @ nl 10 @ ''// Check required fields (placeholder inputs)''
           @ nl 10 @ ''var inputs = form.querySelectorAll('input[required]');''
           @ nl 10 @ ''for (var i = 0; i < inputs.length; i++) {''
           @ nl 11 @ ''if (!inputs[i].value.trim()) {''
           @ nl 12 @ ''inputs[i].setAttribute('aria-invalid', 'true');''
           @ nl 12 @ ''inputs[i].focus();''
           @ nl 12 @ ''return false;''
           @ nl 11 @ ''}''
           @ nl 11 @ ''inputs[i].removeAttribute('aria-invalid');''
           @ nl 10 @ ''}''
           @ nl 10 @ ''// Check JSON override''
           @ nl 10 @ ''var el = document.getElementById('gatewayConfigOverride');''
           @ nl 10 @ ''var errEl = document.getElementById('overrideError');''
           @ nl 10 @ ''var val = el.value.trim();''
           @ nl 10 @ ''if (val === '' @ [CHR 0x27, CHR 0x27] @ '') {''
           @ nl 11 @ ''errEl.style.display = 'none';''
           @ nl 11 @ ''return true;''
           @ nl 10 @ ''}''
           @ nl 10 @ ''try {''
           @ nl 11 @ ''JSON.parse(val);''
           @ nl 11 @ ''errEl.style.display = 'none';''
           @ nl 11 @ ''return true;''
           @ nl 10 @ ''} catch (e) {''
           @ nl 11 @ ''errEl.textContent = 'Invalid JSON: ' + e.message;''
           @ nl 11 @ ''errEl.style.display = 'block';''
           @ nl 11 @ ''el.focus();''
           @ nl 11 @ ''return false;''
           @ nl 10 @ ''}''
           @ nl 9 @ ''}''
           @ nl 9 @ ''// Also validate on htmx before-request''
           @ nl 9 @ ''document.addEventListener('htmx:configRequest', function(evt) {''
           @ nl 10 @ ''if (evt.detail.elt.closest('#create-instance-form')) {''
           @ nl 11 @ ''if (!validateCreateForm()) {''
           @ nl 12 @ ''evt.preventDefault();''
           @ nl 11 @ ''}''
           @ nl 10 @ ''}''
           @ nl 9 @ ''});''
           @ nl 8 @ ''</script><footer><button type=\"button\" class=\"secondary\" ''
           @ ''onclick=\"document.getElementById('create-dialog').close()\">Cancel</button> <button type=\"submit\" ''
           @ ''hx-post=\"/ui/instances\" hx-target=\"#instance-list\" hx-swap=\"innerHTML\" ''
           @ ''hx-include=\"#create-instance-form\">Create</button></footer></form></article></dialog>'')],
     lit 10 ''</span></div><div id=\"instance-list\">'',
     seq (map (\<lambda>inst. seq [
       nested (InstanceCard_html lib inst userNames tuiEnabled shellEnabled currentUserID)]) instances),
     if_then (length instances = 0) [
       lit 11 ''<p id=\"empty-message\">No instances yet. Create your first one!</p>''],
     lit 12 ''</div>'']"

definition Dashboard_html :: "templ_lib \<Rightarrow> claw_instance list \<Rightarrow> bool \<Rightarrow> bool \<Rightarrow> (string \<rightharpoonup> string) \<Rightarrow> string list \<Rightarrow> bool \<Rightarrow> bool \<Rightarrow> string \<Rightarrow> component" where
  "Dashboard_html lib instances isAdmin hasInstance userNames placeholders tuiEnabled shellEnabled currentUserID = GeneratedTemplate (\<lambda>_. seq [
     with_children (Layout_html lib ''Dashboard'' isAdmin) (Dashboard_body lib instances isAdmin hasInstance userNames placeholders tuiEnabled shellEnabled currentUserID)])"

section \<open>\<^verbatim>\<open>instance_detail_templ.go\<close>\<close>

definition conditionRow_html :: "templ_lib \<Rightarrow> condition \<Rightarrow> component" where
  "conditionRow_html lib cond = GeneratedTemplate (\<lambda>_. seq [
     lit 1 ''<tr><td>'',
     str lib instance_detail_templ 10 17 (cn_type cond),
     lit 2 ''</td><td>'',
     str lib instance_detail_templ 11 36 (conditionStatus (cn_status cond)),
     lit 3 ''</td><td>'',
     str lib instance_detail_templ 12 19 (cn_reason cond),
     lit 4 ''</td><td>'',
     str lib instance_detail_templ 13 20 (cn_message cond),
     lit 5 ''</td></tr>''])"

definition InstanceDetail_conditions :: "templ_lib \<Rightarrow> claw_instance \<Rightarrow> tprog" where
  "InstanceDetail_conditions lib i =
     if_then (length (st_conditions (ci_status i)) > 0) [
       lit 18 (''<h3>Conditions</h3><table><thead><tr><th>Type</th><th>Status</th><th>Reason</th><th>Message</th>''
           @ ''</tr></thead> <tbody>''),
       seq (map (\<lambda>cond. seq [
          nested (conditionRow_html lib cond)]) (st_conditions (ci_status i))),
       lit 19 ''</tbody></table>'']"

definition InstanceDetail_footer :: "templ_lib \<Rightarrow> claw_instance \<Rightarrow> tprog" where
  "InstanceDetail_footer lib i = seq [
     lit 20 ''<footer><a href=\"/\" role=\"button\" class=\"secondary outline\">Back</a> <a href=\"'',
     url lib instance_detail_templ 86 78 (''/ui/instances/'' @ instance_name i @ ''/edit-config''),
     lit 21 ''\" role=\"button\" class=\"outline\">Edit Config</a> <button class=\"contrast outline\" hx-delete=\"'',
     str lib instance_detail_templ 89 68 (''/ui/instances/'' @ instance_name i @ ''?redirect=true''),
     lit 22 ''\" hx-confirm=\"Delete this instance?\" hx-swap=\"none\">Delete</button></footer></article>'']"

definition InstanceDetail_body :: "templ_lib \<Rightarrow> claw_instance \<Rightarrow> bool \<Rightarrow> bool \<Rightarrow> bool \<Rightarrow> bool \<Rightarrow> tprog" where
  "InstanceDetail_body lib i isAdmin tuiEnabled shellEnabled isOwner = seq [
     lit 6 ''<article><header><div class=\"instance-header\"><h1>Instance</h1>'',
     nested (StatusBadge_html lib i),
     lit 7 ''</div></header><h3>Specification</h3><table><tbody><tr><td><strong>Name</strong></td><td>'',
     str lib instance_detail_templ 31 25 (instance_name i),
     lit 8 ''</td></tr><tr><td><strong>Image</strong></td><td>'',
     str lib instance_detail_templ 35 31 (sp_image (ci_spec i)),
     lit 9 ''</td></tr><tr><td><strong>CPU Request</strong></td><td>'',
     str lib instance_detail_templ 39 48 (rl_cpu (cr_requests (sp_resources (ci_spec i)))),
     lit 10 ''</td></tr><tr><td><strong>Memory Request</strong></td><td>'',
     str lib instance_detail_templ 43 51 (rl_memory (cr_requests (sp_resources (ci_spec i)))),
     lit 11 ''</td></tr><tr><td><strong>CPU Limit</strong></td><td>'',
     str lib instance_detail_templ 47 46 (rl_cpu (cr_limits (sp_resources (ci_spec i)))),
     lit 12 ''</td></tr><tr><td><strong>Memory Limit</strong></td><td>'',
     str lib instance_detail_templ 51 49 (rl_memory (cr_limits (sp_resources (ci_spec i)))),
     lit 13 ''</td></tr><tr><td><strong>Storage</strong></td><td>'',
     str lib instance_detail_templ 55 38 (cs_size (sp_storage (ci_spec i))),
     lit 14 ''</td></tr>'',
     if_then (sp_gatewayToken (ci_spec i) \<noteq> []) [
       lit 15 ''<tr><td><strong>Gateway Token</strong></td><td><code>'',
       str lib instance_detail_templ 60 45 (sp_gatewayToken (ci_spec i)),
       lit 16 ''</code></td></tr>''],
     lit 17 ''</tbody></table>'',
     nested (InstanceLinksDetail_html lib i tuiEnabled shellEnabled isOwner),
     InstanceDetail_conditions lib i,
     InstanceDetail_footer lib i]"

lemmas InstanceDetail_parts = InstanceDetail_body_def InstanceDetail_conditions_def InstanceDetail_footer_def

definition InstanceDetail_html :: "templ_lib \<Rightarrow> claw_instance \<Rightarrow> bool \<Rightarrow> bool \<Rightarrow> bool \<Rightarrow> bool \<Rightarrow> component" where
  "InstanceDetail_html lib i isAdmin tuiEnabled shellEnabled isOwner = GeneratedTemplate (\<lambda>_. seq [
     with_children (Layout_html lib ''Instance'' isAdmin) (InstanceDetail_body lib i isAdmin tuiEnabled shellEnabled isOwner)])"

section \<open>\<^verbatim>\<open>instance_edit_config_templ.go\<close>\<close>

definition InstanceEditConfig_body :: "templ_lib \<Rightarrow> claw_instance \<Rightarrow> string \<Rightarrow> bool \<Rightarrow> bool \<Rightarrow> tprog" where
  "InstanceEditConfig_body lib i configJSON fromPod isAdmin = seq [
     lit 1 ''<article><header><h1>Edit Gateway Config</h1><p>Instance: <strong>'',
     str lib instance_edit_config_templ 10 40 (instance_name i),
     lit 2 ''</strong></p></header>'',
     if_then (\<not> fromPod) [
       lit 3 (''<div role=\"alert\" style=\"padding: 0.75rem 1rem; background: var(--pico-del-color); color: ''
           @ ''var(--pico-background-color); border-radius: var(--pico-border-radius); margin-bottom: ''
           @ ''1rem;\">Could not read the live config from the running pod. Showing the last config from the ''
           @ ''instance spec instead. Any edits made through openclaw since creation will not be reflected.</div>'')],
     lit 4 ''<form method=\"POST\" action=\"'',
     url lib instance_edit_config_templ 18 96 (''/ui/instances/'' @ instance_name i @ ''/edit-config''),
     lit 5 (''\" onsubmit=\"return validateConfig()\"><label>Gateway Config (openclaw.json) <textarea ''
        @ ''name=\"gatewayConfig\" rows=\"20\" style=\"font-family: monospace; font-size: 0.85rem;\" ''
        @ ''id=\"gatewayConfig\">''),
     str lib instance_edit_config_templ 21 129 configJSON,
     lit 6 (''</textarea> <small id=\"configError\" style=\"color: var(--pico-del-color); display: none;\"></small>''
        @ ''</label><div class=\"grid\"><button type=\"button\" class=\"secondary outline\" ''
        @ ''onclick=\"formatConfig()\">Format JSON</button></div><script>''
        @ nl 5 @ ''function validateConfig() {''
        @ nl 6 @ ''var el = document.getElementById('gatewayConfig');''
        @ nl 6 @ ''var errEl = document.getElementById('configError');''
        @ nl 6 @ ''try {''
        @ nl 7 @ ''JSON.parse(el.value);''
        @ nl 7 @ ''errEl.style.display = 'none';''
        @ nl 7 @ ''return true;''
        @ nl 6 @ ''} catch (e) {''
        @ nl 7 @ ''errEl.textContent = 'Invalid JSON: ' + e.message;''
        @ nl 7 @ ''errEl.style.display = 'block';''
        @ nl 7 @ ''el.focus();''
        @ nl 7 @ ''return false;''
        @ nl 6 @ ''}''
        @ nl 5 @ ''}''
        @ nl 0
        @ nl 5 @ ''function formatConfig() {''
        @ nl 6 @ ''var el = document.getElementById('gatewayConfig');''
        @ nl 6 @ ''var errEl = document.getElementById('configError');''
        @ nl 6 @ ''try {''
        @ nl 7 @ ''var obj = JSON.parse(el.value);''
        @ nl 7 @ ''el.value = JSON.stringify(obj, null, 2);''
        @ nl 7 @ ''errEl.style.display = 'none';''
        @ nl 6 @ ''} catch (e) {''
        @ nl 7 @ ''errEl.textContent = 'Invalid JSON: ' + e.message;''
        @ nl 7 @ ''errEl.style.display = 'block';''
        @ nl 6 @ ''}''
        @ nl 5 @ ''}''
        @ nl 4 @ ''</script><footer><a href=\"''),
     url lib instance_edit_config_templ 57 62 (''/ui/instances/'' @ instance_name i),
     lit 7 (''\" role=\"button\" class=\"secondary outline\">Cancel</a> <button type=\"submit\">Save &amp; ''
        @ ''Restart</button></footer></form></article>'')]"

definition InstanceEditConfig_html :: "templ_lib \<Rightarrow> claw_instance \<Rightarrow> string \<Rightarrow> bool \<Rightarrow> bool \<Rightarrow> component" where
  "InstanceEditConfig_html lib i configJSON fromPod isAdmin = GeneratedTemplate (\<lambda>_. seq [
     with_children (Layout_html lib ''Edit Config'' isAdmin) (InstanceEditConfig_body lib i configJSON fromPod isAdmin)])"

section \<open>\<^verbatim>\<open>admin_users_templ.go\<close>\<close>

definition userIDString :: "templ_lib \<Rightarrow> user \<Rightarrow> string" where
  "userIDString lib u = (if uu_valid (us_id u) then tl_uuidValue lib (uu_bytes (us_id u)) else [])"

definition AdminUserRow_html :: "templ_lib \<Rightarrow> user \<Rightarrow> component" where
  "AdminUserRow_html lib user = GeneratedTemplate (\<lambda>_. seq [
     lit 3 ''<tr id=\"'',
     str lib admin_users_templ 34 38 (''user-'' @ userIDString lib user),
     lit 4 ''\"><td>'',
     str lib admin_users_templ 35 17 (us_name user),
     lit 5 ''</td><td>'',
     str lib admin_users_templ 36 18 (us_email user),
     lit 6 ''</td><td>'',
     str lib admin_users_templ 37 17 (us_role user),
     lit 7 ''</td></tr>''])"

definition AdminUsers_body :: "templ_lib \<Rightarrow> user list \<Rightarrow> bool \<Rightarrow> tprog" where
  "AdminUsers_body lib users isAdmin = seq [
     lit 1 ''<h1>Users</h1><table><thead><tr><th>Name</th><th>Email</th><th>Role</th></tr></thead> <tbody>'',
     seq (map (\<lambda>user. seq [
       nested (AdminUserRow_html lib user)]) users),
     lit 2 ''</tbody></table>'']"

definition AdminUsers_html :: "templ_lib \<Rightarrow> user list \<Rightarrow> bool \<Rightarrow> component" where
  "AdminUsers_html lib users isAdmin = GeneratedTemplate (\<lambda>_. seq [
     with_children (Layout_html lib ''Users'' isAdmin) (AdminUsers_body lib users isAdmin)])"

section \<open>\<^verbatim>\<open>admin_defaults_templ.go\<close>\<close>

definition AdminDefaults_body :: "templ_lib \<Rightarrow> instance_default \<Rightarrow> bool \<Rightarrow> tprog" where
  "AdminDefaults_body lib defaults isAdmin = seq [
     lit 1 (''<h1>Instance Defaults</h1><form method=\"POST\" action=\"/ui/admin/defaults\" onsubmit=\"return ''
        @ ''validateGatewayConfig()\"><label>Image <input type=\"text\" name=\"image\" value=\"''),
     str lib admin_defaults_templ 11 58 (df_image defaults),
     lit 2 ''\"></label><div class=\"grid\"><label>CPU Request <input type=\"text\" name=\"cpuRequest\" value=\"'',
     str lib admin_defaults_templ 16 69 (df_cpuRequest defaults),
     lit 3 ''\"></label> <label>Memory Request <input type=\"text\" name=\"memoryRequest\" value=\"'',
     str lib admin_defaults_templ 20 75 (df_memoryRequest defaults),
     lit 4 ''\"></label></div><div class=\"grid\"><label>CPU Limit <input type=\"text\" name=\"cpuLimit\" value=\"'',
     str lib admin_defaults_templ 26 65 (df_cpuLimit defaults),
     lit 5 ''\"></label> <label>Memory Limit <input type=\"text\" name=\"memoryLimit\" value=\"'',
     str lib admin_defaults_templ 30 71 (df_memoryLimit defaults),
     lit 6 ''\"></label></div><label>Storage Size <input type=\"text\" name=\"storageSize\" value=\"'',
     str lib admin_defaults_templ 35 70 (df_storageSize defaults),
     lit 7 (''\"></label> <label>Gateway Config (openclaw.json) <textarea name=\"gatewayConfig\" rows=\"14\" ''
        @ ''style=\"font-family: monospace; font-size: 0.85rem;\" id=\"gatewayConfig\">''),
     str lib admin_defaults_templ 39 140 (df_gatewayConfig defaults),
     lit 8 (''</textarea> <small id=\"gatewayConfigError\" style=\"color: var(--pico-del-color); display: none;\">''
        @ ''</small></label><div class=\"grid\"><button type=\"button\" class=\"secondary outline\" ''
        @ ''onclick=\"formatGatewayConfig()\">Format JSON</button> <button type=\"button\" class=\"secondary ''
        @ ''outline\" onclick=\"resetGatewayConfig()\">Reset to Default</button></div><script>''
        @ nl 4 @ ''function stripPlaceholders(s) {''
        @ nl 5 @ ''// Replace \"{{NAME}}\" (with surrounding quotes) or {{NAME}} (bare) with a safe dummy''
        @ nl 5 @ ''return s.replace(/\"?'' @ [CHR 0x5C] @ ''{'' @ [CHR 0x5C] @ ''{[A-Z][A-Z0-9_]*'' @ [CHR 0x5C] @ ''}'' @ [CHR 0x5C] @ ''}\"?/g, '\"__placeholder__\"');''
        @ nl 4 @ ''}''
        @ nl 0
        @ nl 4 @ ''function validateGatewayConfig() {''
        @ nl 5 @ ''var el = document.getElementById('gatewayConfig');''
        @ nl 5 @ ''var errEl = document.getElementById('gatewayConfigError');''
        @ nl 5 @ ''var val = stripPlaceholders(el.value);''
        @ nl 5 @ ''try {''
        @ nl 6 @ ''JSON.parse(val);''
        @ nl 6 @ ''errEl.style.display = 'none';''
        @ nl 6 @ ''return true;''
        @ nl 5 @ ''} catch (e) {''
        @ nl 6 @ ''errEl.textContent = 'Invalid JSON: ' + e.message;''
        @ nl 6 @ ''errEl.style.display = 'block';''
        @ nl 6 @ ''el.focus();''
        @ nl 6 @ ''return false;''
        @ nl 5 @ ''}''
        @ nl 4 @ ''}''
        @ nl 0
        @ nl 4 @ ''function formatGatewayConfig() {''
        @ nl 5 @ ''var el = document.getElementById('gatewayConfig');''
        @ nl 5 @ ''var errEl = document.getElementById('gatewayConfigError');''
        @ nl 5 @ ''// Only format if no placeholders (formatting would break them)''
        @ nl 5 @ ''var hasPlaceholders = /'' @ [CHR 0x5C] @ ''{'' @ [CHR 0x5C] @ ''{[A-Z][A-Z0-9_]*'' @ [CHR 0x5C] @ ''}'' @ [CHR 0x5C] @ ''}/.test(el.value);''
        @ nl 5 @ ''var val = hasPlaceholders ? stripPlaceholders(el.value) : el.value;''
        @ nl 5 @ ''try {''
        @ nl 6 @ ''var obj = JSON.parse(val);''
        @ nl 6 @ ''if (!hasPlaceholders) {''
        @ nl 7 @ ''el.value = JSON.stringify(obj, null, 2);''
        @ nl 6 @ ''}''
        @ nl 6 @ ''errEl.style.display = 'none';''
        @ nl 5 @ ''} catch (e) {''
        @ nl 6 @ ''errEl.textContent = 'Invalid JSON: ' + e.message;''
        @ nl 6 @ ''errEl.style.display = 'block';''
        @ nl 5 @ ''}''
        @ nl 4 @ ''}''
        @ nl 0
        @ nl 4 @ ''function resetGatewayConfig() {''
        @ nl 5 @ ''fetch('/api/admin/defaults/gateway-config/default')''
        @ nl 6 @ ''.then(r => r.json())''
        @ nl 6 @ ''.then(data => {''
        @ nl 7 @ ''var el = document.getElementById('gatewayConfig');''
        @ nl 7 @ ''var errEl = document.getElementById('gatewayConfigError');''
        @ nl 7 @ ''try {''
        @ nl 8 @ ''el.value = JSON.stringify(JSON.parse(data.gatewayConfig), null, 2);''
        @ nl 7 @ ''} catch (_) {''
        @ nl 8 @ ''el.value = data.gatewayConfig;''
        @ nl 7 @ ''}''
        @ nl 7 @ ''errEl.style.display = 'none';''
        @ nl 6 @ ''});''
        @ nl 4 @ ''}''
        @ nl 3 @ ''</script><button type=\"submit\">Save</button></form>'')]"

definition AdminDefaults_html :: "templ_lib \<Rightarrow> instance_default \<Rightarrow> bool \<Rightarrow> component" where
  "AdminDefaults_html lib defaults isAdmin = GeneratedTemplate (\<lambda>_. seq [
     with_children (Layout_html lib ''Defaults'' isAdmin) (AdminDefaults_body lib defaults isAdmin)])"

section \<open>Rendering a page\<close>

definition page_component :: "templ_lib \<Rightarrow> page \<Rightarrow> component" where
  "page_component lib p = (case p of
     DevLoginPage \<Rightarrow> DevLogin_html lib
   | LoginPage \<Rightarrow> Login_html lib
   | Dashboard items isAdmin hasInstance names placeholders tui shell uid \<Rightarrow>
       Dashboard_html lib items isAdmin hasInstance (map_of names) placeholders tui shell uid
   | InstanceDetail i isAdmin tui shell own \<Rightarrow> InstanceDetail_html lib i isAdmin tui shell own
   | StatusPollResponse i tui shell own detail \<Rightarrow> StatusPollResponse_html lib i tui shell own detail
   | AdminUsers users isAdmin \<Rightarrow> AdminUsers_html lib users isAdmin
   | AdminDefaults d isAdmin \<Rightarrow> AdminDefaults_html lib d isAdmin
   | InstanceEditConfig i c fromPod isAdmin \<Rightarrow> InstanceEditConfig_html lib i c fromPod isAdmin)"

text \<open>\<^verbatim>\<open>component.Render(c.Request().Context(), c.Response())\<close>.\<close>

definition render :: "templ_lib \<Rightarrow> page \<Rightarrow> tprog" where
  "render lib p = page_component lib p \<lparr>rc_children = None, rc_buffered = False\<rparr>"

end
