(* ===== verification/PageSafety.thy ===== *)
theory PageSafety
  imports Pages
begin

text \<open>
  What holds of every page: data cannot change its structure, what fails ends it with that error, secrets are
  only on the pages meant for them.
\<close>

section \<open>Every component is clean\<close>

lemmas after_escape [simp] = after_plain [OF plain_html_escape]

lemma badge_class:
  assumes "templ_laws lib"
  shows "tl_classes lib [''badge badge-'' @ statusClass p] = ''badge badge-'' @ statusClass p"
    "tl_css lib [''badge badge-'' @ statusClass p] = []"
  using templ_lawsD(4) [OF assms, of "''badge''" "''badge-'' @ statusClass p"] by (auto simp: statusClass_def)

lemmas component_defs = StatusBadge_html_def InstanceLinks_html_def InstanceLinksDetail_html_def instanceLinksOOB_html_def
  instanceLinksDetailOOB_html_def StatusPollResponse_html_def InstanceCard_html_def InstanceCreated_html_def
  conditionRow_html_def AdminUserRow_html_def nested_def

lemmas clean_simps = go_simps go_data children_of_simps read_simps badge_class [simplified]

lemma StatusBadge_clean: "templ_laws lib \<Longrightarrow> clean (nested (StatusBadge_html lib i))"
  by (simp add: StatusBadge_html_def nested_def clean_simps)

lemma links_clean:
  assumes "templ_laws lib"
  shows "clean (nested (InstanceLinks_html lib i t s own))" "clean (nested (InstanceLinksDetail_html lib i t s own))"
    "clean (nested (instanceLinksOOB_html lib i t s))" "clean (nested (instanceLinksDetailOOB_html lib i t s))"
  using assms
  by (simp_all add: InstanceLinks_html_def InstanceLinksDetail_html_def instanceLinksOOB_html_def
      instanceLinksDetailOOB_html_def nested_def clean_simps)

lemmas card_parts = StatusBadge_clean links_clean

lemma StatusPollResponse_clean: "templ_laws lib \<Longrightarrow> clean (StatusPollResponse_html lib i t s own d ctx)"
  by (simp add: StatusPollResponse_html_def clean_simps card_parts)

lemma InstanceCard_clean: "templ_laws lib \<Longrightarrow> clean (nested (InstanceCard_html lib i names t s uid))"
  unfolding InstanceCard_html_def nested_def [of "GeneratedTemplate x" for x]
  by (cases "names (sp_userId (ci_spec i))") (simp_all add: clean_simps card_parts)

lemma InstanceCreated_clean: "templ_laws lib \<Longrightarrow> clean (InstanceCreated_html lib i t s uid ctx)"
  by (simp add: InstanceCreated_html_def clean_simps InstanceCard_clean)

lemma conditionRow_clean: "templ_laws lib \<Longrightarrow> clean (nested (conditionRow_html lib c))"
  by (simp add: conditionRow_html_def nested_def clean_simps)

lemma AdminUserRow_clean: "templ_laws lib \<Longrightarrow> clean (nested (AdminUserRow_html lib u))"
  by (simp add: AdminUserRow_html_def nested_def clean_simps)

lemma Login_clean: "templ_laws lib \<Longrightarrow> clean (Login_html lib ctx)" "templ_laws lib \<Longrightarrow> clean (DevLogin_html lib ctx)"
  by (simp_all add: Login_html_def DevLogin_html_def clean_simps)

lemma Layout_clean:
  assumes "templ_laws lib" "clean p"
  shows "clean (with_children (Layout_html lib title a) p)"
  using assms(1) assms(2) by (simp add: Layout_html_def with_children_def clean_simps)

lemma Dashboard_body_clean:
  assumes "templ_laws lib"
  shows "clean (Dashboard_body lib items a h names phs t s uid)"
proof -
  have holes: "clean (seq (map (\<lambda>p. seq [
             lit 4 ''<label>'',
             str lib dashboard_templ 26 15 p,
             lit 5 '' <input type=\"text\" name=\"'',
             str lib dashboard_templ 27 48 (''var_'' @ p),
             lit 6 ''\" required placeholder=\"'',
             str lib dashboard_templ 27 96 (''Enter value for '' @ p),
             lit 7 ''\"></label>'']) phs))"
    using assms by (intro go_map) (simp add: clean_simps)
  have cards: "clean (seq (map (\<lambda>inst. seq [nested (InstanceCard_html lib inst names t s uid)]) items))"
    using assms by (intro go_map) (simp add: clean_simps InstanceCard_clean)
  show ?thesis
    using assms holes cards by (simp add: Dashboard_body_def clean_simps)
qed

lemma InstanceDetail_body_clean:
  assumes "templ_laws lib"
  shows "clean (InstanceDetail_body lib i a t s own)"
proof -
  have rows: "clean (seq (map (\<lambda>c. seq [nested (conditionRow_html lib c)]) cs))" for cs
    using assms by (intro go_map) (simp add: clean_simps conditionRow_clean)
  show ?thesis
    using assms rows by (simp add: InstanceDetail_parts clean_simps card_parts)
qed

lemma InstanceEditConfig_body_clean: "templ_laws lib \<Longrightarrow> clean (InstanceEditConfig_body lib i c f a)"
  by (simp add: InstanceEditConfig_body_def clean_simps)

lemma AdminUsers_body_clean:
  assumes "templ_laws lib"
  shows "clean (AdminUsers_body lib us a)"
proof -
  have rows: "clean (seq (map (\<lambda>u. seq [nested (AdminUserRow_html lib u)]) us))"
    using assms by (intro go_map) (simp add: clean_simps AdminUserRow_clean)
  show ?thesis
    using assms rows by (simp add: AdminUsers_body_def clean_simps)
qed

lemma AdminDefaults_body_clean: "templ_laws lib \<Longrightarrow> clean (AdminDefaults_body lib d a)"
  by (simp add: AdminDefaults_body_def clean_simps)

lemma render_clean:
  assumes "templ_laws lib"
  shows "clean (render lib p)"
proof -
  note bodies = Dashboard_body_clean [OF assms] InstanceDetail_body_clean [OF assms] InstanceEditConfig_body_clean [OF assms]
    AdminUsers_body_clean [OF assms] AdminDefaults_body_clean [OF assms]
  note pages = bodies [THEN Layout_clean [OF assms]]
  show ?thesis
  proof (cases p)
    case (StatusPollResponse i t s own d)
    then show ?thesis using StatusPollResponse_clean [OF assms] by (simp add: render_def page_component_def)
  qed (use pages Login_clean [OF assms] in \<open>simp_all add: render_def page_component_def Dashboard_html_def
      InstanceDetail_html_def InstanceEditConfig_html_def AdminUsers_html_def AdminDefaults_html_def go_simps\<close>)
qed

section \<open>Structure\<close>

text \<open>A library that keeps the laws.\<close>

definition sample_templ :: templ_lib where
  "sample_templ = \<lparr>tl_escape = html_escape, tl_joinString = \<lambda>s. (s, None), tl_joinURL = \<lambda>s. (s, None),
    tl_classes = hd, tl_css = \<lambda>_. [], tl_version = ''dev'', tl_uuidValue = id\<rparr>"

lemma sample_templ_laws: "templ_laws sample_templ"
  by (simp add: templ_laws_def sample_templ_def)

text \<open>Property C11. Whatever instances, users, placeholders, defaults and configurations hold, no page they are
  shown on changes its structure: the tags and attributes a browser reads are those of the literals, the page
  ends outside every tag and script, and data is written only as text, in text areas and in quoted values of
  attributes that hold neither scripts nor styles, where an address is a path of this host.\<close>

theorem pages_resist_injection:
  assumes "templ_laws lib"
  shows "map shape (events HText (html_of (render lib p))) = map shape (events HText (html_blank (render lib p)))
    \<and> after HText (html_of (render lib p)) = HText \<and> safe HText (render lib p)"
  using cleanD [OF render_clean [OF assms, of p]] safe_structure [of HText "render lib p" HText] by simp

lemma pages_resist_injection_witness:
  "after HText (html_of (render sample_templ (InstanceEditConfig sample_instance ''</textarea><script>'' False False))) = HText"
  using pages_resist_injection [OF sample_templ_laws, of "InstanceEditConfig sample_instance ''</textarea><script>'' False False"] by blast

section \<open>Errors\<close>

lemma at_once_branch: "at_once p \<Longrightarrow> at_once q \<Longrightarrow> at_once (if b then p else q)"
  "at_once p \<Longrightarrow> (\<And>x. at_once (f x)) \<Longrightarrow> at_once (case m of None \<Rightarrow> p | Some x \<Rightarrow> f x)"
  "(\<And>x. at_once (f x)) \<Longrightarrow> at_once (seq (map f xs))"
  by (auto split: option.split) (induction xs; auto intro: at_once_seq)

lemmas at_once_intros = at_once_simps at_once_seq at_once_branch at_once_nested

lemma components_at_once:
  "at_once (nested (StatusBadge_html lib i))" "at_once (nested (InstanceLinks_html lib i t s own))"
  "at_once (nested (InstanceLinksDetail_html lib i t s own))" "at_once (nested (instanceLinksOOB_html lib i t s))"
  "at_once (nested (instanceLinksDetailOOB_html lib i t s))" "at_once (nested (conditionRow_html lib c))"
  "at_once (nested (AdminUserRow_html lib u))"
  unfolding StatusBadge_html_def InstanceLinks_html_def InstanceLinksDetail_html_def instanceLinksOOB_html_def
    instanceLinksDetailOOB_html_def conditionRow_html_def AdminUserRow_html_def
  by (intro at_once_intros)+

lemma card_at_once: "at_once (nested (InstanceCard_html lib i names t s uid))"
  unfolding InstanceCard_html_def by (intro at_once_intros components_at_once)

lemma Layout_at_once: "at_once p \<Longrightarrow> at_once (with_children (Layout_html lib title a) p)"
  unfolding Layout_html_def by (rule at_once_nested(2)) (intro at_once_intros | assumption)+

lemma bodies_at_once:
  "at_once (Dashboard_body lib items a h names phs t s uid)" "at_once (InstanceDetail_body lib i a t s own)"
  "at_once (InstanceEditConfig_body lib i c f a)" "at_once (AdminUsers_body lib us a)" "at_once (AdminDefaults_body lib d a)"
  unfolding Dashboard_body_def InstanceDetail_parts InstanceEditConfig_body_def AdminUsers_body_def AdminDefaults_body_def
  by (intro at_once_intros components_at_once card_at_once)+

lemma render_fail_fast:
  assumes "templ_laws lib"
  shows "fail_fast (render lib p)"
proof -
  have r: "result_of (page_component lib p \<lparr>rc_children = None, rc_buffered = False\<rparr>) = None"
    using cleanD [OF render_clean [OF assms, of p]] by (simp add: render_def)
  have "\<exists>body. page_component lib p = GeneratedTemplate body \<and> at_once (body (Ret None))"
    unfolding page_component_def Dashboard_html_def InstanceDetail_html_def InstanceEditConfig_html_def
      AdminUsers_html_def AdminDefaults_html_def Login_html_def DevLogin_html_def StatusPollResponse_html_def
    by (cases p; simp only: page.simps; rule exI, rule conjI [OF refl])
      (intro at_once_intros components_at_once Layout_at_once bodies_at_once)+
  then obtain body where body: "page_component lib p = GeneratedTemplate body" "at_once (body (Ret None))" by blast
  with r show ?thesis
    by (simp add: render_def fail_fast_component component_simps children_of_simps)
qed

text \<open>Property C16. A page that is rendered without an error is written in full. If a write fails, or the request is cancelled,
  or the buffer cannot be emptied, rendering ends with the first such error, and what was written before is the
  beginning of the page.\<close>

theorem render_all_or_error:
  assumes "templ_laws lib" "exec (\<lambda>_ _. True) (render lib p) h r"
  shows "(failures h = [] \<longrightarrow> r = None \<and> sent h = html_of (render lib p))
    \<and> (failures h \<noteq> [] \<longrightarrow> r = Some (Plain (hd (failures h))) \<and> (\<exists>rest. html_of (render lib p) = sent h @ rest))"
  using fail_fast_run [OF assms(2) render_fail_fast [OF assms(1)]] cleanD [OF render_clean [OF assms(1), of p]] by simp

lemma undisturbed_run: "\<exists>h. exec (\<lambda>_ _. True) p h (result_of p) \<and> failures h = []"
proof (induction p)
  case (Call c k)
  from Call.IH [of "k None"] obtain h where "exec (\<lambda>_ _. True) (k None) h (result_of (k None)) \<and> failures h = []" by auto
  then show ?case by (intro exI [of _ "(c, None) # h"]) (auto intro: exec_Call)
qed auto

lemma first_write_fails:
  "exec (\<lambda>_ _. True) (GeneratedTemplate (\<lambda>_. seq (lit n t # ps)) \<lparr>rc_children = None, rc_buffered = False\<rparr>)
     [(CtxErr, None), (WriteLit n t, Some e), (ReleaseBuffer, None)] (Some (Plain e))"
  by (simp add: GeneratedTemplate_def in_buffer_def lit_def ask_def seq.simps exec_Call_iff)

text \<open>The login page in full, and cut short by the first write that fails.\<close>

lemma render_all_or_error_witness:
  "(\<exists>h. exec (\<lambda>_ _. True) (render sample_templ LoginPage) h None \<and> sent h = html_of (render sample_templ LoginPage))
   \<and> (\<exists>h. exec (\<lambda>_ _. True) (render sample_templ LoginPage) h (Some (Plain ErrNoRows)) \<and> failures h = [ErrNoRows])"
proof
  obtain h where h: "exec (\<lambda>_ _. True) (render sample_templ LoginPage) h (result_of (render sample_templ LoginPage))" "failures h = []"
    using undisturbed_run by blast
  with render_all_or_error [OF sample_templ_laws h(1)]
  show "\<exists>h. exec (\<lambda>_ _. True) (render sample_templ LoginPage) h None \<and> sent h = html_of (render sample_templ LoginPage)"
    by auto
  show "\<exists>h. exec (\<lambda>_ _. True) (render sample_templ LoginPage) h (Some (Plain ErrNoRows)) \<and> failures h = [ErrNoRows]"
    unfolding render_def page_component_def page.simps Login_html_def by (intro exI conjI, rule first_write_fails) simp
qed

section \<open>Secrets\<close>

text \<open>A page without what it is not meant to show: tokens (but on the page of the instance itself), configurations
  (but for the one that is edited), and of the users all but what the list is about.\<close>

definition no_config :: "claw_instance \<Rightarrow> claw_instance" where
  "no_config i = i\<lparr>ci_spec := (ci_spec i)\<lparr>sp_gatewayConfig := [], sp_configGeneration := 0\<rparr>\<rparr>"

definition no_secrets :: "claw_instance \<Rightarrow> claw_instance" where
  "no_secrets i = i\<lparr>ci_spec := (ci_spec i)\<lparr>sp_gatewayConfig := [], sp_configGeneration := 0, sp_gatewayToken := []\<rparr>\<rparr>"

definition listed_user :: "user \<Rightarrow> user" where
  "listed_user u = u\<lparr>us_oidcSubject := [], us_slackUserID := None, us_picture := None\<rparr>"

fun conceal :: "page \<Rightarrow> page" where
  "conceal (Dashboard items a h names phs t s uid) = Dashboard (map no_secrets items) a h names phs t s uid"
| "conceal (InstanceDetail i a t s own) = InstanceDetail (no_config i) a t s own"
| "conceal (StatusPollResponse i t s own d) = StatusPollResponse (no_secrets i) t s own d"
| "conceal (AdminUsers us a) = AdminUsers (map listed_user us) a"
| "conceal (InstanceEditConfig i c f a) = InstanceEditConfig (no_secrets i) c f a"
| "conceal p = p"

lemma no_secrets_simps [simp]:
  "instance_name (no_secrets i) = instance_name i" "sp_image (ci_spec (no_secrets i)) = sp_image (ci_spec i)"
  "sp_userId (ci_spec (no_secrets i)) = sp_userId (ci_spec i)" "ci_status (no_secrets i) = ci_status i"
  "instance_name (no_config i) = instance_name i" "sp_image (ci_spec (no_config i)) = sp_image (ci_spec i)"
  "sp_userId (ci_spec (no_config i)) = sp_userId (ci_spec i)" "ci_status (no_config i) = ci_status i"
  "sp_resources (ci_spec (no_config i)) = sp_resources (ci_spec i)" "sp_storage (ci_spec (no_config i)) = sp_storage (ci_spec i)"
  "sp_gatewayToken (ci_spec (no_config i)) = sp_gatewayToken (ci_spec i)"
  by (simp_all add: no_secrets_def no_config_def)

lemma card_conceal:
  "StatusBadge_html lib (no_secrets i) = StatusBadge_html lib i" "StatusBadge_html lib (no_config i) = StatusBadge_html lib i"
  "InstanceLinks_html lib (no_secrets i) = InstanceLinks_html lib i"
  "InstanceLinksDetail_html lib (no_config i) = InstanceLinksDetail_html lib i"
  "instanceLinksOOB_html lib (no_secrets i) = instanceLinksOOB_html lib i"
  "instanceLinksDetailOOB_html lib (no_secrets i) = instanceLinksDetailOOB_html lib i"
  unfolding StatusBadge_html_def InstanceLinks_html_def InstanceLinksDetail_html_def instanceLinksOOB_html_def
    instanceLinksDetailOOB_html_def fun_eq_iff no_secrets_simps
  by (rule refl allI)+

lemma listed_user_row: "AdminUserRow_html lib (listed_user u) = AdminUserRow_html lib u"
  by (simp add: AdminUserRow_html_def userIDString_def listed_user_def)

lemma InstanceCard_conceal: "InstanceCard_html lib (no_secrets i) = InstanceCard_html lib i"
  unfolding InstanceCard_html_def fun_eq_iff no_secrets_simps card_conceal by (rule refl allI)+

text \<open>Property C12. A page is the same, byte for byte, whatever it is not meant to show: gateway tokens appear only on the
  page of their instance, configurations only on the page that edits them, and the list of users shows neither their
  subjects nor their Slack accounts.\<close>

theorem pages_conceal: "render lib (conceal p) = render lib p"
proof (cases p)
  case (Dashboard items a h names phs t s uid)
  have "Dashboard_body lib (map no_secrets items) a h (map_of names) phs t s uid = Dashboard_body lib items a h (map_of names) phs t s uid"
    unfolding Dashboard_body_def map_map comp_def InstanceCard_conceal length_map by (rule refl)
  then show ?thesis unfolding Dashboard conceal.simps render_def page_component_def page.simps Dashboard_html_def by simp
next
  case (InstanceDetail i a t s own)
  have "InstanceDetail_body lib (no_config i) a t s own = InstanceDetail_body lib i a t s own"
    unfolding InstanceDetail_parts card_conceal no_secrets_simps by (rule refl)
  then show ?thesis unfolding InstanceDetail conceal.simps render_def page_component_def page.simps InstanceDetail_html_def by simp
next
  case (StatusPollResponse i t s own d)
  show ?thesis
    unfolding StatusPollResponse conceal.simps render_def page_component_def page.simps StatusPollResponse_html_def
      card_conceal no_secrets_simps by (rule refl)
next
  case (AdminUsers us a)
  have "AdminUsers_body lib (map listed_user us) a = AdminUsers_body lib us a"
    unfolding AdminUsers_body_def map_map comp_def listed_user_row by (rule refl)
  then show ?thesis unfolding AdminUsers conceal.simps render_def page_component_def page.simps AdminUsers_html_def by simp
next
  case (InstanceEditConfig i c f a)
  have "InstanceEditConfig_body lib (no_secrets i) c f a = InstanceEditConfig_body lib i c f a"
    unfolding InstanceEditConfig_body_def no_secrets_simps by (rule refl)
  then show ?thesis unfolding InstanceEditConfig conceal.simps render_def page_component_def page.simps InstanceEditConfig_html_def by simp
qed simp_all

end
