(* ===== verification/PageReading.thy ===== *)
theory PageReading
  imports PageSafety
begin

text \<open>
  What a reader picks from a page: \<open>f\<close> says what of one event, the picks of a component are computed statement by
  statement, along with the state the reading is in after it. \<open>Forms\<close> picks fields, \<open>PollAnswer\<close> requests.
\<close>

definition gathered :: "(event \<Rightarrow> 'a list) \<Rightarrow> hstate \<Rightarrow> string \<Rightarrow> 'a list" where
  "gathered f s t = concat (map f (events s t))"

lemma gathered_simps [simp]:
  "gathered f s [] = []" "gathered f s (c # t) = concat (map f (hemit s c)) @ gathered f (hstep s c) t"
  "gathered f s (a @ b) = gathered f s a @ gathered f (after s a) b"
  "gathered f HText (html_escape d) = []" "gathered f (HArea v) (html_escape d) = []"
  "q \<in> quotes \<Longrightarrow> gathered f (HVal t as n q v) (html_escape d) = []" "gathered f (HRaw 0) (nl k) = []"
  by (simp_all add: gathered_def)

definition look :: "(event \<Rightarrow> 'a list) \<Rightarrow> hstate \<Rightarrow> tprog \<Rightarrow> (hstate \<times> 'a list) option" where
  "look f s p = (if result_of p = None then Some (after s (html_of p), gathered f s (html_of p)) else None)"

definition look_on :: "hstate \<times> 'a list \<Rightarrow> (hstate \<times> 'a list) option \<Rightarrow> (hstate \<times> 'a list) option" where
  "look_on x y = map_option (apsnd (append (snd x))) y"

lemma look_on_simps [simp]: "look_on (s, es) (Some (s', es')) = Some (s', es @ es')" "look_on x None = None"
  by (simp_all add: look_on_def)

lemma look_simps:
  "look f s (seq []) = Some (s, [])"
  "look f s (seq (p # ps)) = (case look f s p of None \<Rightarrow> None | Some x \<Rightarrow> look_on x (look f (fst x) (seq ps)))"
  "look f s (lit n t) = Some (after s t, gathered f s t)"
  "look f s (if b then p else q) = (if b then look f s p else look f s q)"
  "look f s (css lib cs) = Some (after s (tl_css lib cs), gathered f s (tl_css lib cs))"
  "look f s (GeneratedTemplate body ctx) = look f s (body (children_of ctx))"
  by (auto simp: look_def templ_simps split: option.splits)

lemma look_data:
  assumes "templ_laws lib"
  shows "look f s (str lib file l c v) = Some (after s (html_escape v), gathered f s (html_escape v))"
    "look f s (url lib file l c v) = Some (after s (html_escape v), gathered f s (html_escape v))"
  using assms by (simp_all add: look_def templ_simps)

lemma look_map:
  assumes "\<And>x. x \<in> set xs \<Longrightarrow> look f s (p x) = Some (s, g x)"
  shows "look f s (seq (map p xs)) = Some (s, concat (map g xs))"
  using assms by (induction xs) (auto simp: look_simps)

lemma look_gathered: "look f s p = Some (s', es) \<Longrightarrow> gathered f s (html_of p) = es"
  by (simp add: look_def split: if_splits)

lemmas look_rules = look_simps look_data children_of_simps read_simps

end
