(* ===== verification/PageLinks.thy ===== *)
theory PageLinks
  imports PageSafety Routes
begin

text \<open>
  Pages and routes together: every address on a page is one the server serves.
\<close>

section \<open>What a page asks for\<close>

text \<open>The requests the links and forms of a page make: method and address, as written in the attribute.\<close>

fun requests_of :: "event \<Rightarrow> (string \<times> string) list" where
  "requests_of (ETag t as) = concat (map (\<lambda>(n, v).
     if n = ''href'' \<or> n = ''src'' \<or> n = ''hx-get'' then [(''GET'', v)]
     else if n = ''hx-post'' then [(''POST'', v)]
     else if n = ''hx-delete'' then [(''DELETE'', v)]
     else if n = ''action'' then [(case map_of as ''method'' of Some m \<Rightarrow> m | None \<Rightarrow> ''GET'', v)]
     else []) as)"
| "requests_of (EArea v) = []"

definition requests :: "string \<Rightarrow> (string \<times> string) list" where
  "requests html = concat (map requests_of (events HText html))"

text \<open>A route's pattern: \<^verbatim>\<open>:id\<close> stands for one segment, \<^verbatim>\<open>*\<close> for the rest.\<close>

function match_path :: "string \<Rightarrow> string \<Rightarrow> bindings option" where
  "match_path [] s = (if s = [] then Some [] else None)"
| "match_path (c # pat) s =
     (if c = CHR ''*'' then Some [(''*'', s)]
      else if c = CHR '':'' then
        (let v = takeWhile (\<lambda>d. d \<noteq> CHR ''/'') s in
         if v = [] then None
         else map_option (Cons (takeWhile (\<lambda>d. d \<noteq> CHR ''/'') pat, v))
                (match_path (dropWhile (\<lambda>d. d \<noteq> CHR ''/'') pat) (dropWhile (\<lambda>d. d \<noteq> CHR ''/'') s)))
      else (case s of [] \<Rightarrow> None | d # s' \<Rightarrow> if c = d then match_path pat s' else None))"
  by pat_completeness auto
termination by (relation "measure (\<lambda>(pat, s). length pat)") (auto simp: le_imp_less_Suc length_dropWhile_le)

definition path_part :: "string \<Rightarrow> string" where
  "path_part u = takeWhile (\<lambda>c. c \<noteq> CHR ''?'') u"

text \<open>Addresses the table of routes does not serve: static files and the two libraries the layout loads.\<close>

definition assets :: "string set" where
  "assets = {''/static/app.css'', ''https://unpkg.com/htmx.org@2.0.4'',
     ''https://cdn.jsdelivr.net/npm/@picocss/pico@2/css/pico.min.css''}"

text \<open>A request is served by a route, for one of the names.\<close>

definition served :: "(string \<times> string) list \<Rightarrow> string set \<Rightarrow> string \<times> string \<Rightarrow> bool" where
  "served table names = (\<lambda>(m, u). u \<in> assets \<or>
     (\<exists>(rm, pat) \<in> set table. \<exists>ps. (rm = m \<or> rm = ''ANY'') \<and> match_path pat (path_part (unescape u)) = Some ps
        \<and> (\<forall>v. (''id'', v) \<in> set ps \<longrightarrow> v \<in> names)))"

definition table_of :: "route list \<Rightarrow> (string \<times> string) list" where
  "table_of rs = map (\<lambda>r. (rt_method r, rt_path r)) rs"

text \<open>Names as Kubernetes allows them: none of the characters with a meaning in paths or in HTML.\<close>

definition name_ok :: "string \<Rightarrow> bool" where
  "name_ok n \<longleftrightarrow> n \<noteq> [] \<and> (\<forall>c \<in> set n. c \<notin> set ''/?&<>'' \<union> quotes)"

lemma name_ok_simps:
  assumes "name_ok n"
  shows "html_escape n = n" "unescape (n @ s) = n @ unescape s" "path_part (n @ s) = n @ path_part s"
    "takeWhile (\<lambda>c. c \<noteq> CHR ''/'') (n @ CHR ''/'' # s) = n" "dropWhile (\<lambda>c. c \<noteq> CHR ''/'') (n @ CHR ''/'' # s) = CHR ''/'' # s"
    "takeWhile (\<lambda>c. c \<noteq> CHR ''/'') n = n" "dropWhile (\<lambda>c. c \<noteq> CHR ''/'') n = []" "n \<noteq> []" "plain_text n"
proof -
  have ok: "\<forall>c \<in> set n. c \<notin> set ''/?&<>'' \<union> quotes" and ne: "n \<noteq> []" using assms by (auto simp: name_ok_def)
  from ok show "html_escape n = n" by (induction n) (auto simp: escape_char_def quotes_def)
  from ok show "unescape (n @ s) = n @ unescape s" by (induction n) auto
  from ok show "path_part (n @ s) = n @ path_part s" by (induction n) (auto simp: path_part_def)
  from ok have "\<And>c. c \<in> set n \<Longrightarrow> c \<noteq> CHR ''/''" by auto
  then show "takeWhile (\<lambda>c. c \<noteq> CHR ''/'') (n @ CHR ''/'' # s) = n" "dropWhile (\<lambda>c. c \<noteq> CHR ''/'') (n @ CHR ''/'' # s) = CHR ''/'' # s"
    "takeWhile (\<lambda>c. c \<noteq> CHR ''/'') n = n" "dropWhile (\<lambda>c. c \<noteq> CHR ''/'') n = []"
    by (simp_all add: takeWhile_append2 dropWhile_append2 takeWhile_eq_all_conv)
  show "n \<noteq> []" by (rule ne)
  show "plain_text n" using ok by (auto simp: plain_text_def quotes_def)
qed

lemma name_ok_Nil:
  assumes "name_ok n"
  shows "unescape n = n" "path_part n = n"
  using name_ok_simps(2,3) [OF assms, of "[]"] by (simp_all add: path_part_def)

lemma path_part_simps [simp]:
  "path_part [] = []" "path_part (c # s) = (if c = CHR ''?'' then [] else c # path_part s)"
  by (simp_all add: path_part_def)

text \<open>The table has all routes the pages use, in both modes.\<close>

definition ui_table :: "(string \<times> string) list" where
  "ui_table = [(''GET'', ''/''), (''POST'', ''/ui/instances''), (''GET'', ''/ui/instances/:id''),
     (''GET'', ''/ui/instances/:id/status''), (''GET'', ''/ui/instances/:id/edit-config''),
     (''POST'', ''/ui/instances/:id/edit-config''), (''DELETE'', ''/ui/instances/:id''), (''GET'', ''/ui/admin/users''),
     (''GET'', ''/ui/admin/defaults''), (''POST'', ''/ui/admin/defaults''), (''ANY'', ''/proxy/*''), (''GET'', ''/auth/logout'')]"

definition login_table :: "bool \<Rightarrow> (string \<times> string) list" where
  "login_table dev = [(''GET'', if dev then ''/auth/dev-login'' else ''/auth/login'')]"

lemma table_has: "set (login_table (sv_dev sv) @ ui_table) \<subseteq> set (table_of (RegisterRoutes sv b))"
  by (auto simp: login_table_def ui_table_def table_of_def RegisterRoutes_def loginRoutes_def oidcRoutes_def devRoutes_def
      guardedRoutes_def protectedRoutes_def Let_def)

lemma served_mono: "served t n x \<Longrightarrow> set t \<subseteq> set t' \<Longrightarrow> n \<subseteq> n' \<Longrightarrow> served t' n' x"
  unfolding served_def by (force split: prod.splits)

lemma served_ui:
  assumes "name_ok n"
  shows "served ui_table {n} (''GET'', ''/ui/instances/'' @ n)" "served ui_table {n} (''GET'', ''/ui/instances/'' @ n @ ''/status'')"
    "served ui_table {n} (''GET'', ''/ui/instances/'' @ n @ ''/edit-config'')"
    "served ui_table {n} (''POST'', ''/ui/instances/'' @ n @ ''/edit-config'')"
    "served ui_table {n} (''DELETE'', ''/ui/instances/'' @ n)" "served ui_table {n} (''DELETE'', ''/ui/instances/'' @ n @ ''?redirect=true'')"
  by (simp_all add: served_def ui_table_def name_ok_simps [OF assms] name_ok_Nil [OF assms])

lemma served_fixed:
  "served ui_table {} (''GET'', ''/'')" "served ui_table {} (''GET'', ''/proxy/web/'')" "served ui_table {} (''GET'', ''/proxy/tui/'')"
  "served ui_table {} (''GET'', ''/proxy/shell/'')" "served ui_table {} (''POST'', ''/ui/instances'')"
  "served ui_table {} (''GET'', ''/ui/admin/users'')" "served ui_table {} (''GET'', ''/ui/admin/defaults'')"
  "served ui_table {} (''POST'', ''/ui/admin/defaults'')" "served ui_table {} (''GET'', ''/auth/logout'')"
  "served (login_table False) {} (''GET'', ''/auth/login'')" "served (login_table True) {} (''GET'', ''/auth/dev-login?role=admin'')"
  "served (login_table True) {} (''GET'', ''/auth/dev-login?role=user'')"
  by (simp_all add: served_def ui_table_def login_table_def)

lemma served_assets: "u \<in> assets \<Longrightarrow> served t n (''GET'', u)"
  by (simp add: served_def)

abbreviation page_table :: "bool \<Rightarrow> (string \<times> string) list" where
  "page_table dev \<equiv> login_table dev @ ui_table"

lemma served_page:
  "name_ok n \<Longrightarrow> n \<in> N \<Longrightarrow> served ui_table {n} x \<Longrightarrow> served (page_table dev) N x"
  "served ui_table {} x \<Longrightarrow> served (page_table dev) N x" "served (login_table dev) {} x \<Longrightarrow> served (page_table dev) N x"
  by (auto elim!: served_mono)

lemmas served_rules = served_fixed(1-9) [THEN served_page(2)] served_fixed(10-12) [THEN served_page(3)]

lemma served_names:
  assumes "name_ok n" "n \<in> N"
  shows "served (page_table dev) N (''GET'', ''/ui/instances/'' @ html_escape n)"
    "served (page_table dev) N (''GET'', ''/ui/instances/'' @ html_escape n @ ''/status'')"
    "served (page_table dev) N (''GET'', ''/ui/instances/'' @ html_escape n @ ''/edit-config'')"
    "served (page_table dev) N (''POST'', ''/ui/instances/'' @ html_escape n @ ''/edit-config'')"
    "served (page_table dev) N (''DELETE'', ''/ui/instances/'' @ html_escape n)"
    "served (page_table dev) N (''DELETE'', ''/ui/instances/'' @ html_escape n @ ''?redirect=true'')"
  unfolding name_ok_simps(1) [OF assms(1)] by (rule served_page(1) [OF assms]; rule served_ui [OF assms(1)])+

section \<open>Following a page\<close>

text \<open>Where the text leads, if every request in it satisfies \<open>Q\<close>.\<close>

definition event_ok :: "(string \<times> string \<Rightarrow> bool) \<Rightarrow> event \<Rightarrow> bool" where
  "event_ok Q e \<longleftrightarrow> (\<forall>x \<in> set (requests_of e). Q x)"

primrec text_ok :: "(string \<times> string \<Rightarrow> bool) \<Rightarrow> hstate \<Rightarrow> string \<Rightarrow> bool" where
  "text_ok Q s [] = True"
| "text_ok Q s (c # cs) = (list_all (event_ok Q) (hemit s c) \<and> text_ok Q (hstep s c) cs)"

lemma text_ok_iff: "text_ok Q s t = list_all (event_ok Q) (events s t)"
  by (induction t arbitrary: s) auto

lemma text_ok_append [simp]: "text_ok Q s (a @ b) \<longleftrightarrow> text_ok Q s a \<and> text_ok Q (after s a) b"
  by (simp add: text_ok_iff)

lemma text_ok_escape [simp]:
  "text_ok Q HText (html_escape d)" "text_ok Q (HArea v) (html_escape d)" "q \<in> quotes \<Longrightarrow> text_ok Q (HVal t as n q v) (html_escape d)"
  "text_ok Q (HRaw 0) (nl k)"
  by (simp_all add: text_ok_iff)

definition follow :: "(string \<times> string \<Rightarrow> bool) \<Rightarrow> hstate \<Rightarrow> tprog \<Rightarrow> hstate option" where
  "follow Q s p = (if result_of p = None \<and> text_ok Q s (html_of p) then Some (after s (html_of p)) else None)"

lemma follow_simps:
  "follow Q s (seq []) = Some s"
  "follow Q s (seq (p # ps)) = (case follow Q s p of None \<Rightarrow> None | Some s' \<Rightarrow> follow Q s' (seq ps))"
  "follow Q s (lit n t) = (if text_ok Q s t then Some (after s t) else None)"
  "follow Q s (if b then p else q) = (if b then follow Q s p else follow Q s q)"
  "follow Q s (css lib cs) = (if text_ok Q s (tl_css lib cs) then Some (after s (tl_css lib cs)) else None)"
  "follow Q s (GeneratedTemplate body ctx) = follow Q s (body (children_of ctx))"
  by (auto simp: follow_def templ_simps split: option.splits)

lemma follow_data:
  assumes "templ_laws lib"
  shows "follow Q s (str lib f l c v) = (if text_ok Q s (html_escape v) then Some (after s (html_escape v)) else None)"
    "follow Q s (url lib f l c v) = (if text_ok Q s (html_escape v) then Some (after s (html_escape v)) else None)"
  using assms by (simp_all add: follow_def templ_simps)

lemma follow_map:
  assumes "\<And>x. x \<in> set xs \<Longrightarrow> follow Q s (f x) = Some s"
  shows "follow Q s (seq (map f xs)) = Some s"
  using assms by (induction xs) (auto simp: follow_simps)

lemmas follow_rules = follow_simps follow_data children_of_simps event_ok_def read_simps
  badge_class [simplified] served_assets assets_def served_rules served_names [simplified]

abbreviation follows :: "bool \<Rightarrow> string set \<Rightarrow> tprog \<Rightarrow> bool" where
  "follows dev N p \<equiv> follow (served (page_table dev) N) HText p = Some HText"

lemma StatusBadge_follow:
  "templ_laws lib \<Longrightarrow> name_ok (instance_name i) \<Longrightarrow> instance_name i \<in> N \<Longrightarrow> follows dev N (nested (StatusBadge_html lib i))"
  by (simp add: StatusBadge_html_def nested_def follow_rules)

lemma links_follow:
  assumes "templ_laws lib"
  shows "follows dev N (nested (InstanceLinks_html lib i t s own))" "follows dev N (nested (InstanceLinksDetail_html lib i t s own))"
    "follows dev N (nested (instanceLinksOOB_html lib i t s))" "follows dev N (nested (instanceLinksDetailOOB_html lib i t s))"
  using assms
  by (simp_all add: InstanceLinks_html_def InstanceLinksDetail_html_def instanceLinksOOB_html_def
      instanceLinksDetailOOB_html_def nested_def follow_rules)

lemma InstanceCard_follow:
  "templ_laws lib \<Longrightarrow> name_ok (instance_name i) \<Longrightarrow> instance_name i \<in> N \<Longrightarrow> follows dev N (nested (InstanceCard_html lib i names t s uid))"
  unfolding InstanceCard_html_def nested_def [of "GeneratedTemplate x" for x]
  by (cases "names (sp_userId (ci_spec i))") (simp_all add: follow_rules StatusBadge_follow links_follow)

lemma rows_follow:
  "templ_laws lib \<Longrightarrow> follows dev N (nested (conditionRow_html lib c))"
  "templ_laws lib \<Longrightarrow> follows dev N (nested (AdminUserRow_html lib u))"
  by (simp_all add: conditionRow_html_def AdminUserRow_html_def nested_def follow_rules)

lemma Layout_follow:
  "templ_laws lib \<Longrightarrow> follows dev N p \<Longrightarrow> follows dev N (with_children (Layout_html lib title a) p)"
  by (simp add: Layout_html_def with_children_def follow_rules)

lemma Dashboard_body_follow:
  assumes "templ_laws lib" "\<forall>i \<in> set items. name_ok (instance_name i) \<and> instance_name i \<in> N"
  shows "follows dev N (Dashboard_body lib items a h names phs t s uid)"
proof -
  have holes: "follows dev N (seq (map (\<lambda>p. seq [
             lit 4 ''<label>'',
             str lib dashboard_templ 26 15 p,
             lit 5 '' <input type=\"text\" name=\"'',
             str lib dashboard_templ 27 48 (''var_'' @ p),
             lit 6 ''\" required placeholder=\"'',
             str lib dashboard_templ 27 96 (''Enter value for '' @ p),
             lit 7 ''\"></label>'']) phs))"
    using assms(1) by (intro follow_map) (simp add: follow_rules)
  have cards: "follows dev N (seq (map (\<lambda>inst. seq [nested (InstanceCard_html lib inst names t s uid)]) items))"
    using assms by (intro follow_map) (simp add: follow_rules InstanceCard_follow)
  show ?thesis
    using assms(1) holes cards by (simp add: Dashboard_body_def follow_rules)
qed

lemma InstanceDetail_body_follow:
  assumes "templ_laws lib" "name_ok (instance_name i)" "instance_name i \<in> N"
  shows "follows dev N (InstanceDetail_body lib i a t s own)"
proof -
  have rows: "follows dev N (seq (map (\<lambda>c. seq [nested (conditionRow_html lib c)]) cs))" for cs
    using assms by (intro follow_map) (simp add: follow_rules rows_follow)
  show ?thesis
    using assms rows by (simp add: InstanceDetail_parts follow_rules StatusBadge_follow links_follow)
qed

lemma InstanceEditConfig_body_follow:
  "templ_laws lib \<Longrightarrow> name_ok (instance_name i) \<Longrightarrow> instance_name i \<in> N \<Longrightarrow> follows dev N (InstanceEditConfig_body lib i c f a)"
  by (simp add: InstanceEditConfig_body_def follow_rules)

lemma AdminUsers_body_follow:
  assumes "templ_laws lib"
  shows "follows dev N (AdminUsers_body lib us a)"
proof -
  have rows: "follows dev N (seq (map (\<lambda>u. seq [nested (AdminUserRow_html lib u)]) us))"
    using assms by (intro follow_map) (simp add: follow_rules rows_follow)
  show ?thesis
    using assms rows by (simp add: AdminUsers_body_def follow_rules)
qed

lemma AdminDefaults_body_follow: "templ_laws lib \<Longrightarrow> follows dev N (AdminDefaults_body lib d a)"
  by (simp add: AdminDefaults_body_def follow_rules)

lemma Login_follow:
  "templ_laws lib \<Longrightarrow> follows False N (Login_html lib ctx)" "templ_laws lib \<Longrightarrow> follows True N (DevLogin_html lib ctx)"
  by (simp_all add: Login_html_def DevLogin_html_def follow_rules)

lemma StatusPoll_follow:
  "templ_laws lib \<Longrightarrow> name_ok (instance_name i) \<Longrightarrow> instance_name i \<in> N \<Longrightarrow> follows dev N (StatusPollResponse_html lib i t s own d ctx)"
  by (simp add: StatusPollResponse_html_def follow_rules StatusBadge_follow links_follow)

text \<open>The instances a page shows, and the login page a server shows.\<close>

fun page_instances :: "page \<Rightarrow> claw_instance set" where
  "page_instances (Dashboard items a h names phs t s uid) = set items"
| "page_instances (InstanceDetail i a t s own) = {i}"
| "page_instances (StatusPollResponse i t s own d) = {i}"
| "page_instances (InstanceEditConfig i c f a) = {i}"
| "page_instances p = {}"

definition page_of :: "server \<Rightarrow> page \<Rightarrow> bool" where
  "page_of sv p \<longleftrightarrow> (p = LoginPage \<longrightarrow> \<not> sv_dev sv) \<and> (p = DevLoginPage \<longrightarrow> sv_dev sv)"

lemma render_follow:
  assumes "templ_laws lib" "page_of sv p" "\<forall>i \<in> page_instances p. name_ok (instance_name i)"
  shows "follows (sv_dev sv) (instance_name ` page_instances p) (render lib p)"
proof (cases p)
  case (Dashboard items a h names phs t s uid)
  then have "follows (sv_dev sv) (instance_name ` page_instances p) (Dashboard_body lib items a h (map_of names) phs t s uid)"
    using assms by (intro Dashboard_body_follow) auto
  from Layout_follow [OF assms(1) this] show ?thesis
    by (simp add: Dashboard render_def page_component_def Dashboard_html_def follow_simps)
next
  case (InstanceDetail i a t s own)
  then have "follows (sv_dev sv) (instance_name ` page_instances p) (InstanceDetail_body lib i a t s own)"
    using assms by (intro InstanceDetail_body_follow) auto
  from Layout_follow [OF assms(1) this] show ?thesis
    by (simp add: InstanceDetail render_def page_component_def InstanceDetail_html_def follow_simps)
next
  case (InstanceEditConfig i c f a)
  then have "follows (sv_dev sv) (instance_name ` page_instances p) (InstanceEditConfig_body lib i c f a)"
    using assms by (intro InstanceEditConfig_body_follow) auto
  from Layout_follow [OF assms(1) this] show ?thesis
    by (simp add: InstanceEditConfig render_def page_component_def InstanceEditConfig_html_def follow_simps)
qed (use assms Login_follow StatusPoll_follow Layout_follow [OF assms(1) AdminUsers_body_follow [OF assms(1)]]
      Layout_follow [OF assms(1) AdminDefaults_body_follow [OF assms(1)]] in
      \<open>simp_all add: render_def page_component_def AdminUsers_html_def AdminDefaults_html_def follow_simps page_of_def\<close>)

text \<open>Property C13. No page has a dead link: every link, form and polling address of a page, as a browser reads it, is served by a route
  of the table with its method, and where the route takes an identifier it is the name of an instance the page
  shows; all else are the style sheets and the script of the layout.\<close>

theorem page_requests_served:
  assumes "templ_laws lib" "page_of sv p" "\<forall>i \<in> page_instances p. name_ok (instance_name i)"
    "x \<in> set (requests (html_of (render lib p)))"
  shows "served (table_of (RegisterRoutes sv b)) (instance_name ` page_instances p) x"
proof -
  have "list_all (event_ok (served (page_table (sv_dev sv)) (instance_name ` page_instances p))) (events HText (html_of (render lib p)))"
    using render_follow [OF assms(1-3)] by (simp add: follow_def text_ok_iff split: if_splits)
  then have "served (page_table (sv_dev sv)) (instance_name ` page_instances p) x"
    using assms(4) by (auto simp: requests_def event_ok_def list_all_iff)
  then show ?thesis by (rule served_mono [OF _ table_has]) simp
qed

text \<open>The login page's button leads to the route that starts the login.\<close>

definition oidc_server :: server where
  "oidc_server = \<lparr>sv_lib = sample_web_lib, sv_config = Load (\<lambda>_. []), sv_dev = False, sv_bot = True\<rparr>"

lemma page_requests_served_witness:
  "(''GET'', ''/auth/login'') \<in> set (requests (html_of (render sample_templ LoginPage)))
   \<and> served (table_of (RegisterRoutes oidc_server None)) {} (''GET'', ''/auth/login'')"
proof -
  have html: "html_of (render lib LoginPage) = s @ t" if "Login_html lib = GeneratedTemplate (\<lambda>_. seq [lit n (s @ t)])" for lib n s t
    using that by (simp add: render_def page_component_def GeneratedTemplate_def in_buffer_def lit_def ask_def seq.simps)
  have "(''GET'', ''/auth/login'') \<in> set (requests (html_of (render sample_templ LoginPage)))"
    unfolding html [OF Login_html_def] by code_simp
  moreover have "page_of oidc_server LoginPage" by (simp add: page_of_def oidc_server_def)
  ultimately show ?thesis using page_requests_served [OF sample_templ_laws, of oidc_server LoginPage _ None] by simp
qed

end
