(* ===== verification/PollAnswer.thy ===== *)
theory PollAnswer
  imports PageReading PageLinks
begin

text \<open>
  The pages against the decisions of \<open>Templates\<close>: what a browser finds on a rendered card or in the answer of a poll
  is the badge and the links decided there.
\<close>

definition gets :: "string list \<Rightarrow> (string \<times> string) list" where
  "gets us = map (Pair ''GET'') us"

lemma gets_simps [simp]: "gets [] = []" "gets (u # us) = (''GET'', u) # gets us" "gets (us @ vs) = gets us @ gets vs"
  by (simp_all add: gets_def)

definition polls :: "claw_instance \<Rightarrow> string list" where
  "polls i = (case bg_poll (StatusBadge i) of None \<Rightarrow> [] | Some u \<Rightarrow> [html_escape u])"

lemma badge_look:
  assumes "templ_laws lib"
  shows "look requests_of HText (nested (StatusBadge_html lib i)) = Some (HText, gets (polls i))"
  using assms
  by (simp add: StatusBadge_html_def nested_def look_rules badge_class [simplified] polls_def StatusBadge_def)

lemma links_look:
  assumes "templ_laws lib"
  shows "look requests_of HText (nested (InstanceLinks_html lib i t s own)) = Some (HText, gets (InstanceLinks i t s own))"
    "look requests_of HText (nested (InstanceLinksDetail_html lib i t s own)) = Some (HText, gets (InstanceLinksDetail i t s own))"
    "look requests_of HText (nested (instanceLinksOOB_html lib i t s)) = Some (HText, gets (instanceLinksOOB t s))"
    "look requests_of HText (nested (instanceLinksDetailOOB_html lib i t s)) = Some (HText, gets (instanceLinksDetailOOB t s))"
  using assms
  by (simp_all add: InstanceLinks_html_def InstanceLinksDetail_html_def instanceLinksOOB_html_def instanceLinksDetailOOB_html_def
      nested_def look_rules InstanceLinks_def InstanceLinksDetail_def instanceLinksOOB_def instanceLinksDetailOOB_def)

lemma requests_look: "look requests_of HText p = Some (s, rs) \<Longrightarrow> requests (html_of p) = rs"
  using look_gathered [of requests_of HText p] by (simp add: gathered_def requests_def)



end
