(* ===== verification/Forms.thy ===== *)
theory Forms
  imports PageReading Handlers AuthSafety
begin

text \<open>
  The forms of the pages and the handlers they are sent to: what a browser reads from a form, and what it
  sends when nothing was changed.
\<close>

section \<open>Line ends\<close>

text \<open>A line end of a text area's content, however written, is sent as CR LF; one right after the tag is dropped.\<close>

definition LF :: char where "LF = CHR 0x0A"
definition CR :: char where "CR = CHR 0x0D"

definition skip_LF :: "string \<Rightarrow> string" where
  "skip_LF s = (case s of [] \<Rightarrow> [] | c # t \<Rightarrow> if c = LF then t else s)"

function sent_text :: "string \<Rightarrow> string" where
  "sent_text [] = []"
| "sent_text (c # s) =
     (if c = CR then CR # LF # sent_text (skip_LF s) else if c = LF then CR # LF # sent_text s else c # sent_text s)"
  by pat_completeness auto
termination by (relation "measure length") (auto simp: skip_LF_def split: list.splits)

definition area_value :: "string \<Rightarrow> string" where
  "area_value s = (case s of [] \<Rightarrow> [] | c # t \<Rightarrow> if c = LF then t else if c = CR then skip_LF t else s)"

text \<open>In valid JSON line ends are white space, so that the text sent reads the same.\<close>

lemma jstep_line_end:
  "jstep st ps CR = jstep st ps LF"
  by (cases "(st, ps, CR)" rule: jstep.cases) (simp_all add: scan_defs isSpace_def CR_def LF_def is_digit_def is_hex_def split: list.split pstate.split)

lemma jstep_again:
  assumes "jstep st ps LF = (op, st1, ps1)" "st1 \<noteq> StError" "st = EndTop \<longrightarrow> ps = []"
  shows "\<exists>op'. jstep st1 ps1 LF = (op', st1, ps1) \<and> op \<in> {SkipSpace, End} \<and> op' \<in> {SkipSpace, End}"
  using assms
  by (cases "(st, ps, LF)" rule: jstep.cases)
    (auto simp: scan_defs isSpace_def LF_def is_digit_def is_hex_def split: if_splits list.splits pstate.splits)

abbreviation live :: "sconf \<Rightarrow> bool" where
  "live q \<equiv> fst q = EndTop \<longrightarrow> snd q = []"

lemma line_end_step:
  assumes "jstep st ps c = (op, q)" "c = CR \<or> c = LF" "fst q \<noteq> StError" "live (st, ps)"
  shows "act op c b = Some b" "build q b (LF # s) = build q b s" "build q b (skip_LF s) = build q b s" "live q"
proof -
  obtain st1 ps1 where q: "q = (st1, ps1)" by (cases q)
  have "jstep st ps LF = (op, st1, ps1)" using assms(1,2) by (auto simp: q jstep_line_end)
  with jstep_again [OF this] assms(3,4) q obtain op' where
    s: "jstep st1 ps1 LF = (op', st1, ps1)" "op \<in> {SkipSpace, End}" "op' \<in> {SkipSpace, End}" by auto
  show "act op c b = Some b" using s(2) by (cases b) auto
  show again: "build q b (LF # s) = build q b s" for s using s(1,3) by (cases b) (auto simp: q)
  show "build q b (skip_LF s) = build q b s" using again by (auto simp: skip_LF_def split: list.split)
  show "live q" using jstep_EndTop [of st ps c op ps1] assms(1,4) by (auto simp: q)
qed

lemma sent_build:
  "build q b s = Some (qe, be) \<Longrightarrow> fst qe \<noteq> StError \<Longrightarrow> live q \<Longrightarrow> build q b (sent_text s) = Some (qe, be)"
proof (induction s arbitrary: q b rule: sent_text.induct)
  case (2 c s)
  obtain st ps where q: "q = (st, ps)" by (cases q)
  obtain op q1 where step: "jstep st ps c = (op, q1)" by (cases "jstep st ps c")
  then obtain b1 where b1: "act op c b = Some b1" "build q1 b1 s = Some (qe, be)"
    using "2.prems"(1) by (auto simp: q split: option.splits)
  have ne: "fst q1 \<noteq> StError" using build_jscan [OF b1(2)] "2.prems"(2) by (cases q1) auto
  show ?case
  proof (cases "c = CR \<or> c = LF")
    case True
    note e = line_end_step [OF step True ne "2.prems"(3) [unfolded q]]
    have "b1 = b" using b1(1) e(1) [of b] by simp
    moreover have "jstep st ps CR = (op, q1)" using True step by (auto simp: jstep_line_end)
    moreover have "act op CR b = Some b" using line_end_step(1) [OF calculation(2) _ ne "2.prems"(3) [unfolded q]] by simp
    moreover have "build q1 b (sent_text s) = Some (qe, be)" if "c = LF"
      using "2.IH"(2) [OF _ that] b1(2) "2.prems"(2) e(4) that \<open>b1 = b\<close> by (simp add: CR_def LF_def)
    moreover have "build q1 b (sent_text (skip_LF s)) = Some (qe, be)" if "c = CR"
      using "2.IH"(1) [OF that] b1(2) "2.prems"(2) e(3,4) \<open>b1 = b\<close> by simp
    ultimately show ?thesis using True e(2) by (auto simp: q CR_def LF_def)
  next
    case False
    have "live q1" using jstep_EndTop [of st ps c op "snd q1"] step "2.prems"(3) by (cases q1) (auto simp: q)
    with "2.IH"(3) [of q1 b1] False b1 "2.prems"(2) step show ?thesis by (simp add: q)
  qed
qed simp

lemma area_build:
  assumes "build (BeginValue, []) b s = Some (qe, be)" "fst qe \<noteq> StError"
  shows "build (BeginValue, []) b (area_value s) = Some (qe, be)"
proof -
  have sp: "build (BeginValue, []) b (CR # t) = build (BeginValue, []) b t" "build (BeginValue, []) b (LF # t) = build (BeginValue, []) b t" for t
    by (cases b; simp add: CR_def LF_def begin_value_def isSpace_def)+
  show ?thesis using assms(1) sp by (auto simp: area_value_def skip_LF_def split: list.split)
qed

text \<open>What a text area sends for a JSON document.\<close>

lemma area_meaning:
  assumes "json_valid s"
  shows "json_valid (sent_text (area_value s))" "json_decode (sent_text (area_value s)) = json_decode s"
proof -
  have "\<exists>qe'. build (BeginValue, []) ([], NoVal) (sent_text (area_value s)) = Some (qe', be) \<and> same_point qe qe'"
    if "build (BeginValue, []) ([], NoVal) s = Some (qe, be)" "fst qe \<noteq> StError" for qe be
  proof -
    have "same_point (BeginValue, []) (BeginValue, [])" by (simp add: same_point_def)
    from compact_build [OF this that] have "same_point qe qe" by (auto simp: same_point_def)
    with sent_build [OF area_build [OF that] that(2)] show ?thesis by simp
  qed
  from same_reading [OF assms this]
  show "json_valid (sent_text (area_value s))" "json_decode (sent_text (area_value s)) = json_decode s" by simp_all
qed

section \<open>Reading a form\<close>

fun field :: "event \<Rightarrow> event list" where
  "field (ETag t as) = (if t = ''input'' \<or> t = ''textarea'' then [ETag t as] else [])"
| "field (EArea v) = [EArea v]"

definition one_line :: "string \<Rightarrow> string" where
  "one_line s = filter (\<lambda>c. c \<noteq> LF \<and> c \<noteq> CR) s"

fun area_text :: "event list \<Rightarrow> string" where
  "area_text (EArea v # es) = sent_text (area_value (unescape v))"
| "area_text es = []"

text \<open>Names and values as they are sent: a text field's value without line ends, a text area's content.\<close>

fun form_data :: "event list \<Rightarrow> bindings" where
  "form_data [] = []"
| "form_data (EArea v # es) = form_data es"
| "form_data (ETag t as # es) = (case map_of as ''name'' of
      None \<Rightarrow> form_data es
    | Some n \<Rightarrow> (unescape n, if t = ''textarea'' then area_text es
         else one_line (unescape (case map_of as ''value'' of Some v \<Rightarrow> v | None \<Rightarrow> []))) # form_data es)"

definition form_of :: "string \<Rightarrow> bindings" where
  "form_of html = form_data (gathered field HText html)"

lemma look_form: "look field HText p = Some (s, es) \<Longrightarrow> form_of (html_of p) = form_data es"
  by (simp add: look_def form_of_def split: if_splits)

lemma Layout_look:
  assumes "templ_laws lib" "look field HText p = Some (HText, es)"
  shows "look field HText (with_children (Layout_html lib title a) p) = Some (HText, es)"
  using assms by (simp add: Layout_html_def with_children_def look_rules)

lemma Defaults_look:
  assumes "templ_laws lib"
  shows "\<exists>es. look field HText (AdminDefaults_body lib d a) = Some (HText, es) \<and> form_data es =
    [(''image'', one_line (df_image d)), (''cpuRequest'', one_line (df_cpuRequest d)),
     (''memoryRequest'', one_line (df_memoryRequest d)), (''cpuLimit'', one_line (df_cpuLimit d)),
     (''memoryLimit'', one_line (df_memoryLimit d)), (''storageSize'', one_line (df_storageSize d)),
     (''gatewayConfig'', sent_text (area_value (df_gatewayConfig d)))]"
  using assms by (simp add: AdminDefaults_body_def look_rules)

lemma EditConfig_look:
  assumes "templ_laws lib"
  shows "\<exists>es. look field HText (InstanceEditConfig_body lib i c f a) = Some (HText, es) \<and> form_data es =
    [(''gatewayConfig'', sent_text (area_value c))]"
  using assms by (simp add: InstanceEditConfig_body_def look_rules)

lemma card_look:
  assumes "templ_laws lib"
  shows "look field HText (nested (InstanceCard_html lib i names t s uid)) = Some (HText, [])"
proof -
  have badge: "look field HText (nested (StatusBadge_html lib i)) = Some (HText, [])"
    using assms by (simp add: StatusBadge_html_def nested_def look_rules badge_class [simplified])
  have links: "look field HText (nested (InstanceLinks_html lib i t s own)) = Some (HText, [])" for own
    using assms by (simp add: InstanceLinks_html_def nested_def look_rules)
  show ?thesis
    unfolding InstanceCard_html_def nested_def [of "GeneratedTemplate x" for x]
    using assms badge links by (cases "names (sp_userId (ci_spec i))") (simp_all add: look_rules)
qed

definition hole_events :: "string \<Rightarrow> event list" where
  "hole_events p = [ETag ''input'' [(''type'', ''text''), (''name'', html_escape (''var_'' @ p)), (''required'', []),
     (''placeholder'', html_escape (''Enter value for '' @ p))]]"

lemma hole_data: "form_data (concat (map hole_events phs) @ es) = map (\<lambda>p. (''var_'' @ p, [])) phs @ form_data es"
proof -
  have "unescape (html_escape (''var_'' @ p)) = ''var_'' @ p" for p by (rule unescape_html_escape)
  then show ?thesis by (induction phs) (simp_all add: hole_events_def one_line_def del: html_escape_simps)
qed

lemma Dashboard_look:
  assumes "templ_laws lib"
  shows "\<exists>es. look field HText (Dashboard_body lib items a h names phs t s uid) = Some (HText, es) \<and> form_data es =
    (if h then [] else map (\<lambda>p. (''var_'' @ p, [])) phs @ [(''gatewayConfigOverride'', [])])"
proof -
  have holes: "look field HText (seq (map (\<lambda>p. seq [
             lit 4 ''<label>'',
             str lib dashboard_templ 26 15 p,
             lit 5 '' <input type=\"text\" name=\"'',
             str lib dashboard_templ 27 48 (''var_'' @ p),
             lit 6 ''\" required placeholder=\"'',
             str lib dashboard_templ 27 96 (''Enter value for '' @ p),
             lit 7 ''\"></label>'']) phs)) = Some (HText, concat (map hole_events phs))"
    using assms by (intro look_map) (simp add: look_rules hole_events_def)
  have cards: "look field HText (seq (map (\<lambda>inst. seq [nested (InstanceCard_html lib inst names t s uid)]) items)) = Some (HText, [])"
  proof -
    have "look field HText (seq (map (\<lambda>inst. seq [nested (InstanceCard_html lib inst names t s uid)]) items))
        = Some (HText, concat (map (\<lambda>_. []) items))"
      using assms by (intro look_map) (simp add: look_simps card_look)
    moreover have "concat (map (\<lambda>_. []) items) = ([] :: event list)" by (induction items) auto
    ultimately show ?thesis by simp
  qed
  have area: "sent_text (area_value []) = []" by (simp add: area_value_def)
  show ?thesis
    using assms holes cards hole_data [of phs] by (cases phs) (simp_all add: Dashboard_body_def look_rules area hole_data)
qed

section \<open>Forms and handlers\<close>

lemma form_of_page:
  assumes "templ_laws lib"
  shows "form_of (html_of (render lib (AdminDefaults d a))) =
      [(''image'', one_line (df_image d)), (''cpuRequest'', one_line (df_cpuRequest d)),
       (''memoryRequest'', one_line (df_memoryRequest d)), (''cpuLimit'', one_line (df_cpuLimit d)),
       (''memoryLimit'', one_line (df_memoryLimit d)), (''storageSize'', one_line (df_storageSize d)),
       (''gatewayConfig'', sent_text (area_value (df_gatewayConfig d)))]"
    "form_of (html_of (render lib (InstanceEditConfig i c f a))) = [(''gatewayConfig'', sent_text (area_value c))]"
    "form_of (html_of (render lib (Dashboard items a h names phs t s uid))) =
      (if h then [] else map (\<lambda>p. (''var_'' @ p, [])) phs @ [(''gatewayConfigOverride'', [])])"
proof -
  have page: "form_of (html_of (GeneratedTemplate (\<lambda>_. seq [with_children (Layout_html lib title a) p]) ctx)) = form_data es"
    if "look field HText p = Some (HText, es)" for title p es ctx
    by (rule look_form) (simp add: look_simps Layout_look [OF assms that])
  show "form_of (html_of (render lib (AdminDefaults d a))) =
      [(''image'', one_line (df_image d)), (''cpuRequest'', one_line (df_cpuRequest d)),
       (''memoryRequest'', one_line (df_memoryRequest d)), (''cpuLimit'', one_line (df_cpuLimit d)),
       (''memoryLimit'', one_line (df_memoryLimit d)), (''storageSize'', one_line (df_storageSize d)),
       (''gatewayConfig'', sent_text (area_value (df_gatewayConfig d)))]"
    using Defaults_look [OF assms, of d a] page by (auto simp: render_def page_component_def AdminDefaults_html_def)
  show "form_of (html_of (render lib (InstanceEditConfig i c f a))) = [(''gatewayConfig'', sent_text (area_value c))]"
    using EditConfig_look [OF assms, of i c f a] page by (auto simp: render_def page_component_def InstanceEditConfig_html_def)
  show "form_of (html_of (render lib (Dashboard items a h names phs t s uid))) =
      (if h then [] else map (\<lambda>p. (''var_'' @ p, [])) phs @ [(''gatewayConfigOverride'', [])])"
    using Dashboard_look [OF assms, of items a h "map_of names" phs t s uid] page
    by (auto simp: render_def page_component_def Dashboard_html_def)
qed

text \<open>Property C14. Sending the edit form unchanged stores what it showed: the handler accepts the text the
  browser sends, line ends changed and all, and stores valid compact JSON that decodes to the same document.\<close>

theorem edit_form_roundtrip:
  assumes "templ_laws lib" "json_valid cfg"
    "rq_form rq = form_of (html_of (render lib (InstanceEditConfig i (prettyJSON cfg) fromPod a)))"
  shows "\<exists>c. json_valid c \<and> json_decode c = json_decode cfg \<and>
    PageUpdateInstanceConfig h rq u =
      orElse (k8s_GetInstance (sv_namespace h) (param rq ''id'')) (\<lambda>_. not_found) (\<lambda>j.
      withUser u (\<lambda>user. if hidden h user j then Ret not_found
        else doneOrElse (k8s_UpdateInstance (with_config c j))
          (\<lambda>_. HTTPError StatusInternalServerError ''failed to update instance config'')
          (Ret (Redirect StatusSeeOther (''/ui/instances/'' @ param rq ''id'')))))"
proof -
  note sent = area_meaning [OF prettyJSON_meaning(1) [OF assms(2)]]
  note c = compactJSON_meaning [OF sent(1)]
  have "formValue rq ''gatewayConfig'' = sent_text (area_value (prettyJSON cfg))"
    using assms(3) by (simp add: form_of_page [OF assms(1)] value_of_def)
  with c sent prettyJSON_meaning(2) [OF assms(2)] show ?thesis
    by (intro exI [of _ "compactJSON (sent_text (area_value (prettyJSON cfg)))"]) (simp add: PageUpdateInstanceConfig_def Let_def cong: if_cong)
qed

text \<open>What a browser sends when \<^verbatim>\<open>[1]\<close> was shown: the line ends are CR LF.\<close>

definition sent_edit :: request where
  "sent_edit = sample_request\<lparr>rq_method := ''POST'', rq_params := [(''id'', ''clawbake'')],
     rq_form := [(''gatewayConfig'', CHR ''['' # CR # LF # ''  1'' @ CR # LF # '']'')]\<rparr>"

lemma shown_one: "prettyJSON ''[1]'' = CHR ''['' # LF # ''  1'' @ LF # '']''" "json_valid ''[1]''"
  by (simp_all add: prettyJSON_def json_indent_def new_line_def LF_def go_std)

lemma edit_form_roundtrip_witness:
  "\<forall>h u. \<exists>c. json_valid c \<and> json_decode c = json_decode ''[1]'' \<and>
    PageUpdateInstanceConfig h sent_edit u =
      orElse (k8s_GetInstance (sv_namespace h) ''clawbake'') (\<lambda>_. not_found) (\<lambda>j.
      withUser u (\<lambda>user. if hidden h user j then Ret not_found
        else doneOrElse (k8s_UpdateInstance (with_config c j))
          (\<lambda>_. HTTPError StatusInternalServerError ''failed to update instance config'')
          (Ret (Redirect StatusSeeOther ''/ui/instances/clawbake''))))"
proof (intro allI)
  fix h u
  have "rq_form sent_edit = form_of (html_of (render sample_templ (InstanceEditConfig sample_instance (prettyJSON ''[1]'') False False)))"
    unfolding form_of_page [OF sample_templ_laws] shown_one by (simp add: sent_edit_def area_value_def skip_LF_def CR_def LF_def)
  moreover have id_param: "param sent_edit ''id'' = ''clawbake''" by (simp add: sent_edit_def value_of_def)
  ultimately show "\<exists>c. json_valid c \<and> json_decode c = json_decode ''[1]'' \<and>
    PageUpdateInstanceConfig h sent_edit u =
      orElse (k8s_GetInstance (sv_namespace h) ''clawbake'') (\<lambda>_. not_found) (\<lambda>j.
      withUser u (\<lambda>user. if hidden h user j then Ret not_found
        else doneOrElse (k8s_UpdateInstance (with_config c j))
          (\<lambda>_. HTTPError StatusInternalServerError ''failed to update instance config'')
          (Ret (Redirect StatusSeeOther ''/ui/instances/clawbake''))))"
    using edit_form_roundtrip [OF sample_templ_laws shown_one(2), of sent_edit sample_instance False False h u]
    by (simp cong: if_cong)
qed

text \<open>Sending the form of the defaults unchanged stores the values it showed, each under its own
  column, and a configuration that means the same when the text sent has no placeholders.\<close>

theorem defaults_form_roundtrip:
  assumes "templ_laws lib" "json_valid cfg" "us_role v = ''admin''"
    "rq_form rq = form_of (html_of (render lib (AdminDefaults (d\<lparr>df_gatewayConfig := prettyJSON cfg\<rparr>) a)))"
    "ExtractPlaceholders (formValue rq ''gatewayConfig'') = []"
  shows "\<exists>c. json_valid c \<and> json_decode c = json_decode cfg \<and>
    PageUpdateDefaults h rq (Some v) =
      rowOrElse (ask (Query (QUpdateDefaults \<lparr>ud_image = one_line (df_image d), ud_cpuRequest = one_line (df_cpuRequest d),
          ud_memoryRequest = one_line (df_memoryRequest d), ud_cpuLimit = one_line (df_cpuLimit d),
          ud_memoryLimit = one_line (df_memoryLimit d), ud_storageSize = one_line (df_storageSize d),
          ud_gatewayConfig = c\<rparr>)) dec_defaultsRow)
        (\<lambda>_. HTTPError StatusInternalServerError ''failed to update defaults'')
        (\<lambda>_. Ret (Redirect StatusSeeOther ''/ui/admin/defaults''))"
proof -
  note sent = area_meaning [OF prettyJSON_meaning(1) [OF assms(2)]]
  note c = compactJSON_meaning [OF sent(1)]
  have "formValue rq ''gatewayConfig'' = sent_text (area_value (prettyJSON cfg))"
    using assms(4) by (simp add: form_of_page [OF assms(1)] value_of_def)
  with c sent assms(3-5) prettyJSON_meaning(2) [OF assms(2)] show ?thesis
    by (intro exI [of _ "compactJSON (sent_text (area_value (prettyJSON cfg)))"])
      (simp add: PageUpdateDefaults_def Let_def withUser_def config_problem_def stored_config_def
        form_of_page [OF assms(1)] value_of_def cong: if_cong)
qed

definition sent_defaults :: request where
  "sent_defaults = sample_request\<lparr>rq_method := ''POST'',
     rq_form := [(''image'', ''openclaw:1''), (''cpuRequest'', []), (''memoryRequest'', []), (''cpuLimit'', []), (''memoryLimit'', []),
       (''storageSize'', ''10Gi''), (''gatewayConfig'', CHR ''['' # CR # LF # ''  1'' @ CR # LF # '']'')]\<rparr>"

lemma sent_defaults_value:
  "formValue sent_defaults ''gatewayConfig'' = [CHR ''['', CHR 0x0D, CHR 0x0A, CHR '' '', CHR '' '', CHR ''1'', CHR 0x0D, CHR 0x0A, CHR '']'']"
  by (simp add: sent_defaults_def value_of_def CR_def LF_def)

lemma one_line_plain: "one_line ''openclaw:1'' = ''openclaw:1''" "one_line ''10Gi'' = ''10Gi''" "one_line [] = []"
  by (simp_all add: one_line_def CR_def LF_def)

lemma defaults_form_roundtrip_witness:
  "\<forall>h. \<exists>c. json_valid c \<and> json_decode c = json_decode ''[1]'' \<and>
    PageUpdateDefaults h sent_defaults (Some (zero_user\<lparr>us_role := ''admin''\<rparr>)) =
      rowOrElse (ask (Query (QUpdateDefaults \<lparr>ud_image = ''openclaw:1'', ud_cpuRequest = [], ud_memoryRequest = [],
          ud_cpuLimit = [], ud_memoryLimit = [], ud_storageSize = ''10Gi'', ud_gatewayConfig = c\<rparr>)) dec_defaultsRow)
        (\<lambda>_. HTTPError StatusInternalServerError ''failed to update defaults'')
        (\<lambda>_. Ret (Redirect StatusSeeOther ''/ui/admin/defaults''))"
proof
  fix h
  define d where "d = zero_default\<lparr>df_image := ''openclaw:1'', df_storageSize := ''10Gi''\<rparr>"
  have "rq_form sent_defaults = form_of (html_of (render sample_templ (AdminDefaults (d\<lparr>df_gatewayConfig := prettyJSON ''[1]''\<rparr>) True)))"
    unfolding form_of_page [OF sample_templ_laws] shown_one
    by (simp add: sent_defaults_def d_def zero_default_def one_line_plain area_value_def skip_LF_def CR_def LF_def)
  moreover have "ExtractPlaceholders (formValue sent_defaults ''gatewayConfig'') = []"
    unfolding sent_defaults_value by code_simp
  ultimately show "\<exists>c. json_valid c \<and> json_decode c = json_decode ''[1]'' \<and>
    PageUpdateDefaults h sent_defaults (Some (zero_user\<lparr>us_role := ''admin''\<rparr>)) =
      rowOrElse (ask (Query (QUpdateDefaults \<lparr>ud_image = ''openclaw:1'', ud_cpuRequest = [], ud_memoryRequest = [],
          ud_cpuLimit = [], ud_memoryLimit = [], ud_storageSize = ''10Gi'', ud_gatewayConfig = c\<rparr>)) dec_defaultsRow)
        (\<lambda>_. HTTPError StatusInternalServerError ''failed to update defaults'')
        (\<lambda>_. Ret (Redirect StatusSeeOther ''/ui/admin/defaults''))"
    using defaults_form_roundtrip [OF sample_templ_laws shown_one(2), of "zero_user\<lparr>us_role := ''admin''\<rparr>" sent_defaults d True h]
    by (simp add: d_def zero_default_def one_line_plain)
qed

text \<open>The form for a new instance asks for every placeholder of the template, under the name by which
  CreateInstance looks it up, and for the override.\<close>

lemma create_form_names:
  assumes "templ_laws lib"
  shows "map fst (form_of (html_of (render lib (Dashboard items a False names phs t s uid))))
    = map (\<lambda>p. ''var_'' @ p) phs @ [''gatewayConfigOverride'']"
  by (simp add: form_of_page [OF assms] comp_def)

end
