(* ===== verification/DeepCopy.thy ===== *)
theory DeepCopy
  imports Types
begin

text \<open>
  \<^verbatim>\<open>api/v1alpha1/zz_generated.deepcopy.go\<close>. Elsewhere in the model a resource is a value. Here it is what it is in
  memory: structs whose slices are addresses of arrays on a heap, so that it shows what a copy shares with the original.
  A pointer is the address of an array and an index into it; what \<^verbatim>\<open>new\<close> returns is an array of length one.
  A \<^verbatim>\<open>DeepCopyInto\<close> is a function from the heap and the receiver to what it writes into \<^verbatim>\<open>*out\<close> and the heap. Those of
  \<^verbatim>\<open>metav1.ObjectMeta\<close>, \<^verbatim>\<open>metav1.ListMeta\<close> and \<^verbatim>\<open>metav1.Condition\<close>, and what these refer to, belong to a library and are
  parameters; of them the contract of all such functions is assumed, the locale \<open>deep_copier\<close>.
\<close>

section \<open>Memory\<close>

record 'k heap =
  hp_next :: nat
  hp_cells :: "nat \<Rightarrow> 'k"

record slice =
  sl_at :: nat
  sl_off :: nat
  sl_len :: nat

type_synonym ptr = "(nat \<times> nat) option"
type_synonym ('k, 'a) copier = "'k heap \<Rightarrow> 'a \<Rightarrow> 'a \<times> 'k heap"

definition alloc :: "'k \<Rightarrow> 'k heap \<Rightarrow> nat \<times> 'k heap" where
  "alloc k h = (hp_next h, h\<lparr>hp_next := hp_next h + 1, hp_cells := (hp_cells h)(hp_next h := k)\<rparr>)"

text \<open>An array of elements is one kind of cell: how it is put into a cell and read back.\<close>

record ('k, 'a) array =
  ar_cell :: "'a list \<Rightarrow> 'k"
  ar_items :: "'k \<Rightarrow> 'a list"

definition array_ok :: "('k, 'a) array \<Rightarrow> bool" where
  "array_ok A \<longleftrightarrow> (\<forall>xs. ar_items A (ar_cell A xs) = xs)"

definition write_item :: "('k, 'a) array \<Rightarrow> nat \<Rightarrow> nat \<Rightarrow> 'a \<Rightarrow> 'k heap \<Rightarrow> 'k heap" where
  "write_item A at i x h = h\<lparr>hp_cells := (hp_cells h)(at := ar_cell A ((ar_items A (hp_cells h at))[i := x]))\<rparr>"

definition items :: "('k, 'a) array \<Rightarrow> (nat \<Rightarrow> 'k) \<Rightarrow> slice \<Rightarrow> 'a list" where
  "items A c s = take (sl_len s) (drop (sl_off s) (ar_items A (c (sl_at s))))"

section \<open>The contract of a deep copy\<close>

text \<open>What data in memory means, if no address dangles, and the addresses it is read from.\<close>

record ('k, 'a, 'v) view =
  vw_value :: "(nat \<Rightarrow> 'k) \<Rightarrow> 'a \<Rightarrow> 'v option"
  vw_refs :: "(nat \<Rightarrow> 'k) \<Rightarrow> 'a \<Rightarrow> nat set"

text \<open>The meaning depends on nothing but the cells it is read from. A copy means the same, reads no cell that
  existed before, and no such cell was written.\<close>

locale deep_copier =
  fixes view :: "('k, 'a, 'v) view" and copy :: "('k, 'a) copier"
  assumes local: "\<And>c c' a. (\<And>r. r \<in> vw_refs view c a \<Longrightarrow> c' r = c r) \<Longrightarrow>
      vw_value view c' a = vw_value view c a \<and> vw_refs view c' a = vw_refs view c a"
    and copied: "\<And>h a y. vw_value view (hp_cells h) a = Some y \<Longrightarrow> vw_refs view (hp_cells h) a \<subseteq> {..<hp_next h} \<Longrightarrow>
      \<exists>a' h'. copy h a = (a', h') \<and> hp_next h \<le> hp_next h' \<and> (\<forall>r < hp_next h. hp_cells h' r = hp_cells h r)
        \<and> vw_value view (hp_cells h') a' = Some y \<and> vw_refs view (hp_cells h') a' \<subseteq> {hp_next h..<hp_next h'}"
begin

text \<open>Whatever is written later to memory that did not exist before the copy leaves the original, and whatever is
  written to memory that existed leaves the copy.\<close>

lemma isolated:
  assumes "vw_value view (hp_cells h) a = Some y" "vw_refs view (hp_cells h) a \<subseteq> {..<hp_next h}" "copy h a = (a', h')"
  shows "(\<forall>r < hp_next h. c r = hp_cells h r) \<Longrightarrow> vw_value view c a = Some y"
    "(\<forall>r \<ge> hp_next h. c r = hp_cells h' r) \<Longrightarrow> vw_value view c a' = Some y"
proof -
  assume "\<forall>r < hp_next h. c r = hp_cells h r"
  then have "r \<in> vw_refs view (hp_cells h) a \<Longrightarrow> c r = hp_cells h r" for r using assms(2) by auto
  then show "vw_value view c a = Some y" using local [of "hp_cells h" a c] assms(1) by simp
next
  assume c: "\<forall>r \<ge> hp_next h. c r = hp_cells h' r"
  from copied [OF assms(1,2)] assms(3) have "vw_value view (hp_cells h') a' = Some y"
    "vw_refs view (hp_cells h') a' \<subseteq> {hp_next h..<hp_next h'}" by auto
  moreover from this(2) c have "r \<in> vw_refs view (hp_cells h') a' \<Longrightarrow> c r = hp_cells h' r" for r by auto
  ultimately show "vw_value view c a' = Some y" using local [of "hp_cells h'" a' c] by simp
qed

text \<open>A copy made later, when the original's cells are still as they were.\<close>

lemma copied_later:
  assumes "vw_value view c a = Some y" "vw_refs view c a \<subseteq> {..<n}" "n \<le> hp_next h" "\<forall>r < n. hp_cells h r = c r"
    "copy h a = (a', h')"
  shows "hp_next h \<le> hp_next h'" "\<forall>r < hp_next h. hp_cells h' r = hp_cells h r"
    "vw_value view (hp_cells h') a' = Some y" "vw_refs view (hp_cells h') a' \<subseteq> {hp_next h..<hp_next h'}"
proof -
  have same: "vw_value view (hp_cells h) a = vw_value view c a \<and> vw_refs view (hp_cells h) a = vw_refs view c a"
    by (rule local) (use assms(2,4) in auto)
  then have "vw_refs view (hp_cells h) a \<subseteq> {..<hp_next h}" using assms(2,3) by fastforce
  from copied [OF _ this] same assms(1,5) show "hp_next h \<le> hp_next h'" "\<forall>r < hp_next h. hp_cells h' r = hp_cells h r"
    "vw_value view (hp_cells h') a' = Some y" "vw_refs view (hp_cells h') a' \<subseteq> {hp_next h..<hp_next h'}"
    by auto
qed

end

section \<open>Slices and pointers\<close>

definition slice_view :: "('k, 'a) array \<Rightarrow> ('k, 'a, 'v) view \<Rightarrow> ('k, slice option, 'v list option) view" where
  "slice_view A v = \<lparr>
     vw_value = \<lambda>c s. case s of None \<Rightarrow> Some None
       | Some s \<Rightarrow> if sl_off s + sl_len s \<le> length (ar_items A (c (sl_at s)))
           then map_option Some (those (map (vw_value v c) (items A c s))) else None,
     vw_refs = \<lambda>c s. case s of None \<Rightarrow> {} | Some s \<Rightarrow> insert (sl_at s) (\<Union>x \<in> set (items A c s). vw_refs v c x)\<rparr>"

text \<open>\<^verbatim>\<open>for i := range *in { (*in)[i].DeepCopyInto(&(*out)[i]) }\<close>\<close>

primrec copy_items :: "('k, 'a) array \<Rightarrow> ('k, 'a) copier \<Rightarrow> slice \<Rightarrow> nat \<Rightarrow> 'k heap \<Rightarrow> nat \<Rightarrow> 'k heap" where
  "copy_items A copy s at h 0 = h"
| "copy_items A copy s at h (Suc i) =
     (let h = copy_items A copy s at h i;
          (x, h) = copy h (items A (hp_cells h) s ! i)
      in write_item A at i x h)"

text \<open>\<^verbatim>\<open>if in.Items != nil { *out = make([]T, len( *in)) ... }\<close>: a slice that is nil stays nil.\<close>

definition copy_slice :: "('k, 'a) array \<Rightarrow> 'a \<Rightarrow> ('k, 'a) copier \<Rightarrow> ('k, slice option) copier" where
  "copy_slice A zero copy h src = (case src of
     None \<Rightarrow> (src, h)
   | Some s \<Rightarrow>
       let (at, h) = alloc (ar_cell A (replicate (sl_len s) zero)) h
       in (Some \<lparr>sl_at = at, sl_off = 0, sl_len = sl_len s\<rparr>, copy_items A copy s at h (sl_len s)))"

text \<open>\<^verbatim>\<open>if in == nil { return nil }; out := new(T); in.DeepCopyInto(out); return out\<close>\<close>

definition DeepCopy :: "('k, 'a) array \<Rightarrow> 'a \<Rightarrow> ('k, 'a) copier \<Rightarrow> ('k, ptr) copier" where
  "DeepCopy A zero copy h src = (case src of
     None \<Rightarrow> (None, h)
   | Some (a, i) \<Rightarrow>
       let (out, h) = alloc (ar_cell A [zero]) h;
           (x, h) = copy h (ar_items A (hp_cells h a) ! i)
       in (Some (out, 0), write_item A out 0 x h))"

definition ptr_slice :: "ptr \<Rightarrow> slice option" where
  "ptr_slice p = map_option (\<lambda>(a, i). \<lparr>sl_at = a, sl_off = i, sl_len = 1\<rparr>) p"

definition ptr_view :: "('k, 'a) array \<Rightarrow> ('k, 'a, 'v) view \<Rightarrow> ('k, ptr, 'v list option) view" where
  "ptr_view A v = \<lparr>vw_value = \<lambda>c p. vw_value (slice_view A v) c (ptr_slice p), vw_refs = \<lambda>c p. vw_refs (slice_view A v) c (ptr_slice p)\<rparr>"

lemma those_map_eq: "those (map f xs) = Some ys \<longleftrightarrow> length xs = length ys \<and> (\<forall>i < length xs. f (xs ! i) = Some (ys ! i))"
proof (induction xs arbitrary: ys)
  case (Cons x xs)
  show ?case
  proof (cases ys)
    case (Cons y zs)
    show ?thesis using Cons.IH [of zs] by (auto simp: Cons less_Suc_eq_0_disj split: option.splits)
  qed (auto split: option.splits)
qed auto

lemma slice_local:
  assumes "deep_copier v copy" "\<And>r. r \<in> vw_refs (slice_view A v) c s \<Longrightarrow> c' r = c r"
  shows "vw_value (slice_view A v) c' s = vw_value (slice_view A v) c s \<and> vw_refs (slice_view A v) c' s = vw_refs (slice_view A v) c s"
proof (cases s)
  case (Some t)
  have at: "c' (sl_at t) = c (sl_at t)" using assms(2) by (simp add: Some slice_view_def)
  then have items: "items A c' t = items A c t" by (simp add: items_def)
  have "vw_value v c' x = vw_value v c x \<and> vw_refs v c' x = vw_refs v c x" if "x \<in> set (items A c t)" for x
    by (rule deep_copier.local [OF assms(1)]) (use assms(2) that in \<open>auto simp: Some slice_view_def\<close>)
  then show ?thesis by (simp add: Some slice_view_def at items cong: map_cong)
qed (simp add: slice_view_def)

text \<open>The loop after \<open>i\<close> elements, for an array allocated at \<open>at\<close> when \<open>c\<close> were the cells.\<close>

definition copied_to :: "('k, 'a) array \<Rightarrow> ('k, 'a, 'v) view \<Rightarrow> (nat \<Rightarrow> 'k) \<Rightarrow> nat \<Rightarrow> 'v list \<Rightarrow> 'k heap \<Rightarrow> nat \<Rightarrow> bool" where
  "copied_to A v c at ys h i \<longleftrightarrow> at < hp_next h \<and> (\<forall>r < at. hp_cells h r = c r) \<and>
     (\<exists>zs. hp_cells h at = ar_cell A zs \<and> length zs = length ys \<and>
        (\<forall>j < i. vw_value v (hp_cells h) (zs ! j) = Some (ys ! j) \<and> vw_refs v (hp_cells h) (zs ! j) \<subseteq> {at<..<hp_next h}))"

lemma copied_step:
  assumes v: "deep_copier v copy" and A: "array_ok A" and i: "i < length ys" and h: "copied_to A v c at ys h i"
    and x: "vw_value v c x = Some (ys ! i)" "vw_refs v c x \<subseteq> {..<at}" and copy: "copy h x = (x', h')"
  shows "copied_to A v c at ys (write_item A at i x' h') (Suc i)"
proof -
  obtain zs where z: "hp_cells h at = ar_cell A zs" "length zs = length ys"
    "\<And>j. j < i \<Longrightarrow> vw_value v (hp_cells h) (zs ! j) = Some (ys ! j) \<and> vw_refs v (hp_cells h) (zs ! j) \<subseteq> {at<..<hp_next h}"
    and old: "\<forall>r < at. hp_cells h r = c r" "at < hp_next h"
    using h by (auto simp: copied_to_def)
  note h' = deep_copier.copied_later [OF v x less_imp_le [OF old(2)] old(1) copy]
  define w where "w = write_item A at i x' h'"
  have w: "hp_next w = hp_next h'" "\<And>r. r \<noteq> at \<Longrightarrow> hp_cells w r = hp_cells h' r" "hp_cells w at = ar_cell A (zs[i := x'])"
    using A z(1) h'(2) old(2) by (simp_all add: w_def write_item_def array_ok_def)
  have "vw_value v (hp_cells w) (zs[i := x'] ! j) = Some (ys ! j) \<and> vw_refs v (hp_cells w) (zs[i := x'] ! j) \<subseteq> {at<..<hp_next w}"
    if "j < Suc i" for j
  proof (cases "j = i")
    case True
    have "vw_value v (hp_cells w) x' = vw_value v (hp_cells h') x' \<and> vw_refs v (hp_cells w) x' = vw_refs v (hp_cells h') x'"
      by (rule deep_copier.local [OF v]) (use w(2) h'(4) old(2) in auto)
    with h' True i z(2) old(2) show ?thesis by (auto simp: w(1))
  next
    case False
    with that have j: "j < i" by simp
    have "vw_value v (hp_cells w) (zs ! j) = vw_value v (hp_cells h) (zs ! j) \<and> vw_refs v (hp_cells w) (zs ! j) = vw_refs v (hp_cells h) (zs ! j)"
      by (rule deep_copier.local [OF v]) (use w(2) h'(2) z(3) [OF j] in \<open>auto simp: subset_iff\<close>)
    with z(3) [OF j] h'(1) False show ?thesis by (auto simp: w(1) subset_iff)
  qed
  then show ?thesis
    using w h' old z(2) unfolding copied_to_def w_def [symmetric] by (auto intro!: exI [of _ "zs[i := x']"])
qed

lemma copied_items:
  assumes v: "deep_copier v copy" and A: "array_ok A" and n: "n \<le> length ys" and h: "copied_to A v c at ys h 0"
    and s: "sl_at s < at" and xs: "items A c s = xs" "length xs = length ys"
      "\<And>i. i < length ys \<Longrightarrow> vw_value v c (xs ! i) = Some (ys ! i) \<and> vw_refs v c (xs ! i) \<subseteq> {..<at}"
  shows "copied_to A v c at ys (copy_items A copy s at h n) n \<and> hp_next h \<le> hp_next (copy_items A copy s at h n)"
  using n
proof (induction n)
  case (Suc n)
  define k where "k = copy_items A copy s at h n"
  have k: "copied_to A v c at ys k n" "hp_next h \<le> hp_next k" using Suc by (simp_all add: k_def)
  then have old: "\<forall>r < at. hp_cells k r = c r" "at < hp_next k" by (simp_all add: copied_to_def)
  then have at: "items A (hp_cells k) s = xs" using s xs(1) by (simp add: items_def)
  obtain x' h' where copy: "copy k (xs ! n) = (x', h')" by (cases "copy k (xs ! n)")
  have x: "vw_value v c (xs ! n) = Some (ys ! n)" "vw_refs v c (xs ! n) \<subseteq> {..<at}" using xs(3) [of n] Suc.prems by auto
  have "hp_next k \<le> hp_next h'" by (rule deep_copier.copied_later [OF v x less_imp_le [OF old(2)] old(1) copy])
  with copied_step [OF v A _ k(1) x copy] Suc.prems k(2) copy at show ?case
    by (simp add: k_def [symmetric] write_item_def)
qed (use h in simp)

lemma slice_valid:
  "vw_value (slice_view A v) c (Some s) = Some y \<longleftrightarrow> (\<exists>ys. y = Some ys \<and> sl_off s + sl_len s \<le> length (ar_items A (c (sl_at s)))
     \<and> length ys = sl_len s \<and> (\<forall>i < sl_len s. vw_value v c (items A c s ! i) = Some (ys ! i)))"
  by (auto simp: slice_view_def items_def those_map_eq split: if_splits)

lemma slice_refs: "vw_refs (slice_view A v) c (Some s) = insert (sl_at s) (\<Union>x \<in> set (items A c s). vw_refs v c x)"
  by (simp add: slice_view_def)

lemma deep_slice:
  assumes v: "deep_copier v copy" and A: "array_ok A"
  shows "deep_copier (slice_view A v) (copy_slice A zero copy)"
proof
  fix c c' :: "nat \<Rightarrow> 'a" and s
  assume "\<And>r. r \<in> vw_refs (slice_view A v) c s \<Longrightarrow> c' r = c r"
  then show "vw_value (slice_view A v) c' s = vw_value (slice_view A v) c s \<and> vw_refs (slice_view A v) c' s = vw_refs (slice_view A v) c s"
    by (rule slice_local [OF v])
next
  fix h :: "'a heap" and src y
  assume val: "vw_value (slice_view A v) (hp_cells h) src = Some y"
    and refs: "vw_refs (slice_view A v) (hp_cells h) src \<subseteq> {..<hp_next h}"
  show "\<exists>a' h'. copy_slice A zero copy h src = (a', h') \<and> hp_next h \<le> hp_next h' \<and> (\<forall>r < hp_next h. hp_cells h' r = hp_cells h r)
      \<and> vw_value (slice_view A v) (hp_cells h') a' = Some y \<and> vw_refs (slice_view A v) (hp_cells h') a' \<subseteq> {hp_next h..<hp_next h'}"
  proof (cases src)
    case None
    then show ?thesis using val by (auto simp: copy_slice_def slice_view_def)
  next
    case (Some s)
    then obtain ys where ys: "y = Some ys" "length ys = sl_len s" "sl_off s + sl_len s \<le> length (ar_items A (hp_cells h (sl_at s)))"
      "\<And>i. i < sl_len s \<Longrightarrow> vw_value v (hp_cells h) (items A (hp_cells h) s ! i) = Some (ys ! i)"
      using val by (auto simp: slice_valid)
    have len: "length (items A (hp_cells h) s) = sl_len s" using ys(3) by (simp add: items_def)
    obtain at k where k: "alloc (ar_cell A (replicate (sl_len s) zero)) h = (at, k)" by (cases "alloc (ar_cell A (replicate (sl_len s) zero)) h")
    then have at: "at = hp_next h" "hp_next k = hp_next h + 1" "hp_cells k = (hp_cells h)(at := ar_cell A (replicate (sl_len s) zero))"
      by (auto simp: alloc_def)
    have "vw_refs v (hp_cells h) (items A (hp_cells h) s ! i) \<subseteq> {..<at}" if "i < sl_len s" for i
    proof -
      have "items A (hp_cells h) s ! i \<in> set (items A (hp_cells h) s)" using that len by simp
      then show ?thesis using refs by (simp add: Some slice_refs at(1) UN_subset_iff)
    qed
    moreover have "copied_to A v (hp_cells h) at ys k 0" using ys(2) by (auto simp: copied_to_def at)
    ultimately have "copied_to A v (hp_cells h) at ys (copy_items A copy s at k (sl_len s)) (sl_len s)
        \<and> hp_next k \<le> hp_next (copy_items A copy s at k (sl_len s))"
      using ys len refs by (intro copied_items [OF v A, where xs = "items A (hp_cells h) s"]) (auto simp: Some slice_refs at(1))
    then show ?thesis
      using A k ys at unfolding Some ys(1) copied_to_def copy_slice_def
      by (fastforce simp: slice_valid slice_refs items_def array_ok_def in_set_conv_nth subset_iff)
  qed
qed

text \<open>A pointer is copied as a slice of length one is.\<close>

lemma DeepCopy_slice:
  assumes "array_ok A" "vw_value (ptr_view A v) (hp_cells h) p = Some y" "vw_refs (ptr_view A v) (hp_cells h) p \<subseteq> {..<hp_next h}"
  shows "copy_slice A zero copy h (ptr_slice p) = (ptr_slice (fst (DeepCopy A zero copy h p)), snd (DeepCopy A zero copy h p))"
proof (cases p)
  case (Some ai)
  obtain a i where p: "p = Some (a, i)" using Some by (cases ai) auto
  with assms have i: "i < length (ar_items A (hp_cells h a))" and a: "a \<noteq> hp_next h"
    by (auto simp: ptr_view_def ptr_slice_def slice_valid slice_refs)
  then show ?thesis
    by (simp add: p copy_slice_def DeepCopy_def ptr_slice_def alloc_def items_def take_Suc_conv_app_nth hd_drop_conv_nth take_Suc split: prod.split)
qed (simp add: copy_slice_def DeepCopy_def ptr_slice_def)

lemma deep_ptr:
  assumes v: "deep_copier v copy" and A: "array_ok A"
  shows "deep_copier (ptr_view A v) (DeepCopy A zero copy)"
proof
  fix c c' :: "nat \<Rightarrow> 'a" and p
  assume "\<And>r. r \<in> vw_refs (ptr_view A v) c p \<Longrightarrow> c' r = c r"
  then show "vw_value (ptr_view A v) c' p = vw_value (ptr_view A v) c p \<and> vw_refs (ptr_view A v) c' p = vw_refs (ptr_view A v) c p"
    using slice_local [OF v, of A c "ptr_slice p" c'] by (simp add: ptr_view_def)
next
  fix h :: "'a heap" and p y
  assume p: "vw_value (ptr_view A v) (hp_cells h) p = Some y" "vw_refs (ptr_view A v) (hp_cells h) p \<subseteq> {..<hp_next h}"
  then show "\<exists>a' h'. DeepCopy A zero copy h p = (a', h') \<and> hp_next h \<le> hp_next h' \<and> (\<forall>r < hp_next h. hp_cells h' r = hp_cells h r)
      \<and> vw_value (ptr_view A v) (hp_cells h') a' = Some y \<and> vw_refs (ptr_view A v) (hp_cells h') a' \<subseteq> {hp_next h..<hp_next h'}"
    using deep_copier.copied [OF deep_slice [OF v A], of h "ptr_slice p" y zero] DeepCopy_slice [OF A p, of zero copy]
    by (auto simp: ptr_view_def intro!: exI [of _ "fst (DeepCopy A zero copy h p)"] exI [of _ "snd (DeepCopy A zero copy h p)"])
qed

text \<open>Copying without addresses is assignment.\<close>

definition flat :: "('k, 'a, 'a) view" where
  "flat = \<lparr>vw_value = \<lambda>_. Some, vw_refs = \<lambda>_ _. {}\<rparr>"

lemma deep_flat: "(\<And>h a. copy h a = (a, h)) \<Longrightarrow> deep_copier flat copy"
  by unfold_locales (auto simp: flat_def)

section \<open>Structs\<close>

text \<open>A struct whose part \<open>get\<close> has addresses, the rest being flat; and two such parts, copied one after the other.\<close>

definition part_view :: "('s \<Rightarrow> 'r) \<Rightarrow> ('s \<Rightarrow> 'a) \<Rightarrow> ('k, 'a, 'v) view \<Rightarrow> ('k, 's, 'r \<times> 'v) view" where
  "part_view flds get v = \<lparr>vw_value = \<lambda>c s. map_option (Pair (flds s)) (vw_value v c (get s)), vw_refs = \<lambda>c s. vw_refs v c (get s)\<rparr>"

definition pair_view :: "('k, 'a, 'v) view \<Rightarrow> ('k, 'b, 'w) view \<Rightarrow> ('k, 'a \<times> 'b, 'v \<times> 'w) view" where
  "pair_view v w = \<lparr>
     vw_value = \<lambda>c (a, b). case vw_value v c a of None \<Rightarrow> None | Some x \<Rightarrow> map_option (Pair x) (vw_value w c b),
     vw_refs = \<lambda>c (a, b). vw_refs v c a \<union> vw_refs w c b\<rparr>"

definition copy_pair :: "('k, 'a) copier \<Rightarrow> ('k, 'b) copier \<Rightarrow> ('k, 'a \<times> 'b) copier" where
  "copy_pair f g h = (\<lambda>(a, b). let (a, h) = f h a; (b, h) = g h b in ((a, b), h))"

lemma deep_part:
  assumes v: "deep_copier v copy" and get: "\<And>a s. get (upd a s) = a" "\<And>a s. flds (upd a s) = flds s"
    and eq: "\<And>h s. copy' h s = (let (a, h) = copy h (get s) in (upd a s, h))"
  shows "deep_copier (part_view flds get v) copy'"
proof
  fix c c' :: "nat \<Rightarrow> 'a" and s
  assume "\<And>r. r \<in> vw_refs (part_view flds get v) c s \<Longrightarrow> c' r = c r"
  then show "vw_value (part_view flds get v) c' s = vw_value (part_view flds get v) c s
      \<and> vw_refs (part_view flds get v) c' s = vw_refs (part_view flds get v) c s"
    using deep_copier.local [OF v, of c "get s" c'] by (simp add: part_view_def)
next
  fix h :: "'a heap" and s y
  assume s: "vw_value (part_view flds get v) (hp_cells h) s = Some y" "vw_refs (part_view flds get v) (hp_cells h) s \<subseteq> {..<hp_next h}"
  then obtain z where "vw_value v (hp_cells h) (get s) = Some z" "y = (flds s, z)" by (auto simp: part_view_def)
  with deep_copier.copied [OF v this(1)] s(2)
  show "\<exists>s' h'. copy' h s = (s', h') \<and> hp_next h \<le> hp_next h' \<and> (\<forall>r < hp_next h. hp_cells h' r = hp_cells h r)
      \<and> vw_value (part_view flds get v) (hp_cells h') s' = Some y \<and> vw_refs (part_view flds get v) (hp_cells h') s' \<subseteq> {hp_next h..<hp_next h'}"
    by (auto simp: part_view_def eq get)
qed

lemma deep_pair:
  assumes v: "deep_copier v f" and w: "deep_copier w g"
  shows "deep_copier (pair_view v w) (copy_pair f g)"
proof
  fix c c' :: "nat \<Rightarrow> 'a" and s
  assume "\<And>r. r \<in> vw_refs (pair_view v w) c s \<Longrightarrow> c' r = c r"
  then show "vw_value (pair_view v w) c' s = vw_value (pair_view v w) c s \<and> vw_refs (pair_view v w) c' s = vw_refs (pair_view v w) c s"
    using deep_copier.local [OF v, of c "fst s" c'] deep_copier.local [OF w, of c "snd s" c']
    by (auto simp: pair_view_def split: prod.splits option.splits)
next
  fix h :: "'a heap" and s y
  assume s: "vw_value (pair_view v w) (hp_cells h) s = Some y" "vw_refs (pair_view v w) (hp_cells h) s \<subseteq> {..<hp_next h}"
  obtain a b where ab: "s = (a, b)" by (cases s) auto
  with s(1) obtain x z where xz: "vw_value v (hp_cells h) a = Some x" "vw_value w (hp_cells h) b = Some z" "y = (x, z)"
    by (auto simp: pair_view_def split: option.splits)
  have refs: "vw_refs v (hp_cells h) a \<subseteq> {..<hp_next h}" "vw_refs w (hp_cells h) b \<subseteq> {..<hp_next h}"
    using s(2) by (simp_all add: ab pair_view_def)
  obtain a' k b' h' where c: "f h a = (a', k)" "g k b = (b', h')" by (metis surj_pair)
  have f: "hp_next h \<le> hp_next k" "\<forall>r < hp_next h. hp_cells k r = hp_cells h r" "vw_value v (hp_cells k) a' = Some x"
    "vw_refs v (hp_cells k) a' \<subseteq> {hp_next h..<hp_next k}"
    using deep_copier.copied [OF v xz(1) refs(1)] c(1) by auto
  note g = deep_copier.copied_later [OF w xz(2) refs(2) f(1,2) c(2)]
  have "vw_value v (hp_cells h') a' = vw_value v (hp_cells k) a' \<and> vw_refs v (hp_cells h') a' = vw_refs v (hp_cells k) a'"
    by (rule deep_copier.local [OF v]) (use g(2) f(4) in auto)
  then show "\<exists>s' h'. copy_pair f g h s = (s', h') \<and> hp_next h \<le> hp_next h' \<and> (\<forall>r < hp_next h. hp_cells h' r = hp_cells h r)
      \<and> vw_value (pair_view v w) (hp_cells h') s' = Some y \<and> vw_refs (pair_view v w) (hp_cells h') s' \<subseteq> {hp_next h..<hp_next h'}"
    using f g c by (auto simp: copy_pair_def ab xz(3) pair_view_def subset_iff intro!: exI [of _ a'])
qed

section \<open>The resource in memory\<close>

record type_meta =
  tm_kind :: string
  tm_apiVersion :: string

record gstatus =
  gs_phase :: string
  gs_namespace :: string
  gs_conditions :: "slice option"

record 'm ginstance =
  gi_type :: type_meta
  gi_meta :: 'm
  gi_spec :: claw_spec
  gi_status :: gstatus

record 'l ginstance_list =
  gl_type :: type_meta
  gl_meta :: 'l
  gl_items :: "slice option"

datatype ('m, 'l, 'c, 'x) cell =
  CInstances "'m ginstance list"
| CLists "'l ginstance_list list"
| CStatuses "gstatus list"
| CConditions "'c list"
| CSpecs "claw_spec list"
| CResources "claw_resources list"
| CResourceLists "resource_list list"
| CStorages "claw_storage list"
| CLibrary 'x

definition instances :: "(('m, 'l, 'c, 'x) cell, 'm ginstance) array" where
  "instances = \<lparr>ar_cell = CInstances, ar_items = \<lambda>k. case k of CInstances xs \<Rightarrow> xs | _ \<Rightarrow> []\<rparr>"
definition lists :: "(('m, 'l, 'c, 'x) cell, 'l ginstance_list) array" where
  "lists = \<lparr>ar_cell = CLists, ar_items = \<lambda>k. case k of CLists xs \<Rightarrow> xs | _ \<Rightarrow> []\<rparr>"
definition statuses :: "(('m, 'l, 'c, 'x) cell, gstatus) array" where
  "statuses = \<lparr>ar_cell = CStatuses, ar_items = \<lambda>k. case k of CStatuses xs \<Rightarrow> xs | _ \<Rightarrow> []\<rparr>"
definition conditions :: "(('m, 'l, 'c, 'x) cell, 'c) array" where
  "conditions = \<lparr>ar_cell = CConditions, ar_items = \<lambda>k. case k of CConditions xs \<Rightarrow> xs | _ \<Rightarrow> []\<rparr>"
definition specs :: "(('m, 'l, 'c, 'x) cell, claw_spec) array" where
  "specs = \<lparr>ar_cell = CSpecs, ar_items = \<lambda>k. case k of CSpecs xs \<Rightarrow> xs | _ \<Rightarrow> []\<rparr>"
definition resourcess :: "(('m, 'l, 'c, 'x) cell, claw_resources) array" where
  "resourcess = \<lparr>ar_cell = CResources, ar_items = \<lambda>k. case k of CResources xs \<Rightarrow> xs | _ \<Rightarrow> []\<rparr>"
definition resource_lists :: "(('m, 'l, 'c, 'x) cell, resource_list) array" where
  "resource_lists = \<lparr>ar_cell = CResourceLists, ar_items = \<lambda>k. case k of CResourceLists xs \<Rightarrow> xs | _ \<Rightarrow> []\<rparr>"
definition storages :: "(('m, 'l, 'c, 'x) cell, claw_storage) array" where
  "storages = \<lparr>ar_cell = CStorages, ar_items = \<lambda>k. case k of CStorages xs \<Rightarrow> xs | _ \<Rightarrow> []\<rparr>"

lemma arrays_ok [simp]:
  "array_ok instances" "array_ok lists" "array_ok statuses" "array_ok conditions" "array_ok specs" "array_ok resourcess"
  "array_ok resource_lists" "array_ok storages"
  by (simp_all add: array_ok_def instances_def lists_def statuses_def conditions_def specs_def resourcess_def
      resource_lists_def storages_def)

text \<open>The zero values \<^verbatim>\<open>new\<close> and \<^verbatim>\<open>make\<close> put there.\<close>

definition zero_resource_list :: resource_list where "zero_resource_list = \<lparr>rl_cpu = [], rl_memory = []\<rparr>"
definition zero_resources :: claw_resources where
  "zero_resources = \<lparr>cr_requests = zero_resource_list, cr_limits = zero_resource_list\<rparr>"
definition zero_storage :: claw_storage where "zero_storage = \<lparr>cs_size = [], cs_storageClass = []\<rparr>"
definition zero_spec :: claw_spec where
  "zero_spec = \<lparr>sp_userId = [], sp_image = [], sp_gatewayToken = [], sp_gatewayConfig = [], sp_configGeneration = 0,
     sp_resources = zero_resources, sp_storage = zero_storage\<rparr>"
definition zero_type :: type_meta where "zero_type = \<lparr>tm_kind = [], tm_apiVersion = []\<rparr>"
definition zero_status :: gstatus where "zero_status = \<lparr>gs_phase = [], gs_namespace = [], gs_conditions = None\<rparr>"

section \<open>The library's types\<close>

record ('m, 'l, 'c, 'x) meta_lib =
  ml_ObjectMeta :: "(('m, 'l, 'c, 'x) cell, 'm) copier"
  ml_ListMeta :: "(('m, 'l, 'c, 'x) cell, 'l) copier"
  ml_Condition :: "(('m, 'l, 'c, 'x) cell, 'c) copier"
  ml_zeroObjectMeta :: 'm
  ml_zeroListMeta :: 'l
  ml_zeroCondition :: 'c

record ('m, 'l, 'c, 'x, 'vm, 'vl, 'vc) meta_view =
  mv_ObjectMeta :: "(('m, 'l, 'c, 'x) cell, 'm, 'vm) view"
  mv_ListMeta :: "(('m, 'l, 'c, 'x) cell, 'l, 'vl) view"
  mv_Condition :: "(('m, 'l, 'c, 'x) cell, 'c, 'vc) view"

definition meta_laws :: "('m, 'l, 'c, 'x) meta_lib \<Rightarrow> ('m, 'l, 'c, 'x, 'vm, 'vl, 'vc) meta_view \<Rightarrow> bool" where
  "meta_laws lib mv \<longleftrightarrow> deep_copier (mv_ObjectMeta mv) (ml_ObjectMeta lib) \<and> deep_copier (mv_ListMeta mv) (ml_ListMeta lib)
     \<and> deep_copier (mv_Condition mv) (ml_Condition lib)"

section \<open>The generated functions\<close>

definition ResourceList_DeepCopyInto :: "('k, resource_list) copier" where
  "ResourceList_DeepCopyInto h src = (src, h)"

definition ClawInstanceStorage_DeepCopyInto :: "('k, claw_storage) copier" where
  "ClawInstanceStorage_DeepCopyInto h src = (src, h)"

definition ClawInstanceResources_DeepCopyInto :: "('k, claw_resources) copier" where
  "ClawInstanceResources_DeepCopyInto h src =
     (let out = src; out = out\<lparr>cr_requests := cr_requests src\<rparr> in (out\<lparr>cr_limits := cr_limits src\<rparr>, h))"

definition ClawInstanceSpec_DeepCopyInto :: "('k, claw_spec) copier" where
  "ClawInstanceSpec_DeepCopyInto h src =
     (let out = src; out = out\<lparr>sp_resources := sp_resources src\<rparr> in (out\<lparr>sp_storage := sp_storage src\<rparr>, h))"

definition ClawInstanceStatus_DeepCopyInto :: "('m, 'l, 'c, 'x) meta_lib \<Rightarrow> (('m, 'l, 'c, 'x) cell, gstatus) copier" where
  "ClawInstanceStatus_DeepCopyInto lib h src =
     (let out = src;
          (cs, h) = copy_slice conditions (ml_zeroCondition lib) (ml_Condition lib) h (gs_conditions src)
      in (out\<lparr>gs_conditions := cs\<rparr>, h))"

definition ClawInstance_DeepCopyInto :: "('m, 'l, 'c, 'x) meta_lib \<Rightarrow> (('m, 'l, 'c, 'x) cell, 'm ginstance) copier" where
  "ClawInstance_DeepCopyInto lib h src =
     (let out = src;
          out = out\<lparr>gi_type := gi_type src\<rparr>;
          (m, h) = ml_ObjectMeta lib h (gi_meta src);
          out = out\<lparr>gi_meta := m\<rparr>;
          out = out\<lparr>gi_spec := gi_spec src\<rparr>;
          (st, h) = ClawInstanceStatus_DeepCopyInto lib h (gi_status src)
      in (out\<lparr>gi_status := st\<rparr>, h))"

definition zero_instance :: "('m, 'l, 'c, 'x) meta_lib \<Rightarrow> 'm ginstance" where
  "zero_instance lib = \<lparr>gi_type = zero_type, gi_meta = ml_zeroObjectMeta lib, gi_spec = zero_spec, gi_status = zero_status\<rparr>"

definition ClawInstanceList_DeepCopyInto :: "('m, 'l, 'c, 'x) meta_lib \<Rightarrow> (('m, 'l, 'c, 'x) cell, 'l ginstance_list) copier" where
  "ClawInstanceList_DeepCopyInto lib h src =
     (let out = src;
          out = out\<lparr>gl_type := gl_type src\<rparr>;
          (m, h) = ml_ListMeta lib h (gl_meta src);
          out = out\<lparr>gl_meta := m\<rparr>;
          (xs, h) = copy_slice instances (zero_instance lib) (ClawInstance_DeepCopyInto lib) h (gl_items src)
      in (out\<lparr>gl_items := xs\<rparr>, h))"

definition ClawInstance_DeepCopy :: "('m, 'l, 'c, 'x) meta_lib \<Rightarrow> (('m, 'l, 'c, 'x) cell, ptr) copier" where
  "ClawInstance_DeepCopy lib = DeepCopy instances (zero_instance lib) (ClawInstance_DeepCopyInto lib)"

definition ClawInstanceList_DeepCopy :: "('m, 'l, 'c, 'x) meta_lib \<Rightarrow> (('m, 'l, 'c, 'x) cell, ptr) copier" where
  "ClawInstanceList_DeepCopy lib =
     DeepCopy lists \<lparr>gl_type = zero_type, gl_meta = ml_zeroListMeta lib, gl_items = None\<rparr> (ClawInstanceList_DeepCopyInto lib)"

definition ClawInstanceStatus_DeepCopy :: "('m, 'l, 'c, 'x) meta_lib \<Rightarrow> (('m, 'l, 'c, 'x) cell, ptr) copier" where
  "ClawInstanceStatus_DeepCopy lib = DeepCopy statuses zero_status (ClawInstanceStatus_DeepCopyInto lib)"

definition ClawInstanceSpec_DeepCopy :: "(('m, 'l, 'c, 'x) cell, ptr) copier" where
  "ClawInstanceSpec_DeepCopy = DeepCopy specs zero_spec ClawInstanceSpec_DeepCopyInto"

definition ClawInstanceResources_DeepCopy :: "(('m, 'l, 'c, 'x) cell, ptr) copier" where
  "ClawInstanceResources_DeepCopy = DeepCopy resourcess zero_resources ClawInstanceResources_DeepCopyInto"

definition ClawInstanceStorage_DeepCopy :: "(('m, 'l, 'c, 'x) cell, ptr) copier" where
  "ClawInstanceStorage_DeepCopy = DeepCopy storages zero_storage ClawInstanceStorage_DeepCopyInto"

definition ResourceList_DeepCopy :: "(('m, 'l, 'c, 'x) cell, ptr) copier" where
  "ResourceList_DeepCopy = DeepCopy resource_lists zero_resource_list ResourceList_DeepCopyInto"

text \<open>A \<^verbatim>\<open>runtime.Object\<close>: nil, or a pointer with its type, which is not nil even when the pointer is.\<close>

datatype runtime_object = NilObject | InstanceObject ptr | ListObject ptr

definition ClawInstance_DeepCopyObject :: "('m, 'l, 'c, 'x) meta_lib \<Rightarrow> ('m, 'l, 'c, 'x) cell heap \<Rightarrow> ptr \<Rightarrow> runtime_object \<times> ('m, 'l, 'c, 'x) cell heap" where
  "ClawInstance_DeepCopyObject lib h src =
     (let (c, h) = ClawInstance_DeepCopy lib h src in if c \<noteq> None then (InstanceObject c, h) else (NilObject, h))"

definition ClawInstanceList_DeepCopyObject :: "('m, 'l, 'c, 'x) meta_lib \<Rightarrow> ('m, 'l, 'c, 'x) cell heap \<Rightarrow> ptr \<Rightarrow> runtime_object \<times> ('m, 'l, 'c, 'x) cell heap" where
  "ClawInstanceList_DeepCopyObject lib h src =
     (let (c, h) = ClawInstanceList_DeepCopy lib h src in if c \<noteq> None then (ListObject c, h) else (NilObject, h))"

section \<open>What the functions promise\<close>

definition status_view :: "('m, 'l, 'c, 'x, 'vm, 'vl, 'vc) meta_view \<Rightarrow> (('m, 'l, 'c, 'x) cell, gstatus, (string \<times> string) \<times> 'vc list option) view" where
  "status_view mv = part_view (\<lambda>s. (gs_phase s, gs_namespace s)) gs_conditions (slice_view conditions (mv_Condition mv))"

definition instance_view :: "('m, 'l, 'c, 'x, 'vm, 'vl, 'vc) meta_view \<Rightarrow>
    (('m, 'l, 'c, 'x) cell, 'm ginstance, (type_meta \<times> claw_spec) \<times> 'vm \<times> (string \<times> string) \<times> 'vc list option) view" where
  "instance_view mv = part_view (\<lambda>i. (gi_type i, gi_spec i)) (\<lambda>i. (gi_meta i, gi_status i)) (pair_view (mv_ObjectMeta mv) (status_view mv))"

definition list_view :: "('m, 'l, 'c, 'x, 'vm, 'vl, 'vc) meta_view \<Rightarrow>
    (('m, 'l, 'c, 'x) cell, 'l ginstance_list,
      type_meta \<times> 'vl \<times> ((type_meta \<times> claw_spec) \<times> 'vm \<times> (string \<times> string) \<times> 'vc list option) list option) view" where
  "list_view mv = part_view gl_type (\<lambda>l. (gl_meta l, gl_items l)) (pair_view (mv_ListMeta mv) (slice_view instances (instance_view mv)))"

interpretation spec: deep_copier flat ClawInstanceSpec_DeepCopyInto
  by (rule deep_flat) (simp add: ClawInstanceSpec_DeepCopyInto_def)
interpretation resources: deep_copier flat ClawInstanceResources_DeepCopyInto
  by (rule deep_flat) (simp add: ClawInstanceResources_DeepCopyInto_def)
interpretation storage: deep_copier flat ClawInstanceStorage_DeepCopyInto
  by (rule deep_flat) (simp add: ClawInstanceStorage_DeepCopyInto_def)
interpretation resource_list: deep_copier flat ResourceList_DeepCopyInto
  by (rule deep_flat) (simp add: ResourceList_DeepCopyInto_def)

lemma status_deep: "meta_laws lib mv \<Longrightarrow> deep_copier (status_view mv) (ClawInstanceStatus_DeepCopyInto lib)"
  unfolding status_view_def
  by (rule deep_part [OF deep_slice, where upd = "\<lambda>c s. s\<lparr>gs_conditions := c\<rparr>"])
    (auto simp: meta_laws_def ClawInstanceStatus_DeepCopyInto_def split: prod.split)

lemma instance_deep: "meta_laws lib mv \<Longrightarrow> deep_copier (instance_view mv) (ClawInstance_DeepCopyInto lib)"
  unfolding instance_view_def
  by (rule deep_part [OF deep_pair [OF _ status_deep], where upd = "\<lambda>(m, s) i. i\<lparr>gi_meta := m, gi_status := s\<rparr>"])
    (auto simp: meta_laws_def ClawInstance_DeepCopyInto_def copy_pair_def Let_def split: prod.split)

lemma list_deep: "meta_laws lib mv \<Longrightarrow> deep_copier (list_view mv) (ClawInstanceList_DeepCopyInto lib)"
  unfolding list_view_def
  by (rule deep_part [OF deep_pair [OF _ deep_slice [OF instance_deep, where zero = "zero_instance lib"]], where upd = "\<lambda>(m, s) i. i\<lparr>gl_meta := m, gl_items := s\<rparr>"])
    (auto simp: meta_laws_def ClawInstanceList_DeepCopyInto_def copy_pair_def Let_def split: prod.split)

text \<open>A copy of a pointer: nil for nil; the same value, which nothing written later to memory that
  existed before the copy changes, as nothing written to other memory changes the original.\<close>

definition isolates :: "('k, ptr, 'v) view \<Rightarrow> ('k, ptr) copier \<Rightarrow> bool" where
  "isolates v copy \<longleftrightarrow> (\<forall>h p y q h'. vw_value v (hp_cells h) p = Some y \<longrightarrow> vw_refs v (hp_cells h) p \<subseteq> {..<hp_next h} \<longrightarrow>
     copy h p = (q, h') \<longrightarrow>
       (q = None \<longleftrightarrow> p = None) \<and> (\<forall>r < hp_next h. hp_cells h' r = hp_cells h r)
     \<and> (\<forall>c. (\<forall>r < hp_next h. c r = hp_cells h r) \<longrightarrow> vw_value v c p = Some y)
     \<and> (\<forall>c. (\<forall>r \<ge> hp_next h. c r = hp_cells h' r) \<longrightarrow> vw_value v c q = Some y))"

lemma deep_isolates:
  assumes v: "deep_copier v copy" and A: "array_ok A"
  shows "isolates (ptr_view A v) (DeepCopy A zero copy)"
  unfolding isolates_def
proof (intro allI impI)
  fix h :: "'a heap" and p y q h'
  assume p: "vw_value (ptr_view A v) (hp_cells h) p = Some y" "vw_refs (ptr_view A v) (hp_cells h) p \<subseteq> {..<hp_next h}"
    "DeepCopy A zero copy h p = (q, h')"
  note ptr = deep_ptr [OF v A, of zero]
  have "q = None \<longleftrightarrow> p = None" using p(3) by (auto simp: DeepCopy_def split: option.splits prod.splits)
  moreover have "\<forall>r < hp_next h. hp_cells h' r = hp_cells h r" using deep_copier.copied [OF ptr p(1,2)] p(3) by auto
  ultimately show "(q = None \<longleftrightarrow> p = None) \<and> (\<forall>r < hp_next h. hp_cells h' r = hp_cells h r)
     \<and> (\<forall>c. (\<forall>r < hp_next h. c r = hp_cells h r) \<longrightarrow> vw_value (ptr_view A v) c p = Some y)
     \<and> (\<forall>c. (\<forall>r \<ge> hp_next h. c r = hp_cells h' r) \<longrightarrow> vw_value (ptr_view A v) c q = Some y)"
    using deep_copier.isolated [OF ptr p] by blast
qed

lemma isolates_copy:
  "isolates v copy \<Longrightarrow> vw_value v (hp_cells h) p = Some y \<Longrightarrow> vw_refs v (hp_cells h) p \<subseteq> {..<hp_next h} \<Longrightarrow>
     copy h p = (q, h') \<Longrightarrow> \<forall>r \<ge> hp_next h. c r = hp_cells h' r \<Longrightarrow> vw_value v c q = Some y"
  unfolding isolates_def by blast

text \<open>Property C17. A deep copy of an instance, of a list of instances or of a part of one is the same value and shares no
  memory with the original: whatever is written later to the one leaves the other as it was. Of a nil
  pointer the copy is nil, also as a runtime object.\<close>

theorem deep_copies_isolated:
  assumes "meta_laws lib mv"
  shows "isolates (ptr_view instances (instance_view mv)) (ClawInstance_DeepCopy lib)
    \<and> isolates (ptr_view lists (list_view mv)) (ClawInstanceList_DeepCopy lib)
    \<and> isolates (ptr_view statuses (status_view mv)) (ClawInstanceStatus_DeepCopy lib)
    \<and> isolates (ptr_view (specs :: (('m, 'l, 'c, 'x) cell, claw_spec) array) flat) ClawInstanceSpec_DeepCopy
    \<and> isolates (ptr_view (resourcess :: (('m, 'l, 'c, 'x) cell, claw_resources) array) flat) ClawInstanceResources_DeepCopy
    \<and> isolates (ptr_view (storages :: (('m, 'l, 'c, 'x) cell, claw_storage) array) flat) ClawInstanceStorage_DeepCopy
    \<and> isolates (ptr_view (resource_lists :: (('m, 'l, 'c, 'x) cell, resource_list) array) flat) ResourceList_DeepCopy
    \<and> (\<forall>h p. fst (ClawInstance_DeepCopyObject lib h p) =
        (if p = None then NilObject else InstanceObject (fst (ClawInstance_DeepCopy lib h p))))
    \<and> (\<forall>h p. fst (ClawInstanceList_DeepCopyObject lib h p) =
        (if p = None then NilObject else ListObject (fst (ClawInstanceList_DeepCopy lib h p))))"
  unfolding ClawInstance_DeepCopyObject_def ClawInstanceList_DeepCopyObject_def
  unfolding ClawInstance_DeepCopy_def ClawInstanceList_DeepCopy_def ClawInstanceStatus_DeepCopy_def ClawInstanceSpec_DeepCopy_def
    ClawInstanceResources_DeepCopy_def ClawInstanceStorage_DeepCopy_def ResourceList_DeepCopy_def
  using instance_deep [OF assms] list_deep [OF assms] status_deep [OF assms]
  by (simp add: deep_isolates spec.deep_copier_axioms resources.deep_copier_axioms storage.deep_copier_axioms
      resource_list.deep_copier_axioms) (auto simp: DeepCopy_def split: option.splits prod.splits)

text \<open>Metadata whose labels are a map on the heap: the original's cells are overwritten after the copy.\<close>

definition sample_meta :: "(nat, unit, condition, labels) meta_lib" where
  "sample_meta = \<lparr>ml_ObjectMeta = \<lambda>h a. alloc (hp_cells h a) h, ml_ListMeta = \<lambda>h a. (a, h), ml_Condition = \<lambda>h a. (a, h),
     ml_zeroObjectMeta = 0, ml_zeroListMeta = (),
     ml_zeroCondition = \<lparr>cn_type = [], cn_status = [], cn_reason = [], cn_message = [], cn_observedGeneration = 0, cn_lastTransition = 0\<rparr>\<rparr>"

definition sample_meta_view :: "(nat, unit, condition, labels, labels, unit, condition) meta_view" where
  "sample_meta_view = \<lparr>
     mv_ObjectMeta = \<lparr>vw_value = \<lambda>c a. (case c a of CLibrary x \<Rightarrow> Some x | _ \<Rightarrow> None), vw_refs = \<lambda>_ a. {a}\<rparr>,
     mv_ListMeta = flat, mv_Condition = flat\<rparr>"

definition sample_condition :: condition where
  "sample_condition = (ml_zeroCondition sample_meta)\<lparr>cn_type := ''Ready''\<rparr>"

definition sample_heap :: "(nat, unit, condition, labels) cell heap" where
  "sample_heap = \<lparr>hp_next = 3, hp_cells = (\<lambda>_. CStatuses [])
     (0 := CInstances [\<lparr>gi_type = zero_type, gi_meta = 1, gi_spec = zero_spec,
        gi_status = \<lparr>gs_phase = ''Running'', gs_namespace = ''n'', gs_conditions = Some \<lparr>sl_at = 2, sl_off = 0, sl_len = 1\<rparr>\<rparr>\<rparr>],
      1 := CLibrary [(''app'', ''x'')], 2 := CConditions [sample_condition])\<rparr>"

lemma sample_meta_laws: "meta_laws sample_meta sample_meta_view"
proof -
  have "deep_copier (mv_ObjectMeta sample_meta_view) (ml_ObjectMeta sample_meta)"
    by unfold_locales (auto simp: sample_meta_view_def sample_meta_def alloc_def)
  then show ?thesis by (simp add: meta_laws_def sample_meta_def sample_meta_view_def deep_flat)
qed

lemma sample_heap_value:
  "vw_value (ptr_view instances (instance_view sample_meta_view)) (hp_cells sample_heap) (Some (0, 0))
    = Some (Some [((zero_type, zero_spec), [(''app'', ''x'')], (''Running'', ''n''), Some [sample_condition])])"
  apply (simp add: ptr_view_def ptr_slice_def)
  apply (simp add: slice_view_def)
  apply (simp add: items_def instances_def)
  apply (simp add: sample_heap_def)
  apply (simp add: instance_view_def part_view_def)
  apply (simp add: pair_view_def status_view_def part_view_def slice_view_def)
  apply (simp add: sample_meta_view_def flat_def)
  apply (simp add: items_def conditions_def)
  done

lemma sample_heap_refs:
  "vw_refs (ptr_view instances (instance_view sample_meta_view)) (hp_cells sample_heap) (Some (0, 0)) \<subseteq> {..<hp_next sample_heap}"
  apply (simp add: ptr_view_def ptr_slice_def)
  apply (simp add: slice_view_def)
  apply (simp add: items_def instances_def)
  apply (simp add: sample_heap_def)
  apply (simp add: instance_view_def part_view_def)
  apply (simp add: pair_view_def status_view_def part_view_def slice_view_def)
  apply (simp add: items_def sample_meta_view_def flat_def)
  done

lemma deep_copies_isolated_witness:
  "\<exists>q h'. ClawInstance_DeepCopy sample_meta sample_heap (Some (0, 0)) = (q, h')
    \<and> vw_value (ptr_view instances (instance_view sample_meta_view)) (\<lambda>r. if r < 3 then CStatuses [] else hp_cells h' r) q
      = Some (Some [((zero_type, zero_spec), [(''app'', ''x'')], (''Running'', ''n''), Some [sample_condition])])"
proof -
  have copy: "isolates (ptr_view instances (instance_view sample_meta_view)) (ClawInstance_DeepCopy sample_meta)"
    using deep_copies_isolated [OF sample_meta_laws] by blast
  obtain q h' where q: "ClawInstance_DeepCopy sample_meta sample_heap (Some (0, 0)) = (q, h')"
    by (cases "ClawInstance_DeepCopy sample_meta sample_heap (Some (0, 0))")
  have "\<forall>r \<ge> hp_next sample_heap. (if r < 3 then CStatuses [] else hp_cells h' r) = hp_cells h' r"
    by (simp add: sample_heap_def)
  from isolates_copy [OF copy sample_heap_value sample_heap_refs q this] q show ?thesis by (intro exI conjI)
qed

end
