(* ===== verification/OperatorStart.thy ===== *)
theory OperatorStart
  imports Config Effects
begin

text \<open>
  How the operator starts: \<^verbatim>\<open>cmd/operator/main.go\<close>. What \<^verbatim>\<open>controller-runtime\<close> does is a call; the settings are those of
  \<open>Config\<close>. The result is the exit status of the process.
\<close>

record operator_flags =
  fl_metricsAddr :: string
  fl_probeAddr :: string
  fl_leaderElect :: bool

definition default_flags :: operator_flags where
  "default_flags = \<lparr>fl_metricsAddr = '':8081'', fl_probeAddr = '':8082'', fl_leaderElect = False\<rparr>"

datatype mcall =
  GetConfig
| NewManager string bool string
| SetupWithManager reconciler "string option"
| AddHealthzCheck string
| AddReadyzCheck string
| StartManager

type_synonym mprog = "(mcall, go_error option, nat) prog"

text \<open>\<^verbatim>\<open>if err := step; err != nil { logger.Error(...); os.Exit(1) }\<close>.\<close>

definition orExit :: "mcall \<Rightarrow> mprog \<Rightarrow> mprog" where
  "orExit c k = bind (ask c id) (\<lambda>err. if err \<noteq> None then Ret 1 else k)"

definition operator_main :: "operator_flags \<Rightarrow> environment \<Rightarrow> mprog" where
  "operator_main fl env =
     orExit GetConfig (
     orExit (NewManager (fl_probeAddr fl) (fl_leaderElect fl) ''clawbake-operator-leader'') (
     let reconciler = operator_settings env; notifier = notifier_url env in
     orExit (SetupWithManager reconciler notifier) (
     orExit (AddHealthzCheck ''healthz'') (
     orExit (AddReadyzCheck ''readyz'') (
     orExit StartManager (
     Ret 0))))))"

text \<open>The calls of a start that succeeds; each is made only when all before it did.\<close>

definition start_calls :: "operator_flags \<Rightarrow> environment \<Rightarrow> mcall list" where
  "start_calls fl env =
     [GetConfig, NewManager (fl_probeAddr fl) (fl_leaderElect fl) ''clawbake-operator-leader'',
      SetupWithManager (operator_settings env) (notifier_url env), AddHealthzCheck ''healthz'', AddReadyzCheck ''readyz'',
      StartManager]"

lemma orExit_run:
  "exec R (orExit c k) h x \<longleftrightarrow> (\<exists>err t. h = (c, err) # t \<and> R c err \<and> (if err = None then exec R k t x else t = [] \<and> x = 1))"
  by (auto simp: orExit_def exec_Call_iff)

text \<open>Whatever the cluster answers, the operator makes these calls in this order, up to the first that fails. It ends with
  status 0 exactly when all succeeded, so it reconciles only with the settings of its environment and both health
  checks in place. The address for metrics is read from the flags and not used.\<close>

theorem operator_main_calls:
  assumes "exec (\<lambda>_ _. True) (operator_main fl env) h x"
  shows "(\<exists>t. start_calls fl env = map fst h @ t) \<and> (\<forall>(c, err) \<in> set (butlast h). err = None)
    \<and> (x = 0 \<longleftrightarrow> map fst h = start_calls fl env \<and> snd (last h) = None) \<and> x \<le> 1
    \<and> operator_main (fl\<lparr>fl_metricsAddr := a\<rparr>) env = operator_main fl env"
proof -
  have "operator_main (fl\<lparr>fl_metricsAddr := a\<rparr>) env = operator_main fl env" by (simp add: operator_main_def)
  with assms show ?thesis
    by (auto simp: operator_main_def orExit_run start_calls_def Let_def split: if_splits)
qed

lemma operator_main_calls_witness:
  "exec (\<lambda>_ _. True) (operator_main default_flags (\<lambda>_. [])) (map (\<lambda>c. (c, None)) (start_calls default_flags (\<lambda>_. []))) 0
   \<and> (\<forall>h. exec (\<lambda>_ _. True) (operator_main default_flags (\<lambda>_. [])) h 0 \<longrightarrow> map fst h = start_calls default_flags (\<lambda>_. []))"
proof -
  have "exec (\<lambda>_ _. True) (operator_main default_flags (\<lambda>_. [])) (map (\<lambda>c. (c, None)) (start_calls default_flags (\<lambda>_. []))) 0"
    by (simp add: operator_main_def orExit_run start_calls_def Let_def)
  then show ?thesis using operator_main_calls by blast
qed

end
