(* ===== verification/Spec2Isabelle.thy ===== *)
theory Spec2Isabelle
  imports ServerLife Lifecycle Creation PollAnswer Forms DeepCopy OperatorStart
begin

text \<open>
  Clawbake runs one OpenClaw instance per user on Kubernetes. This is a model of its Go code, with
  the theorems that make it correct. Names are those of the source where that is possible.

  \<^bold>\<open>The program.\<close> A server (\<^verbatim>\<open>cmd/server\<close>) signs users in (\<^verbatim>\<open>internal/auth\<close>), keeps them and the defaults of
  instances in PostgreSQL (\<^verbatim>\<open>internal/database\<close>), and lets them create, edit, delete and reach their instances
  through an API, pages and a proxy (\<^verbatim>\<open>internal/handler\<close>), or through Slack (\<^verbatim>\<open>internal/bot\<close>). An instance is a
  \<^verbatim>\<open>ClawInstance\<close> object (\<^verbatim>\<open>api/v1alpha1\<close>), written by the server through \<^verbatim>\<open>internal/k8s\<close>. An operator
  (\<^verbatim>\<open>cmd/operator\<close>, \<^verbatim>\<open>internal/operator\<close>) turns each object into a namespace with a volume claim, a deployment, a service and
  a network policy, and tells the server when the instance is ready, which tells its owner on Slack.
  The gateway configuration of an instance is a JSON document made from a template of the administrator's
  (\<^verbatim>\<open>internal/jsonutil\<close>).

  \<^bold>\<open>How code is modelled.\<close> A pure function is a HOL function on byte strings, words and records. A function with
  effects is a tree of type \<open>prog\<close> (theory \<open>Effects\<close>): it has returned, or it makes a call and goes on with
  whatever the answer is. Calls are what the code hands to the outside: the Kubernetes API, the database, the
  session store, the identity provider, Slack, the network, the clock, random bytes. The trees are finite by
  construction, so every operation returns once its calls do; a theorem in terms of \<open>rg\<close> speaks of every run against every outside, one
  in terms of \<open>run\<close> of the run against one. Errors are values (\<open>go_error\<close>), and panics are outcomes. Third-party functions on
  data that the code only passes through (binding a request to a struct, printing a UUID, HMAC, parsing a Slack
  event, Kubernetes quantities) are fields of the records \<open>web_lib\<close> and \<open>operator_lib\<close>; what is relied on is named
  (\<open>uuid_laws\<close>, \<open>finalizer_laws\<close>, \<open>float_text\<close>, \<open>echo_ok\<close>, \<open>templ_laws\<close>, \<open>meta_laws\<close>, \<open>condition_laws\<close>, \<open>finalizer_lists\<close>) and met by a concrete instance.
  The API server, where a property depends on what it does, is a parameter with the laws of the locale \<open>api_server\<close>.

  \<^bold>\<open>The theories.\<close>
  \<^item> \<open>Prelude\<close>, \<open>GoStrings\<close>, \<open>GoError\<close>, \<open>Effects\<close>: decimal numbers, sorted maps, the string functions of Go's library on
    bytes, errors, call trees with their rules.
  \<^item> \<open>JsonScan\<close>, \<open>JsonText\<close>, \<open>JsonValue\<close>, \<open>JsonCodec\<close>, \<open>JsonIndent\<close>: \<^verbatim>\<open>encoding/json\<close>, as far as the code uses it: the
    scanner state by state, strings with their escapes and invalid UTF-8, decoding, encoding, compacting and
    indenting. Encoding then decoding is the identity; compacting and indenting keep the meaning.
    Nesting is bounded by 10000, as in the library; \<open>JsonIndent\<close> ends with \<^verbatim>\<open>prettyJSON\<close> and \<^verbatim>\<open>compactJSON\<close>.
  \<^item> \<open>Jsonutil\<close>: \<^verbatim>\<open>merge.go\<close> and \<^verbatim>\<open>template.go\<close>. The merge runs over Go's unordered map, so besides
    the function there is the relation \<open>merge_run\<close> of all orders, which agree. Templates are cut into plain bytes and holes; validating one
    template decides for all values.
  \<^item> \<open>Types\<close>, \<open>OperatorObjects\<close>, \<open>Operator\<close>, \<open>OperatorSafety\<close>: the resource; the objects each \<^verbatim>\<open>reconcile\<close> function
    writes and the script that installs the configuration; one call of \<^verbatim>\<open>Reconcile\<close>; its order of calls, life cycle (an inductive relation on
    phases), finalizer, notification and progress. The \<open>notifier\<close> interface is a locale.
  \<^item> \<open>Database\<close>: the two tables with the constraints of the migrations and every query. Getting or creating a user is a locale
    (\<open>user_store\<close>), interpreted for email and for subject.
  \<^item> \<open>Config\<close>, \<open>Server\<close>: configuration, requests, replies, the calls of the server and the helpers of \<^verbatim>\<open>internal/k8s\<close>.
  \<^item> \<open>Auth\<close>, \<open>AuthSafety\<close>: \<^verbatim>\<open>oidc.go\<close> and \<^verbatim>\<open>dev.go\<close>. What protected routes need of a provider is the locale \<open>auth_provider\<close>,
    interpreted for both.
  \<^item> \<open>Handlers\<close>, \<open>Proxy\<close>, \<open>HandlerSafety\<close>, \<open>Routes\<close>: the handlers, the proxy, what each may do for a user (\<open>may\<close>, \<open>reveals\<close>), and the table of routes with its
    middleware, for which both are proved.
  \<^item> \<open>Bot\<close>, \<open>BotSafety\<close>: the Slack bot, and on whose behalf it acts.
  \<^item> \<open>System\<close>: requests, Slack tasks and reconciliations, any number at once, one call at a time in any order against
    one collection of objects, where each call may fail and a write that reports an error may still have
    happened; an update of an outdated version is refused. \<open>sys\<close> is the relation of the states reached, its invariant by
    rule induction over what each program guarantees. The specification it is proved to refine is \<open>plan_step\<close>: a map from users
    to specifications that are created, edited one generation at a time, and removed.
  \<^item> \<open>Cluster\<close>, \<open>Convergence\<close>: the operator against a cluster. The state is what an API server keeps of the operator's objects; the laws say
    what the server documents of each call, and no more. For one kind of object they are the locale \<open>kube_kind\<close>, in which
    \<open>createOrUpdate\<close> is shown to leave an object as its mutate function wants it; \<open>api_server\<close> puts five of them together with the calls for
    instances, namespaces, events and notifications, and in it one call of \<^verbatim>\<open>Reconcile\<close> is followed from any state to the state it
    leaves (\<open>converged\<close>, \<open>removed_with_home\<close>). \<open>serve_cluster\<close> is a server that keeps the laws.
  \<^item> \<open>Lifecycle\<close>: an instance from the create handler to its deletion, the steps of the operator between those of others.
  \<^item> \<open>Startup\<close>, \<open>OperatorStart\<close>: how the server starts (migrations, defaults, providers, bot), and how the operator does.
  \<^item> \<open>ServerLife\<close>: the login that is set up with its cookies, and the end of \<^verbatim>\<open>cmd/server/main.go\<close>: the two goroutines, the signal, the requests in
    flight and the ten seconds of the shutdown as a function on the process (\<open>happens\<close>) and the relation of its runs, with an
    invariant by rule induction and a measure of what can still happen once it drains.
  \<^item> \<open>Creation\<close>: properties across components: a configuration from template to instance and from edit form to
    pod, the ports of proxy and service, a notification from the operator to the owner.
  \<^item> \<open>Templates\<close>: the helpers of \<^verbatim>\<open>web/templates\<close> and what the instance card decides to show.
  \<^item> \<open>Templ\<close>, \<open>Html\<close>, \<open>Pages\<close>, \<open>PageSafety\<close>: the code the \<^verbatim>\<open>templ\<close> tool generates. A component is a program whose calls are the
    writes into the page, with the errors the code checks after each (\<open>Templ\<close>); \<open>Pages\<close> has one definition per component of the eight
    files, literal by literal, and \<^verbatim>\<open>render\<close> of \<^verbatim>\<open>pages.go\<close>. \<open>Html\<close> is how a browser reads a page, an automaton over its bytes
    that yields tags, attributes and text areas. A component is \<open>clean\<close> when, run on this automaton, every value is written where
    data may stand; the components are shown so one by one, and that a page's structure does not depend on data follows.
  \<^item> \<open>PageLinks\<close>: the links, forms and polling addresses of the pages against the table of routes.
  \<^item> \<open>PageReading\<close>, \<open>PollAnswer\<close>: what a reader picks from a page, computed along its components, and that the answer of a poll
    refines the decisions of \<open>Templates\<close>.
  \<^item> \<open>Forms\<close>: what a browser sends for a form that was not touched, line ends included, and what the handlers make of it.
  \<^item> \<open>DeepCopy\<close>: \<^verbatim>\<open>zz_generated.deepcopy.go\<close> on an explicit heap. Everywhere else resources are values, which is right as long
    as copies share nothing; here that is proved. The contract of a deep copy is the locale \<open>deep_copier\<close>: slices, pointers and structs of
    copiers are copiers, the flat types are interpretations.

  \<^bold>\<open>Bounds and loops.\<close> There is no fuel: recursion is structural or has a measure (the scanner over bytes, \<open>segments\<close>, \<open>deepMerge\<close>,
  the attempts of \<open>connect\<close>, at most 30). The shutdown of the server is bounded by the requests in flight and the seconds left. White-space splitting recurses over the length of the string. Integers keep their width where it
  matters: the configuration generation and the age of a request (64 bits), ports (32 bits).

  \<^bold>\<open>Not modelled.\<close> The JavaScript of the pages and what htmx does with answers; registration of types and handlers with
  libraries, static files, logging. Echo's matching of a path to a route: theorems hold for each route (\<open>PageLinks\<close> reads
  patterns as documented). Of HTML, the reading covers what pages contain: tags, quoted attributes, scripts and text areas. Deadlines of
  contexts and data a proxied connection carries. Concurrency inside one request is only the tasks it starts.
  Of resource versions, only the optimistic check of updates (in \<open>System\<close> and \<open>Cluster\<close>). In \<open>Convergence\<close> a call of \<^verbatim>\<open>Reconcile\<close> runs without
  interference and every lawful call is answered; interleavings and failures are those of \<open>System\<close> and of the properties in terms of
  \<open>rg\<close>. Fields of objects that the operator never writes, such as those the API server fills in, are not part of them.
  Of \<^verbatim>\<open>main\<close>, Echo's middleware for logs, panics and CORS is the library's. Left out because nothing of the program is in them:
  \<^verbatim>\<open>groupversion_info.go\<close> and \<^verbatim>\<open>SetupWithManager\<close> (registration), \<^verbatim>\<open>db.go\<close> (generated, the handle of the pool),
  \<^verbatim>\<open>version.go\<close>, \<^verbatim>\<open>embed.go\<close>, and \<^verbatim>\<open>WithDevUser\<close>, which no code calls.
\<close>

end
